theory Spec2Isabelle
  imports Complex_Main "HOL-Library.Char_ord" "HOL-Library.List_Lexorder"
    "HOL-Library.Product_Lexorder"
begin

section \<open>Conventions of the embedding\<close>

text \<open>
  The theory embeds \<^verbatim>\<open>part1-database-etl/etl_pipeline.py\<close> (class \<^verbatim>\<open>ETLPipeline\<close>).

  \<^item> A pandas cell that may be missing (\<^verbatim>\<open>NaN\<close>/\<^verbatim>\<open>None\<close>, tested with \<^verbatim>\<open>pd.isna\<close>) is an
    \<open>option\<close>; \<open>None\<close> is the missing value.
  \<^item> A Python \<^verbatim>\<open>str\<close> is a \<open>string\<close>. Characters are the code points below 256
    (Latin-1), with the whitespace, case and case-mapping properties that Unicode gives
    them. Two of them, U+00B5 and U+00FF, have a title case beyond code point 255
    (U+039C and U+0178), which is no character here: \<open>to_title\<close> leaves them as they
    are.
  \<^item> Numeric columns (\<^verbatim>\<open>quantity\<close>, \<^verbatim>\<open>unit_price\<close>, \<^verbatim>\<open>price\<close>) are \<^verbatim>\<open>float64\<close>. Every finite
    double is a rational, so a value is a \<open>rat\<close> and \<^verbatim>\<open>NaN\<close> is \<open>None\<close>; infinities are
    not modelled. Comparing, sorting and truncating doubles is exact. The operations
    that round are done by numpy, outside the repository; they are parameters of the
    embedding, the record \<open>float_ops\<close>, and nothing is assumed of them.
  \<^item> A data frame is the list of its rows, in row order.
  \<^item> A raised exception is the \<open>Inl\<close> branch of a sum.
\<close>

datatype py_error = ValueError | TypeError

text \<open>
  The arithmetic of \<^verbatim>\<open>float64\<close> columns: \<open>fmul x y\<close> is the product \<^verbatim>\<open>x * y\<close> of two
  cells, \<open>fsum xs\<close> is \<^verbatim>\<open>ndarray.sum()\<close> of a column without \<^verbatim>\<open>NaN\<close>, in whatever order
  numpy adds, and \<open>fmean a b\<close> is the mean of two values that a median of an even number
  of values returns.
\<close>

record float_ops =
  fmul :: "rat \<Rightarrow> rat \<Rightarrow> rat"
  fsum :: "rat list \<Rightarrow> rat"
  fmean :: "rat \<Rightarrow> rat \<Rightarrow> rat"

section \<open>Field normalizer\<close>

subsection \<open>\<^verbatim>\<open>standardize_phone\<close>\<close>

text \<open>\<^verbatim>\<open>\D\<close> of Python's \<^verbatim>\<open>re\<close>: below code point 256 the decimal digits are \<^verbatim>\<open>0\<close>..\<^verbatim>\<open>9\<close>.\<close>

definition is_digit :: "char \<Rightarrow> bool" where
  "is_digit c \<longleftrightarrow> 48 \<le> (of_char c :: nat) \<and> (of_char c :: nat) \<le> 57"

text \<open>\<^verbatim>\<open>re.sub(r'\D', '', s)\<close>\<close>

definition digits_only_of :: "string \<Rightarrow> string" where
  "digits_only_of s = filter is_digit s"

text \<open>\<^verbatim>\<open>s.startswith(p)\<close>\<close>

definition startswith :: "string \<Rightarrow> string \<Rightarrow> bool" where
  "startswith s p \<longleftrightarrow> take (length p) s = p"

text \<open>\<^verbatim>\<open>s[-k:]\<close> for \<open>k > 0\<close>: the last \<open>k\<close> characters, the whole string when it is shorter.\<close>

definition last_chars :: "nat \<Rightarrow> string \<Rightarrow> string" where
  "last_chars k s = drop (length s - k) s"

definition standardize_phone :: "string option \<Rightarrow> string option" where
  "standardize_phone phone =
     (case phone of
        None \<Rightarrow> None
      | Some phone_str \<Rightarrow>
          if phone_str = [] then None
          else
            let digits_only = digits_only_of phone_str in
            if length digits_only = 10 then Some (''+91-'' @ digits_only)
            else if length digits_only = 12 \<and> startswith digits_only ''91''
              then Some (''+91-'' @ drop 2 digits_only)
            else if length digits_only = 11 \<and> startswith digits_only ''0''
              then Some (''+91-'' @ drop 1 digits_only)
            else if length digits_only \<ge> 10
              then Some (''+91-'' @ last_chars 10 digits_only)
            else None)"

subsection \<open>\<^verbatim>\<open>standardize_category\<close>\<close>

text \<open>\<^verbatim>\<open>str.strip()\<close>: the whitespace characters below code point 256.\<close>

definition is_space :: "char \<Rightarrow> bool" where
  "is_space c \<longleftrightarrow>
     (let n = (of_char c :: nat)
      in (9 \<le> n \<and> n \<le> 13) \<or> (28 \<le> n \<and> n \<le> 32) \<or> n = 133 \<or> n = 160)"

definition strip :: "string \<Rightarrow> string" where
  "strip s = rev (dropWhile is_space (rev (dropWhile is_space s)))"

text \<open>
  The letters below code point 256. Upper case: \<^verbatim>\<open>A\<close>..\<^verbatim>\<open>Z\<close> and U+00C0..U+00DE without
  the multiplication sign U+00D7. Lower case: \<^verbatim>\<open>a\<close>..\<^verbatim>\<open>z\<close>, U+00DF..U+00FF without the
  division sign U+00F7, the ordinal indicators U+00AA and U+00BA and the micro sign
  U+00B5. A character is cased when it is one or the other.
\<close>

definition is_upper :: "char \<Rightarrow> bool" where
  "is_upper c \<longleftrightarrow>
     (let n = (of_char c :: nat)
      in (65 \<le> n \<and> n \<le> 90) \<or> (192 \<le> n \<and> n \<le> 222 \<and> n \<noteq> 215))"

definition is_lower :: "char \<Rightarrow> bool" where
  "is_lower c \<longleftrightarrow>
     (let n = (of_char c :: nat)
      in (97 \<le> n \<and> n \<le> 122) \<or> (223 \<le> n \<and> n \<noteq> 247) \<or> n = 170 \<or> n = 181 \<or> n = 186)"

definition is_cased :: "char \<Rightarrow> bool" where
  "is_cased c \<longleftrightarrow> is_upper c \<or> is_lower c"

text \<open>The lower case of an upper-case letter is 32 code points above it.\<close>

definition to_lower :: "char \<Rightarrow> char" where
  "to_lower c = (if is_upper c then char_of ((of_char c :: nat) + 32) else c)"

text \<open>
  The title case of a character, a text: 32 code points below for \<^verbatim>\<open>a\<close>..\<^verbatim>\<open>z\<close> and
  U+00E0..U+00FE without U+00F7, the two letters \<^verbatim>\<open>Ss\<close> for the sharp s U+00DF, the
  character itself otherwise.
\<close>

definition to_title :: "char \<Rightarrow> string" where
  "to_title c =
     (let n = (of_char c :: nat)
      in if (97 \<le> n \<and> n \<le> 122) \<or> (224 \<le> n \<and> n \<le> 254 \<and> n \<noteq> 247) then [char_of (n - 32)]
         else if n = 223 then ''Ss''
         else [c])"

text \<open>\<^verbatim>\<open>str.lower()\<close>\<close>

definition lower :: "string \<Rightarrow> string" where
  "lower s = map to_lower s"

text \<open>
  \<^verbatim>\<open>str.title()\<close>: a character that follows a cased character is lower-cased, every
  other character is title-cased.
\<close>

fun title_from :: "bool \<Rightarrow> string \<Rightarrow> string" where
  "title_from previous_is_cased [] = []"
| "title_from previous_is_cased (c # cs) =
     (if previous_is_cased then [to_lower c] else to_title c) @ title_from (is_cased c) cs"

definition title :: "string \<Rightarrow> string" where
  "title s = title_from False s"

definition standardize_category :: "string option \<Rightarrow> string option" where
  "standardize_category category =
     (case category of
        None \<Rightarrow> None
      | Some c \<Rightarrow> if c = [] then None else Some (title (strip c)))"

text \<open>
  Two labels that differ only in letter case or surrounding whitespace, in the
  specification's words: each is a text between two runs of whitespace, and the two
  texts are the same once their letters are lower-cased.
\<close>

definition differ_only_in_case_or_outer_space :: "string \<Rightarrow> string \<Rightarrow> bool" where
  "differ_only_in_case_or_outer_space c c' \<longleftrightarrow>
     (\<exists>l core r l' core' r'.
        c = l @ core @ r \<and> c' = l' @ core' @ r'
        \<and> list_all is_space (l @ r @ l' @ r') \<and> lower core = lower core')"

subsection \<open>\<^verbatim>\<open>standardize_date\<close>\<close>

text \<open>
  \<^verbatim>\<open>datetime.strptime\<close> turns a format into a regular expression, matches it at the start
  of the text and rejects the text when characters remain. The directives of the five
  formats and their expressions (CPython, \<^verbatim>\<open>_strptime.TimeRE\<close>):
  \<^verbatim>\<open>%Y\<close> is \<^verbatim>\<open>\d\d\d\d\<close>, \<^verbatim>\<open>%m\<close> is \<^verbatim>\<open>1[0-2]|0[1-9]|[1-9]\<close>,
  \<^verbatim>\<open>%d\<close> is \<^verbatim>\<open>3[0-1]|[1-2]\d|0[1-9]|[1-9]| [1-9]\<close>.
  A match is computed as the list of all matches in backtracking order; \<^verbatim>\<open>re.match\<close>
  returns the first.
\<close>

datatype directive = Dir_Y | Dir_m | Dir_d | Lit char

definition date_formats :: "directive list list" where
  "date_formats =
     [[Dir_Y, Lit CHR ''-'', Dir_m, Lit CHR ''-'', Dir_d],
      [Dir_d, Lit CHR ''/'', Dir_m, Lit CHR ''/'', Dir_Y],
      [Dir_m, Lit CHR ''-'', Dir_d, Lit CHR ''-'', Dir_Y],
      [Dir_d, Lit CHR ''-'', Dir_m, Lit CHR ''-'', Dir_Y],
      [Dir_m, Lit CHR ''/'', Dir_d, Lit CHR ''/'', Dir_Y]]"

definition char_in :: "char \<Rightarrow> char \<Rightarrow> char \<Rightarrow> bool" where
  "char_in lo hi c \<longleftrightarrow> (of_char lo :: nat) \<le> of_char c \<and> (of_char c :: nat) \<le> of_char hi"

text \<open>One, two and four characters of given classes at the start of the text.\<close>

fun one_char :: "(char \<Rightarrow> bool) \<Rightarrow> string \<Rightarrow> (string \<times> string) list" where
  "one_char P (a # r) = (if P a then [([a], r)] else [])"
| "one_char P [] = []"

fun two_chars :: "(char \<Rightarrow> bool) \<Rightarrow> (char \<Rightarrow> bool) \<Rightarrow> string \<Rightarrow> (string \<times> string) list" where
  "two_chars P Q (a # b # r) = (if P a \<and> Q b then [([a, b], r)] else [])"
| "two_chars P Q [a] = []"
| "two_chars P Q [] = []"

fun four_chars :: "(char \<Rightarrow> bool) \<Rightarrow> string \<Rightarrow> (string \<times> string) list" where
  "four_chars P (a # b # c # d # r) = (if P a \<and> P b \<and> P c \<and> P d then [([a, b, c, d], r)] else [])"
| "four_chars P [a, b, c] = []"
| "four_chars P [a, b] = []"
| "four_chars P [a] = []"
| "four_chars P [] = []"

text \<open>The alternatives of a directive, in the order the expression lists them.\<close>

fun alternatives :: "directive \<Rightarrow> string \<Rightarrow> (string \<times> string) list" where
  "alternatives Dir_Y s = four_chars is_digit s"
| "alternatives Dir_m s =
     two_chars ((=) CHR ''1'') (char_in CHR ''0'' CHR ''2'') s
     @ two_chars ((=) CHR ''0'') (char_in CHR ''1'' CHR ''9'') s
     @ one_char (char_in CHR ''1'' CHR ''9'') s"
| "alternatives Dir_d s =
     two_chars ((=) CHR ''3'') (char_in CHR ''0'' CHR ''1'') s
     @ two_chars (char_in CHR ''1'' CHR ''2'') is_digit s
     @ two_chars ((=) CHR ''0'') (char_in CHR ''1'' CHR ''9'') s
     @ one_char (char_in CHR ''1'' CHR ''9'') s
     @ two_chars ((=) CHR '' '') (char_in CHR ''1'' CHR ''9'') s"
| "alternatives (Lit c) s = one_char ((=) c) s"

text \<open>The named groups \<^verbatim>\<open>Y\<close>, \<^verbatim>\<open>m\<close>, \<^verbatim>\<open>d\<close> of a match.\<close>

record groupdict =
  grp_Y :: string
  grp_m :: string
  grp_d :: string

fun bind_group :: "directive \<Rightarrow> string \<Rightarrow> groupdict \<Rightarrow> groupdict" where
  "bind_group Dir_Y txt g = g\<lparr>grp_Y := txt\<rparr>"
| "bind_group Dir_m txt g = g\<lparr>grp_m := txt\<rparr>"
| "bind_group Dir_d txt g = g\<lparr>grp_d := txt\<rparr>"
| "bind_group (Lit c) txt g = g"

fun re_match :: "directive list \<Rightarrow> string \<Rightarrow> groupdict \<Rightarrow> (groupdict \<times> string) list" where
  "re_match [] s g = [(g, s)]"
| "re_match (t # ts) s g =
     concat (map (\<lambda>(txt, rest). re_match ts rest (bind_group t txt g)) (alternatives t s))"

definition digit_value :: "char \<Rightarrow> nat" where
  "digit_value c = (of_char c :: nat) - 48"

text \<open>\<^verbatim>\<open>int(s)\<close> on a text of digits, surrounding whitespace ignored.\<close>

definition py_int :: "string \<Rightarrow> nat" where
  "py_int s = foldl (\<lambda>a c. 10 * a + digit_value c) 0 (strip s)"

definition is_leap :: "nat \<Rightarrow> bool" where
  "is_leap y \<longleftrightarrow> y mod 4 = 0 \<and> (y mod 100 \<noteq> 0 \<or> y mod 400 = 0)"

definition days_in_month :: "nat \<Rightarrow> nat \<Rightarrow> nat" where
  "days_in_month y m =
     (if m = 2 then (if is_leap y then 29 else 28)
      else if m = 4 \<or> m = 6 \<or> m = 9 \<or> m = 11 then 30 else 31)"

text \<open>
  \<^verbatim>\<open>datetime.strptime(s, fmt)\<close>: \<open>None\<close> is the \<^verbatim>\<open>ValueError\<close> (no match, unconverted
  data, or a year, month and day that are no date), otherwise year, month and day.
\<close>

definition strptime :: "string \<Rightarrow> directive list \<Rightarrow> (nat \<times> nat \<times> nat) option" where
  "strptime s fmt =
     (case re_match fmt s \<lparr>grp_Y = [], grp_m = [], grp_d = []\<rparr> of
        [] \<Rightarrow> None
      | (g, rest) # _ \<Rightarrow>
          if rest \<noteq> [] then None
          else
            let y = py_int (grp_Y g); m = py_int (grp_m g); d = py_int (grp_d g)
            in if 1 \<le> y \<and> y \<le> 9999 \<and> 1 \<le> m \<and> m \<le> 12 \<and> 1 \<le> d \<and> d \<le> days_in_month y m
               then Some (y, m, d) else None)"

definition digit_char :: "nat \<Rightarrow> char" where
  "digit_char n = char_of (48 + n)"

definition zero_pad2 :: "nat \<Rightarrow> string" where
  "zero_pad2 n = [digit_char (n div 10 mod 10), digit_char (n mod 10)]"

definition zero_pad4 :: "nat \<Rightarrow> string" where
  "zero_pad4 n =
     [digit_char (n div 1000 mod 10), digit_char (n div 100 mod 10),
      digit_char (n div 10 mod 10), digit_char (n mod 10)]"

text \<open>
  \<^verbatim>\<open>date_obj.strftime('%Y-%m-%d')\<close>. \<^verbatim>\<open>%m\<close> and \<^verbatim>\<open>%d\<close> are two digits. \<^verbatim>\<open>%Y\<close> is handed to
  the platform's C library: the documented result has four digits, but with glibc and
  CPython before 3.13 a year below 1000 is written without leading zeros
  (\<^verbatim>\<open>datetime(999, 1, 1).strftime('%Y')\<close> is \<^verbatim>\<open>'999'\<close>). The flag \<open>pad_year\<close> says
  which of the two the platform does.
\<close>

definition strftime_Y :: "bool \<Rightarrow> nat \<Rightarrow> string" where
  "strftime_Y pad_year y =
     (if pad_year then zero_pad4 y else dropWhile ((=) CHR ''0'') (zero_pad4 y))"

definition strftime_Ymd :: "bool \<Rightarrow> nat \<times> nat \<times> nat \<Rightarrow> string" where
  "strftime_Ymd pad_year date =
     (case date of (y, m, d) \<Rightarrow> strftime_Y pad_year y @ ''-'' @ zero_pad2 m @ ''-'' @ zero_pad2 d)"

text \<open>The loop over \<^verbatim>\<open>date_formats\<close>: the first format that parses wins.\<close>

fun try_formats :: "bool \<Rightarrow> directive list list \<Rightarrow> string \<Rightarrow> string option" where
  "try_formats pad_year [] s = None"
| "try_formats pad_year (fmt # fmts) s =
     (case strptime s fmt of
        Some date_obj \<Rightarrow> Some (strftime_Ymd pad_year date_obj)
      | None \<Rightarrow> try_formats pad_year fmts s)"

definition standardize_date :: "bool \<Rightarrow> string option \<Rightarrow> string option" where
  "standardize_date pad_year date_str =
     (case date_str of
        None \<Rightarrow> None
      | Some s \<Rightarrow> if s = [] then None else try_formats pad_year date_formats (strip s))"

section \<open>Record cleanser\<close>

text \<open>
  \<^verbatim>\<open>df.drop_duplicates(subset=[key], keep='first')\<close>: a row is kept unless an earlier row has
  the same key; two missing keys count as equal.
\<close>

fun drop_duplicates_from :: "'k list \<Rightarrow> ('a \<Rightarrow> 'k) \<Rightarrow> 'a list \<Rightarrow> 'a list" where
  "drop_duplicates_from seen key [] = []"
| "drop_duplicates_from seen key (row # rest) =
     (if key row \<in> set seen then drop_duplicates_from seen key rest
      else row # drop_duplicates_from (key row # seen) key rest)"

definition drop_duplicates :: "('a \<Rightarrow> 'k) \<Rightarrow> 'a list \<Rightarrow> 'a list" where
  "drop_duplicates key df = drop_duplicates_from [] key df"

text \<open>\<^verbatim>\<open>+\<close> on string columns: a missing operand gives a missing result.\<close>

definition str_add :: "string option \<Rightarrow> string option \<Rightarrow> string option" where
  "str_add a b = (case a of None \<Rightarrow> None | Some x \<Rightarrow> (case b of None \<Rightarrow> None | Some y \<Rightarrow> Some (x @ y)))"

subsection \<open>\<^verbatim>\<open>transform_customers\<close>\<close>

text \<open>
  A row of \<^verbatim>\<open>customers_raw.csv\<close>. Every field is the text of its cell; \<open>phone\<close> is the
  text \<^verbatim>\<open>str(phone)\<close> that \<^verbatim>\<open>standardize_phone\<close> works on (for a column that pandas read
  as numbers this is the text of the number, which ends in \<^verbatim>\<open>.0\<close>).
\<close>

record customer_raw =
  customer_id :: "string option"
  first_name :: "string option"
  last_name :: "string option"
  email :: "string option"
  phone :: "string option"
  city :: "string option"
  registration_date :: "string option"

text \<open>A cleansed row carries the surrogate key (column \<^verbatim>\<open>id\<close>) as well.\<close>

record customer = customer_raw +
  id_col :: int

definition default_email :: "'a customer_raw_scheme \<Rightarrow> string option" where
  "default_email row =
     str_add (str_add (str_add (map_option lower (first_name row)) (Some ''.''))
                      (map_option lower (last_name row)))
             (Some ''@unknown.com'')"

definition fill_missing_emails :: "customer_raw list \<Rightarrow> customer_raw list" where
  "fill_missing_emails df =
     (let missing_emails = length (filter (\<lambda>row. email row = None) df)
      in if missing_emails > 0
         then map (\<lambda>row. if email row = None then row\<lparr>email := default_email row\<rparr> else row) df
         else df)"

text \<open>\<^verbatim>\<open>df.insert(0, 'id', range(1, len(df) + 1))\<close>\<close>

definition surrogate_keys :: "'a list \<Rightarrow> int list" where
  "surrogate_keys df = map (\<lambda>i. int i + 1) [0..<length df]"

definition transform_customers :: "bool \<Rightarrow> customer_raw list \<Rightarrow> customer list" where
  "transform_customers pad_year customers_df =
     (let df = drop_duplicates customer_id customers_df;
          df = fill_missing_emails df;
          df = map (\<lambda>row. row\<lparr>phone := standardize_phone (phone row)\<rparr>) df;
          df = map (\<lambda>row. row\<lparr>registration_date :=
                                  standardize_date pad_year (registration_date row)\<rparr>) df
      in map (\<lambda>(row, i). customer_raw.extend row (customer.fields i)) (zip df (surrogate_keys df)))"

subsection \<open>\<^verbatim>\<open>transform_products\<close>\<close>

record product_raw =
  product_id :: "string option"
  product_name :: "string option"
  category :: "string option"
  price :: "rat option"
  stock_quantity :: "int option"

record product = product_raw +
  product_id_col :: int

text \<open>
  \<^verbatim>\<open>Series.median()\<close>: missing values are skipped; no value at all gives a missing
  median. Of the values in ascending order it is the middle one, or the mean of the two
  middle ones.
\<close>

definition median :: "float_ops \<Rightarrow> rat list \<Rightarrow> rat option" where
  "median fl xs =
     (if xs = [] then None
      else
        let s = sort xs; n = length s
        in if odd n then Some (s ! (n div 2))
           else Some (fmean fl (s ! (n div 2 - 1)) (s ! (n div 2))))"

text \<open>The prices present in a frame, \<^verbatim>\<open>df['price']\<close> without the missing ones.\<close>

definition prices_of :: "'a product_raw_scheme list \<Rightarrow> rat list" where
  "prices_of df = List.map_filter price df"

text \<open>
  \<^verbatim>\<open>df.groupby('category')['price'].median()\<close>: the index holds the categories present in
  the frame (a missing category forms no group), the entry is the median of the prices of
  the rows whose category is that value.
\<close>

definition category_index :: "product_raw list \<Rightarrow> string list" where
  "category_index df = List.map_filter category df"

definition category_medians :: "float_ops \<Rightarrow> product_raw list \<Rightarrow> string \<Rightarrow> rat option" where
  "category_medians fl df c = median fl (prices_of (filter (\<lambda>row. category row = Some c) df))"

text \<open>
  The value written into a row with a missing price: the category median when the
  category is in the index and its median is present, otherwise \<^verbatim>\<open>df['price'].median()\<close>
  of the frame as it is at that moment.
\<close>

definition fill_price ::
  "float_ops \<Rightarrow> string list \<Rightarrow> (string \<Rightarrow> rat option) \<Rightarrow> product_raw list \<Rightarrow> string option \<Rightarrow>
     rat option" where
  "fill_price fl idx medians df cat =
     (case cat of
        None \<Rightarrow> median fl (prices_of df)
      | Some c \<Rightarrow>
          if c \<in> set idx \<and> medians c \<noteq> None then medians c else median fl (prices_of df))"

text \<open>
  The loop over the rows with a missing price. \<open>filled\<close> are the rows above the current
  one, already written back into the frame; the frame at that moment is \<open>filled\<close>, the
  current row and the rows below it.
\<close>

fun fill_prices ::
  "float_ops \<Rightarrow> string list \<Rightarrow> (string \<Rightarrow> rat option) \<Rightarrow> product_raw list \<Rightarrow> product_raw list \<Rightarrow>
     product_raw list"
  where
  "fill_prices fl idx medians filled [] = filled"
| "fill_prices fl idx medians filled (row # rest) =
     (if price row = None
      then fill_prices fl idx medians
             (filled @ [row\<lparr>price := fill_price fl idx medians (filled @ row # rest) (category row)\<rparr>])
             rest
      else fill_prices fl idx medians (filled @ [row]) rest)"

definition fill_missing_prices :: "float_ops \<Rightarrow> product_raw list \<Rightarrow> product_raw list" where
  "fill_missing_prices fl df =
     (let missing_prices = length (filter (\<lambda>row. price row = None) df)
      in if missing_prices > 0
         then fill_prices fl (category_index df) (category_medians fl df) [] df
         else df)"

definition fill_missing_stock :: "product_raw list \<Rightarrow> product_raw list" where
  "fill_missing_stock df =
     (let missing_stock = length (filter (\<lambda>row. stock_quantity row = None) df)
      in if missing_stock > 0
         then map (\<lambda>row. if stock_quantity row = None then row\<lparr>stock_quantity := Some 0\<rparr> else row) df
         else df)"

definition transform_products :: "float_ops \<Rightarrow> product_raw list \<Rightarrow> product list" where
  "transform_products fl products_df =
     (let df = drop_duplicates product_id products_df;
          df = fill_missing_prices fl df;
          df = fill_missing_stock df;
          df = map (\<lambda>row. row\<lparr>category := standardize_category (category row)\<rparr>) df
      in map (\<lambda>(row, i). product_raw.extend row (product.fields i)) (zip df (surrogate_keys df)))"

section \<open>Order aggregator\<close>

text \<open>A row of the cleansed sales frame \<^verbatim>\<open>self.sales_df\<close>.\<close>

record sale =
  sale_id_col :: int
  transaction_id :: "string option"
  sale_customer_id :: "string option"
  sale_product_id :: "string option"
  quantity :: "rat option"
  unit_price :: "rat option"
  transaction_date :: "string option"
  status :: "string option"

text \<open>
  The row with the columns \<^verbatim>\<open>db_customer_id\<close>, \<^verbatim>\<open>db_product_id\<close> and \<^verbatim>\<open>subtotal\<close> that
  \<^verbatim>\<open>transform_sales_to_orders\<close> adds.
\<close>

record mapped_sale = sale +
  db_customer_id :: int
  db_product_id :: int
  subtotal :: "rat option"

record order =
  order_id :: int
  order_customer_id :: int
  order_date :: string
  total_amount :: rat
  order_status :: string

record order_item =
  item_order_id :: int
  item_product_id :: int
  item_quantity :: int
  item_unit_price :: "rat option"
  item_subtotal :: "rat option"

text \<open>\<^verbatim>\<open>*\<close> on numeric columns: a missing operand gives a missing result.\<close>

definition num_mul :: "float_ops \<Rightarrow> rat option \<Rightarrow> rat option \<Rightarrow> rat option" where
  "num_mul fl a b =
     (case a of None \<Rightarrow> None | Some x \<Rightarrow> (case b of None \<Rightarrow> None | Some y \<Rightarrow> Some (fmul fl x y)))"

text \<open>
  \<^verbatim>\<open>Series.sum()\<close> (\<^verbatim>\<open>skipna=True\<close>): pandas puts 0 into the missing cells and sums the
  column, so a missing value adds nothing.
\<close>

definition sum_skipna :: "float_ops \<Rightarrow> rat option list \<Rightarrow> rat" where
  "sum_skipna fl col = fsum fl (map (\<lambda>v. case v of None \<Rightarrow> 0 | Some x \<Rightarrow> x) col)"

text \<open>\<^verbatim>\<open>int(x)\<close> of a float: truncation towards zero, \<^verbatim>\<open>ValueError\<close> for \<^verbatim>\<open>NaN\<close>.\<close>

definition int_of_float :: "rat option \<Rightarrow> py_error + int" where
  "int_of_float x =
     (case x of None \<Rightarrow> Inl ValueError | Some q \<Rightarrow> Inr (if q \<ge> 0 then \<lfloor>q\<rfloor> else \<lceil>q\<rceil>))"

text \<open>
  The two filters, the two \<^verbatim>\<open>.map\<close> lookups and the subtotal, for one row: \<open>None\<close> when
  the row is filtered out (an id is missing or has no entry in its mapping).
\<close>

definition map_sale ::
  "float_ops \<Rightarrow> (string \<rightharpoonup> int) \<Rightarrow> (string \<rightharpoonup> int) \<Rightarrow> sale \<Rightarrow> mapped_sale option" where
  "map_sale fl customer_id_mapping product_id_mapping row =
     (case sale_customer_id row of
        None \<Rightarrow> None
      | Some c \<Rightarrow>
          (case sale_product_id row of
             None \<Rightarrow> None
           | Some p \<Rightarrow>
               (case customer_id_mapping c of
                  None \<Rightarrow> None
                | Some dc \<Rightarrow>
                    (case product_id_mapping p of
                       None \<Rightarrow> None
                     | Some dp \<Rightarrow>
                         Some (sale.extend row
                           (mapped_sale.fields dc dp (num_mul fl (quantity row) (unit_price row))))))))"

text \<open>
  \<^verbatim>\<open>Series.mode()\<close> (\<^verbatim>\<open>dropna=True\<close>): the most frequent of the values present, all of them
  when several are equally frequent, in ascending order.
\<close>

definition mode :: "string option list \<Rightarrow> string list" where
  "mode col =
     (let vals = List.map_filter (\<lambda>v. v) col;
          top = fold max (map (count_list vals) vals) 0
      in sort (remdups (filter (\<lambda>v. count_list vals v = top) vals)))"

text \<open>\<^verbatim>\<open>group['status'].mode()[0] if len(group['status'].mode()) > 0 else 'Completed'\<close>\<close>

definition group_status :: "string option list \<Rightarrow> string" where
  "group_status col = (case mode col of [] \<Rightarrow> ''Completed'' | m # _ \<Rightarrow> m)"

text \<open>
  \<^verbatim>\<open>groupby(['db_customer_id', 'transaction_date'])\<close>: a row with a missing date is in no
  group; the groups come in ascending order of their keys, each with its rows in frame
  order.
\<close>

definition group_key :: "mapped_sale \<Rightarrow> (int \<times> string) option" where
  "group_key row = map_option (Pair (db_customer_id row)) (transaction_date row)"

definition group_keys :: "mapped_sale list \<Rightarrow> (int \<times> string) list" where
  "group_keys df = sort (remdups (List.map_filter group_key df))"

definition group_rows :: "mapped_sale list \<Rightarrow> int \<times> string \<Rightarrow> mapped_sale list" where
  "group_rows df k = filter (\<lambda>row. group_key row = Some k) df"

text \<open>The inner loop: one order item per row of the group.\<close>

fun items_of_group :: "int \<Rightarrow> mapped_sale list \<Rightarrow> py_error + order_item list" where
  "items_of_group order_id_counter [] = Inr []"
| "items_of_group order_id_counter (item # rest) =
     (case int_of_float (quantity item) of
        Inl e \<Rightarrow> Inl e
      | Inr q \<Rightarrow>
          (case items_of_group order_id_counter rest of
             Inl e \<Rightarrow> Inl e
           | Inr its \<Rightarrow>
               Inr (\<lparr>item_order_id = order_id_counter,
                     item_product_id = db_product_id item,
                     item_quantity = q,
                     item_unit_price = unit_price item,
                     item_subtotal = subtotal item\<rparr> # its)))"

definition order_of_group :: "float_ops \<Rightarrow> int \<Rightarrow> int \<times> string \<Rightarrow> mapped_sale list \<Rightarrow> order" where
  "order_of_group fl order_id_counter k grp =
     \<lparr>order_id = order_id_counter,
      order_customer_id = fst k,
      order_date = snd k,
      total_amount = sum_skipna fl (map subtotal grp),
      order_status = group_status (map status grp)\<rparr>"

text \<open>The outer loop over the groups; an exception in a group leaves the function.\<close>

fun emit_groups ::
  "float_ops \<Rightarrow> int \<Rightarrow> (int \<times> string) list \<Rightarrow> mapped_sale list \<Rightarrow>
     py_error + (order list \<times> order_item list)"
  where
  "emit_groups fl order_id_counter [] df = Inr ([], [])"
| "emit_groups fl order_id_counter (k # ks) df =
     (case items_of_group order_id_counter (group_rows df k) of
        Inl e \<Rightarrow> Inl e
      | Inr its \<Rightarrow>
          (case emit_groups fl (order_id_counter + 1) ks df of
             Inl e \<Rightarrow> Inl e
           | Inr (orders_list, order_items_list) \<Rightarrow>
               Inr (order_of_group fl order_id_counter k (group_rows df k) # orders_list,
                    its @ order_items_list)))"

definition transform_sales_to_orders ::
  "float_ops \<Rightarrow> sale list \<Rightarrow> (string \<rightharpoonup> int) \<Rightarrow> (string \<rightharpoonup> int) \<Rightarrow>
     py_error + (order list \<times> order_item list)"
  where
  "transform_sales_to_orders fl sales_df customer_id_mapping product_id_mapping =
     (if sales_df = [] then Inr ([], [])
      else
        let df = List.map_filter (map_sale fl customer_id_mapping product_id_mapping) sales_df
        in emit_groups fl 1 (group_keys df) df)"

text \<open>
  The status rule in the specification's words, for comparison: the most frequent status
  of the group, the first encountered in group order when several are equally frequent.
\<close>

definition spec_first_encountered_mode :: "string list \<Rightarrow> string option" where
  "spec_first_encountered_mode col =
     (let top = fold max (map (count_list col) col) 0
      in case filter (\<lambda>v. count_list col v = top) col of [] \<Rightarrow> None | v # _ \<Rightarrow> Some v)"

text \<open>
  The total in the specification's words, for comparison: the sum of the subtotals of
  the order items, every one of them a term of the sum. A missing subtotal (\<^verbatim>\<open>NaN\<close>)
  makes such a sum missing.
\<close>

definition spec_sum_of_subtotals :: "float_ops \<Rightarrow> rat option list \<Rightarrow> rat option" where
  "spec_sum_of_subtotals fl col =
     (if None \<in> set col then None else Some (fsum fl (List.map_filter (\<lambda>v. v) col)))"

section \<open>Loader\<close>

subsection \<open>The relational store\<close>

text \<open>
  The store is MySQL behind \<^verbatim>\<open>mysql.connector\<close>, outside the repository. It is modelled
  as far as the loader drives it, from the schema of \<^verbatim>\<open>create_tables\<close>:
  \<^item> four tables, each the list of its rows with their \<^verbatim>\<open>AUTO_INCREMENT\<close> keys, in
    insertion order;
  \<^item> a transaction: \<open>work\<close> are the rows as the open transaction sees them, \<open>committed\<close>
    the rows of the last commit; \<^verbatim>\<open>commit()\<close> copies the first into the second,
    \<^verbatim>\<open>rollback()\<close> the second into the first;
  \<^item> the \<^verbatim>\<open>AUTO_INCREMENT\<close> counters, which neither \<^verbatim>\<open>DELETE\<close> nor a rollback resets;
  \<^item> the constraints of the schema that the loaded data can violate: \<^verbatim>\<open>UNIQUE\<close> on
    \<^verbatim>\<open>customers.email\<close>, the three foreign keys, and \<^verbatim>\<open>NOT NULL\<close> on
    \<^verbatim>\<open>order_items.unit_price\<close> and \<^verbatim>\<open>order_items.subtotal\<close> (the loader hands a missing
    amount to the store as \<^verbatim>\<open>float('nan')\<close>, which is no value of the column: the
    statement raises);
  \<^item> every other failure of a statement (connectivity, server limits) as \<open>faults\<close>: one
    flag per statement still to come, \<open>True\<close> when that statement raises
    \<^verbatim>\<open>mysql.connector.Error\<close>; a statement beyond the list succeeds. The connection
    stays usable after a failed statement: \<^verbatim>\<open>rollback()\<close> itself does not fail.
\<close>

datatype db_error = IntegrityError | OperationalError

record customer_row =
  cr_first_name :: string
  cr_last_name :: string
  cr_email :: string
  cr_phone :: "string option"
  cr_city :: "string option"
  cr_registration_date :: "string option"

record product_row =
  pr_product_name :: string
  pr_category :: string
  pr_price :: rat
  pr_stock_quantity :: int

record order_row =
  or_customer_id :: int
  or_order_date :: string
  or_total_amount :: rat
  or_status :: string

record order_item_row =
  oi_order_id :: int
  oi_product_id :: int
  oi_quantity :: int
  oi_unit_price :: "rat option"
  oi_subtotal :: "rat option"

record tables =
  customers :: "(int \<times> customer_row) list"
  products :: "(int \<times> product_row) list"
  orders :: "(int \<times> order_row) list"
  order_items :: "(int \<times> order_item_row) list"

record connection =
  is_connected :: bool
  work :: tables
  committed :: tables
  next_customer_id :: int
  next_product_id :: int
  next_order_id :: int
  next_order_item_id :: int
  faults :: "bool list"

text \<open>Whether the statement about to run fails for a reason outside the data.\<close>

definition next_fault :: "connection \<Rightarrow> bool \<times> connection" where
  "next_fault conn =
     (case faults conn of [] \<Rightarrow> (False, conn) | f # fs \<Rightarrow> (f, conn\<lparr>faults := fs\<rparr>))"

text \<open>\<^verbatim>\<open>INSERT INTO customers ...\<close>; the result is \<^verbatim>\<open>lastrowid\<close>.\<close>

definition insert_customer :: "connection \<Rightarrow> customer_row \<Rightarrow> (db_error + int) \<times> connection" where
  "insert_customer conn row =
     (case next_fault conn of
        (fails, conn') \<Rightarrow>
          if fails then (Inl OperationalError, conn')
          else if cr_email row \<in> set (map (\<lambda>(i, r). cr_email r) (customers (work conn')))
            then (Inl IntegrityError, conn')
          else
            let i = next_customer_id conn'
            in (Inr i, conn'\<lparr>work := (work conn')\<lparr>customers := customers (work conn') @ [(i, row)]\<rparr>,
                            next_customer_id := i + 1\<rparr>))"

definition insert_product :: "connection \<Rightarrow> product_row \<Rightarrow> (db_error + int) \<times> connection" where
  "insert_product conn row =
     (case next_fault conn of
        (fails, conn') \<Rightarrow>
          if fails then (Inl OperationalError, conn')
          else
            let i = next_product_id conn'
            in (Inr i, conn'\<lparr>work := (work conn')\<lparr>products := products (work conn') @ [(i, row)]\<rparr>,
                            next_product_id := i + 1\<rparr>))"

definition insert_order :: "connection \<Rightarrow> order_row \<Rightarrow> (db_error + int) \<times> connection" where
  "insert_order conn row =
     (case next_fault conn of
        (fails, conn') \<Rightarrow>
          if fails then (Inl OperationalError, conn')
          else if or_customer_id row \<notin> set (map fst (customers (work conn')))
            then (Inl IntegrityError, conn')
          else
            let i = next_order_id conn'
            in (Inr i, conn'\<lparr>work := (work conn')\<lparr>orders := orders (work conn') @ [(i, row)]\<rparr>,
                            next_order_id := i + 1\<rparr>))"

definition insert_order_item ::
  "connection \<Rightarrow> order_item_row \<Rightarrow> (db_error + int) \<times> connection" where
  "insert_order_item conn row =
     (case next_fault conn of
        (fails, conn') \<Rightarrow>
          if fails then (Inl OperationalError, conn')
          else if oi_unit_price row = None \<or> oi_subtotal row = None
            then (Inl IntegrityError, conn')
          else if oi_order_id row \<notin> set (map fst (orders (work conn')))
                  \<or> oi_product_id row \<notin> set (map fst (products (work conn')))
            then (Inl IntegrityError, conn')
          else
            let i = next_order_item_id conn'
            in (Inr i, conn'\<lparr>work := (work conn')\<lparr>order_items := order_items (work conn') @ [(i, row)]\<rparr>,
                            next_order_item_id := i + 1\<rparr>))"

text \<open>\<^verbatim>\<open>connection.commit()\<close> and \<^verbatim>\<open>connection.rollback()\<close>\<close>

definition commit :: "connection \<Rightarrow> (db_error + unit) \<times> connection" where
  "commit conn =
     (case next_fault conn of
        (fails, conn') \<Rightarrow>
          if fails then (Inl OperationalError, conn')
          else (Inr (), conn'\<lparr>committed := work conn'\<rparr>))"

definition rollback :: "connection \<Rightarrow> connection" where
  "rollback conn = conn\<lparr>work := committed conn\<rparr>"

text \<open>The four \<^verbatim>\<open>DELETE FROM\<close> statements; a table that rows of another still refer to cannot be emptied.\<close>

definition delete_order_items :: "connection \<Rightarrow> (db_error + unit) \<times> connection" where
  "delete_order_items conn =
     (case next_fault conn of
        (fails, conn') \<Rightarrow>
          if fails then (Inl OperationalError, conn')
          else (Inr (), conn'\<lparr>work := (work conn')\<lparr>order_items := []\<rparr>\<rparr>))"

definition delete_orders :: "connection \<Rightarrow> (db_error + unit) \<times> connection" where
  "delete_orders conn =
     (case next_fault conn of
        (fails, conn') \<Rightarrow>
          if fails then (Inl OperationalError, conn')
          else if order_items (work conn') \<noteq> [] \<and> orders (work conn') \<noteq> []
            then (Inl IntegrityError, conn')
          else (Inr (), conn'\<lparr>work := (work conn')\<lparr>orders := []\<rparr>\<rparr>))"

definition delete_customers :: "connection \<Rightarrow> (db_error + unit) \<times> connection" where
  "delete_customers conn =
     (case next_fault conn of
        (fails, conn') \<Rightarrow>
          if fails then (Inl OperationalError, conn')
          else if orders (work conn') \<noteq> [] \<and> customers (work conn') \<noteq> []
            then (Inl IntegrityError, conn')
          else (Inr (), conn'\<lparr>work := (work conn')\<lparr>customers := []\<rparr>\<rparr>))"

definition delete_products :: "connection \<Rightarrow> (db_error + unit) \<times> connection" where
  "delete_products conn =
     (case next_fault conn of
        (fails, conn') \<Rightarrow>
          if fails then (Inl OperationalError, conn')
          else if order_items (work conn') \<noteq> [] \<and> products (work conn') \<noteq> []
            then (Inl IntegrityError, conn')
          else (Inr (), conn'\<lparr>work := (work conn')\<lparr>products := []\<rparr>\<rparr>))"

text \<open>\<^verbatim>\<open>connection.close()\<close>: what is not committed is lost.\<close>

definition close :: "connection \<Rightarrow> connection" where
  "close conn = (rollback conn)\<lparr>is_connected := False\<rparr>"

subsection \<open>The load steps\<close>

text \<open>\<^verbatim>\<open>str(x)\<close> of a cell: the text of a missing value is \<^verbatim>\<open>nan\<close>.\<close>

definition py_str :: "string option \<Rightarrow> string" where
  "py_str v = (case v of None \<Rightarrow> ''nan'' | Some s \<Rightarrow> s)"

text \<open>
  The insert loop that \<^verbatim>\<open>load_customers\<close>, \<^verbatim>\<open>load_products\<close> and \<^verbatim>\<open>load_orders\<close> share:
  for each row, execute the insert with the row's tuple and enter \<^verbatim>\<open>lastrowid\<close> into the
  mapping under the row's key; the first statement that raises ends the loop.
\<close>

fun insert_rows ::
  "(connection \<Rightarrow> 'r \<Rightarrow> (db_error + int) \<times> connection) \<Rightarrow> ('a \<Rightarrow> 'r) \<Rightarrow> ('a \<Rightarrow> 'k) \<Rightarrow>
     connection \<Rightarrow> 'a list \<Rightarrow> ('k \<rightharpoonup> int) \<Rightarrow> (db_error + ('k \<rightharpoonup> int)) \<times> connection"
  where
  "insert_rows ins tuple_of key_of conn [] id_mapping = (Inr id_mapping, conn)"
| "insert_rows ins tuple_of key_of conn (row # rest) id_mapping =
     (case ins conn (tuple_of row) of
        (Inl e, conn') \<Rightarrow> (Inl e, conn')
      | (Inr lastrowid, conn') \<Rightarrow>
          insert_rows ins tuple_of key_of conn' rest (id_mapping(key_of row \<mapsto> lastrowid)))"

text \<open>The body of the \<^verbatim>\<open>try\<close> block of these three steps: the loop, then the commit.\<close>

definition try_insert_all ::
  "(connection \<Rightarrow> 'r \<Rightarrow> (db_error + int) \<times> connection) \<Rightarrow> ('a \<Rightarrow> 'r) \<Rightarrow> ('a \<Rightarrow> 'k) \<Rightarrow>
     connection \<Rightarrow> 'a list \<Rightarrow> (db_error + ('k \<rightharpoonup> int)) \<times> connection"
  where
  "try_insert_all ins tuple_of key_of conn df =
     (case insert_rows ins tuple_of key_of conn df Map.empty of
        (Inl e, conn') \<Rightarrow> (Inl e, conn')
      | (Inr id_mapping, conn') \<Rightarrow>
          (case commit conn' of
             (Inl e, conn'') \<Rightarrow> (Inl e, conn'')
           | (Inr u, conn'') \<Rightarrow> (Inr id_mapping, conn'')))"

definition customer_tuple :: "customer \<Rightarrow> customer_row" where
  "customer_tuple row =
     \<lparr>cr_first_name = py_str (first_name row),
      cr_last_name = py_str (last_name row),
      cr_email = py_str (email row),
      cr_phone = phone row,
      cr_city = city row,
      cr_registration_date = registration_date row\<rparr>"

definition customer_key :: "customer \<Rightarrow> string" where
  "customer_key row = py_str (customer_id row)"

definition try_load_customers ::
  "connection \<Rightarrow> customer list \<Rightarrow> (db_error + (string \<rightharpoonup> int)) \<times> connection" where
  "try_load_customers conn customers_df =
     try_insert_all insert_customer customer_tuple customer_key conn customers_df"

definition load_customers :: "connection \<Rightarrow> customer list \<Rightarrow> (string \<rightharpoonup> int) \<times> connection" where
  "load_customers conn customers_df =
     (if customers_df = [] then (Map.empty, conn)
      else if \<not> is_connected conn then (Map.empty, conn)
      else
        (case try_load_customers conn customers_df of
           (Inl e, conn') \<Rightarrow> (Map.empty, rollback conn')
         | (Inr customer_id_mapping, conn') \<Rightarrow> (customer_id_mapping, conn')))"

definition product_tuple :: "product \<Rightarrow> product_row" where
  "product_tuple row =
     \<lparr>pr_product_name = py_str (product_name row),
      pr_category = (case category row of None \<Rightarrow> ''Unknown'' | Some c \<Rightarrow> c),
      pr_price = (case price row of None \<Rightarrow> 0 | Some x \<Rightarrow> x),
      pr_stock_quantity = (case stock_quantity row of None \<Rightarrow> 0 | Some q \<Rightarrow> q)\<rparr>"

definition product_key :: "product \<Rightarrow> string" where
  "product_key row = py_str (product_id row)"

definition try_load_products ::
  "connection \<Rightarrow> product list \<Rightarrow> (db_error + (string \<rightharpoonup> int)) \<times> connection" where
  "try_load_products conn products_df =
     try_insert_all insert_product product_tuple product_key conn products_df"

definition load_products :: "connection \<Rightarrow> product list \<Rightarrow> (string \<rightharpoonup> int) \<times> connection" where
  "load_products conn products_df =
     (if products_df = [] then (Map.empty, conn)
      else if \<not> is_connected conn then (Map.empty, conn)
      else
        (case try_load_products conn products_df of
           (Inl e, conn') \<Rightarrow> (Map.empty, rollback conn')
         | (Inr product_id_mapping, conn') \<Rightarrow> (product_id_mapping, conn')))"

definition order_tuple :: "order \<Rightarrow> order_row" where
  "order_tuple row =
     \<lparr>or_customer_id = order_customer_id row,
      or_order_date = order_date row,
      or_total_amount = total_amount row,
      or_status = order_status row\<rparr>"

definition try_load_orders ::
  "connection \<Rightarrow> order list \<Rightarrow> (db_error + (int \<rightharpoonup> int)) \<times> connection" where
  "try_load_orders conn orders_df =
     try_insert_all insert_order order_tuple order_id conn orders_df"

text \<open>
  \<^verbatim>\<open>load_orders\<close> returns \<^verbatim>\<open>None\<close> (no mapping at all) from its two early exits, the
  mapping after a commit and the empty mapping after a rollback.
\<close>

definition load_orders :: "connection \<Rightarrow> order list \<Rightarrow> (int \<rightharpoonup> int) option \<times> connection" where
  "load_orders conn orders_df =
     (if orders_df = [] then (None, conn)
      else if \<not> is_connected conn then (None, conn)
      else
        (case try_load_orders conn orders_df of
           (Inl e, conn') \<Rightarrow> (Some Map.empty, rollback conn')
         | (Inr order_id_mapping, conn') \<Rightarrow> (Some order_id_mapping, conn')))"

text \<open>
  The loop of \<^verbatim>\<open>load_order_items\<close>: the row's \<^verbatim>\<open>order_id\<close> is looked up in
  \<^verbatim>\<open>order_id_mapping\<close>; a row without an entry is skipped with a warning.
\<close>

fun insert_order_items ::
  "connection \<Rightarrow> order_item list \<Rightarrow> (int \<rightharpoonup> int) \<Rightarrow> (db_error + unit) \<times> connection" where
  "insert_order_items conn [] order_id_mapping = (Inr (), conn)"
| "insert_order_items conn (row # rest) order_id_mapping =
     (case order_id_mapping (item_order_id row) of
        None \<Rightarrow> insert_order_items conn rest order_id_mapping
      | Some db_order_id \<Rightarrow>
          (case insert_order_item conn
                  \<lparr>oi_order_id = db_order_id,
                   oi_product_id = item_product_id row,
                   oi_quantity = item_quantity row,
                   oi_unit_price = item_unit_price row,
                   oi_subtotal = item_subtotal row\<rparr> of
             (Inl e, conn') \<Rightarrow> (Inl e, conn')
           | (Inr lastrowid, conn') \<Rightarrow> insert_order_items conn' rest order_id_mapping))"

definition try_load_order_items ::
  "connection \<Rightarrow> order_item list \<Rightarrow> (int \<rightharpoonup> int) \<Rightarrow> (db_error + unit) \<times> connection" where
  "try_load_order_items conn order_items_df order_id_mapping =
     (case insert_order_items conn order_items_df order_id_mapping of
        (Inl e, conn') \<Rightarrow> (Inl e, conn')
      | (Inr u, conn') \<Rightarrow> commit conn')"

definition load_order_items :: "connection \<Rightarrow> order_item list \<Rightarrow> (int \<rightharpoonup> int) \<Rightarrow> connection" where
  "load_order_items conn order_items_df order_id_mapping =
     (if order_items_df = [] then conn
      else if \<not> is_connected conn then conn
      else
        (case try_load_order_items conn order_items_df order_id_mapping of
           (Inl e, conn') \<Rightarrow> rollback conn'
         | (Inr u, conn') \<Rightarrow> conn'))"

subsection \<open>\<^verbatim>\<open>load\<close>\<close>

text \<open>The purge before the load: children first, one transaction.\<close>

definition try_clear :: "connection \<Rightarrow> (db_error + unit) \<times> connection" where
  "try_clear conn =
     (case delete_order_items conn of
        (Inl e, c1) \<Rightarrow> (Inl e, c1)
      | (Inr u, c1) \<Rightarrow>
          (case delete_orders c1 of
             (Inl e, c2) \<Rightarrow> (Inl e, c2)
           | (Inr u, c2) \<Rightarrow>
               (case delete_customers c2 of
                  (Inl e, c3) \<Rightarrow> (Inl e, c3)
                | (Inr u, c3) \<Rightarrow>
                    (case delete_products c3 of
                       (Inl e, c4) \<Rightarrow> (Inl e, c4)
                     | (Inr u, c4) \<Rightarrow> commit c4))))"

definition clear_existing_data :: "connection \<Rightarrow> connection" where
  "clear_existing_data conn =
     (case try_clear conn of (Inl e, conn') \<Rightarrow> rollback conn' | (Inr u, conn') \<Rightarrow> conn')"

text \<open>
  \<^verbatim>\<open>order_items_df['order_id'].map(order_id_mapping)\<close> followed by
  \<^verbatim>\<open>dropna(subset=['order_id'])\<close>.
\<close>

definition rewrite_order_ids :: "(int \<rightharpoonup> int) \<Rightarrow> order_item list \<Rightarrow> order_item list" where
  "rewrite_order_ids order_id_mapping order_items_df =
     List.map_filter
       (\<lambda>row. map_option (\<lambda>i. row\<lparr>item_order_id := i\<rparr>) (order_id_mapping (item_order_id row)))
       order_items_df"

text \<open>
  \<^verbatim>\<open>load\<close>, from the connection that \<^verbatim>\<open>connect_to_mysql\<close> and \<^verbatim>\<open>create_tables\<close> leave
  (\<open>is_connected\<close> is false when connecting failed). The first component of the result is the
  exception that leaves the method, if any. \<^verbatim>\<open>verify_data_loaded\<close> only reads.
\<close>

definition load ::
  "float_ops \<Rightarrow> connection \<Rightarrow> customer list \<Rightarrow> product list \<Rightarrow> sale list \<Rightarrow>
     py_error option \<times> connection"
  where
  "load fl conn customers_df products_df sales_df =
     (if \<not> is_connected conn then (None, conn)
      else
        let conn = clear_existing_data conn;
            (customer_id_mapping, conn) = load_customers conn customers_df;
            (product_id_mapping, conn) = load_products conn products_df
        in case transform_sales_to_orders fl sales_df customer_id_mapping product_id_mapping of
             Inl e \<Rightarrow> (Some e, conn)
           | Inr (orders_df, order_items_df) \<Rightarrow>
               let (order_id_mapping, conn) = load_orders conn orders_df
               in if length order_items_df > 0
                  then
                    (case order_id_mapping of
                       None \<Rightarrow> (Some TypeError, conn)
                     | Some m \<Rightarrow>
                         let order_items_df = rewrite_order_ids m order_items_df
                         in (None, close (load_order_items conn order_items_df m)))
                  else (None, close conn))"

section \<open>Example datasets\<close>

text \<open>
  The float operations without rounding. IEEE arithmetic returns the exact result
  whenever the exact result is a double; the prices and quantities of the datasets below
  are small integers and halves, so that every product, sum and mean taken of them is.
\<close>

definition exact_float_ops :: float_ops where
  "exact_float_ops = \<lparr>fmul = (*), fsum = sum_list, fmean = (\<lambda>a b. (a + b) / 2)\<rparr>"

text \<open>
  A products file with a duplicated \<^verbatim>\<open>product_id\<close>, missing prices and a missing stock.
  The first row has no price and no priced row shares its category; the fifth has no
  price and three priced rows share its category.
\<close>

definition example_products :: "product_raw list" where
  "example_products =
     [\<lparr>product_id = Some ''P0'', product_name = Some ''Hose'', category = Some ''Garden'',
        price = None, stock_quantity = Some 4\<rparr>,
      \<lparr>product_id = Some ''P1'', product_name = Some ''Phone'', category = Some ''Electronics'',
        price = Some 300, stock_quantity = Some 5\<rparr>,
      \<lparr>product_id = Some ''P2'', product_name = Some ''Cable'', category = Some ''Electronics'',
        price = Some 100, stock_quantity = None\<rparr>,
      \<lparr>product_id = Some ''P3'', product_name = Some ''Laptop'', category = Some ''Electronics'',
        price = Some 200, stock_quantity = Some 2\<rparr>,
      \<lparr>product_id = Some ''P4'', product_name = Some ''Tablet'', category = Some ''Electronics'',
        price = None, stock_quantity = Some 3\<rparr>,
      \<lparr>product_id = Some ''P5'', product_name = Some ''Robot'', category = Some ''Toys'',
        price = Some 1000, stock_quantity = Some 1\<rparr>,
      \<lparr>product_id = Some ''P1'', product_name = Some ''Phone again'', category = Some ''Toys'',
        price = Some 1, stock_quantity = Some 1\<rparr>]"

text \<open>
  A products file in which a row without a priced category (the fourth) comes after a
  row whose price is filled (the third).
\<close>

definition refilled_products :: "product_raw list" where
  "refilled_products =
     [\<lparr>product_id = Some ''P1'', product_name = Some ''Phone'', category = Some ''Electronics'',
        price = Some 100, stock_quantity = Some 5\<rparr>,
      \<lparr>product_id = Some ''P2'', product_name = Some ''Laptop'', category = Some ''Electronics'',
        price = Some 200, stock_quantity = Some 2\<rparr>,
      \<lparr>product_id = Some ''P3'', product_name = Some ''Tablet'', category = Some ''Electronics'',
        price = None, stock_quantity = Some 3\<rparr>,
      \<lparr>product_id = Some ''P4'', product_name = Some ''Hose'', category = Some ''Garden'',
        price = None, stock_quantity = Some 7\<rparr>,
      \<lparr>product_id = Some ''P5'', product_name = Some ''Robot'', category = Some ''Toys'',
        price = Some 1000, stock_quantity = Some 1\<rparr>]"

text \<open>The products of the specification's scenario C.\<close>

definition scenario_c_products :: "product_raw list" where
  "scenario_c_products =
     [\<lparr>product_id = Some ''P1'', product_name = Some ''Phone'', category = Some ''Electronics'',
        price = Some 100, stock_quantity = Some 5\<rparr>,
      \<lparr>product_id = Some ''P2'', product_name = Some ''Laptop'', category = Some ''Electronics'',
        price = Some 200, stock_quantity = Some 2\<rparr>,
      \<lparr>product_id = Some ''P3'', product_name = Some ''Tablet'', category = Some ''Electronics'',
        price = None, stock_quantity = Some 3\<rparr>]"

text \<open>A products file in which no row has a price.\<close>

definition unpriced_products :: "product_raw list" where
  "unpriced_products =
     [\<lparr>product_id = Some ''P1'', product_name = Some ''Phone'', category = Some ''Electronics'',
        price = None, stock_quantity = Some 5\<rparr>]"

text \<open>
  A products file with one category written in three ways, which differ in letter case
  and in surrounding whitespace.
\<close>

definition mixed_case_products :: "product_raw list" where
  "mixed_case_products =
     [\<lparr>product_id = Some ''Q1'', product_name = Some ''Phone'', category = Some ''Electronics'',
        price = Some 300, stock_quantity = Some 5\<rparr>,
      \<lparr>product_id = Some ''Q2'', product_name = Some ''Cable'', category = Some ''Electronics'',
        price = Some 100, stock_quantity = Some 2\<rparr>,
      \<lparr>product_id = Some ''Q3'', product_name = Some ''Laptop'', category = Some ''Electronics'',
        price = Some 200, stock_quantity = Some 9\<rparr>,
      \<lparr>product_id = Some ''Q4'', product_name = Some ''Plug'', category = Some '' electronics  '',
        price = Some 10, stock_quantity = Some 9\<rparr>,
      \<lparr>product_id = Some ''Q5'', product_name = Some ''Radio'', category = Some ''ELECTRONICS'',
        price = Some 50, stock_quantity = Some 1\<rparr>,
      \<lparr>product_id = Some ''Q6'', product_name = Some ''Tablet'', category = Some ''Electronics'',
        price = None, stock_quantity = Some 3\<rparr>,
      \<lparr>product_id = Some ''Q7'', product_name = Some ''Fuse'', category = Some '' electronics  '',
        price = None, stock_quantity = Some 7\<rparr>]"

text \<open>Id mappings as the parent load steps return them, and a cleansed sales frame.\<close>

definition example_customer_ids :: "string \<rightharpoonup> int" where
  "example_customer_ids = [''C1'' \<mapsto> 7, ''C2'' \<mapsto> 5]"

definition example_product_ids :: "string \<rightharpoonup> int" where
  "example_product_ids = [''P1'' \<mapsto> 1, ''P2'' \<mapsto> 2]"

definition example_sales :: "sale list" where
  "example_sales =
     [\<lparr>sale_id_col = 1, transaction_id = Some ''T1'', sale_customer_id = Some ''C2'',
        sale_product_id = Some ''P1'', quantity = Some 3, unit_price = Some 10,
        transaction_date = Some ''2024-01-15'', status = Some ''Shipped''\<rparr>,
      \<lparr>sale_id_col = 2, transaction_id = Some ''T2'', sale_customer_id = Some ''C2'',
        sale_product_id = Some ''P2'', quantity = Some (5 / 2), unit_price = Some 4,
        transaction_date = Some ''2024-01-15'', status = Some ''Pending''\<rparr>,
      \<lparr>sale_id_col = 3, transaction_id = Some ''T3'', sale_customer_id = Some ''C1'',
        sale_product_id = Some ''P2'', quantity = Some 1, unit_price = None,
        transaction_date = Some ''2024-01-10'', status = None\<rparr>,
      \<lparr>sale_id_col = 4, transaction_id = Some ''T4'', sale_customer_id = Some ''C1'',
        sale_product_id = Some ''P9'', quantity = Some 1, unit_price = Some 8,
        transaction_date = Some ''2024-01-10'', status = Some ''Pending''\<rparr>,
      \<lparr>sale_id_col = 5, transaction_id = Some ''T5'', sale_customer_id = Some ''C2'',
        sale_product_id = Some ''P1'', quantity = Some 1, unit_price = Some 10,
        transaction_date = Some ''2024-01-15'', status = Some ''Shipped''\<rparr>]"

text \<open>The orders and order items the aggregator makes of them.\<close>

definition example_orders :: "order list" where
  "example_orders =
     [\<lparr>order_id = 1, order_customer_id = 5, order_date = ''2024-01-15'', total_amount = 50,
        order_status = ''Shipped''\<rparr>,
      \<lparr>order_id = 2, order_customer_id = 7, order_date = ''2024-01-10'', total_amount = 0,
        order_status = ''Completed''\<rparr>]"

definition example_order_items :: "order_item list" where
  "example_order_items =
     [\<lparr>item_order_id = 1, item_product_id = 1, item_quantity = 3, item_unit_price = Some 10,
        item_subtotal = Some 30\<rparr>,
      \<lparr>item_order_id = 1, item_product_id = 2, item_quantity = 2, item_unit_price = Some 4,
        item_subtotal = Some 10\<rparr>,
      \<lparr>item_order_id = 1, item_product_id = 1, item_quantity = 1, item_unit_price = Some 10,
        item_subtotal = Some 10\<rparr>,
      \<lparr>item_order_id = 2, item_product_id = 2, item_quantity = 1, item_unit_price = None,
        item_subtotal = None\<rparr>]"

text \<open>The sales row of the specification's scenario B.\<close>

definition single_sale :: sale where
  "single_sale =
     \<lparr>sale_id_col = 1, transaction_id = Some ''T1'', sale_customer_id = Some ''C1'',
      sale_product_id = Some ''P1'', quantity = Some 3, unit_price = Some 10,
      transaction_date = Some ''2024-01-15'', status = Some ''Completed''\<rparr>"

text \<open>A sales row without a unit price, alone in its group.\<close>

definition unpriced_sale :: sale where
  "unpriced_sale =
     \<lparr>sale_id_col = 1, transaction_id = Some ''T1'', sale_customer_id = Some ''C1'',
      sale_product_id = Some ''P1'', quantity = Some 3, unit_price = None,
      transaction_date = Some ''2024-01-15'', status = Some ''Completed''\<rparr>"

text \<open>One group of two rows whose statuses are equally frequent.\<close>

definition tied_status_sales :: "sale list" where
  "tied_status_sales =
     [\<lparr>sale_id_col = 1, transaction_id = Some ''T1'', sale_customer_id = Some ''C1'',
        sale_product_id = Some ''P1'', quantity = Some 1, unit_price = Some 10,
        transaction_date = Some ''2024-01-15'', status = Some ''Pending''\<rparr>,
      \<lparr>sale_id_col = 2, transaction_id = Some ''T2'', sale_customer_id = Some ''C1'',
        sale_product_id = Some ''P2'', quantity = Some 1, unit_price = Some 20,
        transaction_date = Some ''2024-01-15'', status = Some ''Completed''\<rparr>]"

text \<open>A customers file with a row that has neither an email nor a first name.\<close>

definition customers_without_first_name :: "customer_raw list" where
  "customers_without_first_name =
     [\<lparr>customer_id = Some ''C1'', first_name = None, last_name = Some ''Rao'', email = None,
        phone = Some ''9876543210'', city = Some ''Pune'',
        registration_date = Some ''15/01/2024''\<rparr>,
      \<lparr>customer_id = Some ''C2'', first_name = Some ''Asha'', last_name = Some ''Rao'',
        email = None, phone = None, city = None, registration_date = None\<rparr>]"

text \<open>An empty store with its counters at 1, connected, in which no statement fails.\<close>

definition empty_tables :: tables where
  "empty_tables = \<lparr>customers = [], products = [], orders = [], order_items = []\<rparr>"

definition fresh_connection :: connection where
  "fresh_connection =
     \<lparr>is_connected = True, work = empty_tables, committed = empty_tables,
      next_customer_id = 1, next_product_id = 1, next_order_id = 1, next_order_item_id = 1,
      faults = []\<rparr>"

text \<open>
  Cleansed customers: two namesakes without email, who get the same synthesized email, and
  two customers with different emails.
\<close>

definition namesake_customers :: "customer list" where
  "namesake_customers =
     [\<lparr>customer_id = Some ''C1'', first_name = Some ''Asha'', last_name = Some ''Rao'',
        email = Some ''asha.rao@unknown.com'', phone = Some ''+91-9876543210'',
        city = Some ''Pune'', registration_date = Some ''2024-01-15'', id_col = 1\<rparr>,
      \<lparr>customer_id = Some ''C2'', first_name = Some ''Asha'', last_name = Some ''Rao'',
        email = Some ''asha.rao@unknown.com'', phone = None, city = Some ''Delhi'',
        registration_date = None, id_col = 2\<rparr>]"

definition loaded_customers :: "customer list" where
  "loaded_customers =
     [\<lparr>customer_id = Some ''C1'', first_name = Some ''Asha'', last_name = Some ''Rao'',
        email = Some ''asha.rao@unknown.com'', phone = Some ''+91-9876543210'',
        city = Some ''Pune'', registration_date = Some ''2024-01-15'', id_col = 1\<rparr>,
      \<lparr>customer_id = Some ''C2'', first_name = Some ''Ravi'', last_name = Some ''Shah'',
        email = Some ''ravi@example.com'', phone = None, city = None,
        registration_date = None, id_col = 2\<rparr>]"

text \<open>Cleansed products.\<close>

definition loaded_products :: "product list" where
  "loaded_products =
     [\<lparr>product_id = Some ''P1'', product_name = Some ''Phone'', category = Some ''Electronics'',
        price = Some 10, stock_quantity = Some 0, product_id_col = 1\<rparr>,
      \<lparr>product_id = Some ''P2'', product_name = Some ''Cable'', category = Some ''Electronics'',
        price = Some 20, stock_quantity = Some 4, product_id_col = 2\<rparr>]"

text \<open>Cleansed sales: one line on one day, and two lines of one customer on two days.\<close>

definition one_day_sales :: "sale list" where
  "one_day_sales =
     [\<lparr>sale_id_col = 1, transaction_id = Some ''T0'', sale_customer_id = Some ''C2'',
        sale_product_id = Some ''P2'', quantity = Some 1, unit_price = Some 20,
        transaction_date = Some ''2024-01-14'', status = Some ''Completed''\<rparr>]"

definition two_day_sales :: "sale list" where
  "two_day_sales =
     [\<lparr>sale_id_col = 1, transaction_id = Some ''T1'', sale_customer_id = Some ''C1'',
        sale_product_id = Some ''P1'', quantity = Some 1, unit_price = Some 10,
        transaction_date = Some ''2024-01-15'', status = Some ''Pending''\<rparr>,
      \<lparr>sale_id_col = 2, transaction_id = Some ''T2'', sale_customer_id = Some ''C1'',
        sale_product_id = Some ''P2'', quantity = Some 2, unit_price = Some 20,
        transaction_date = Some ''2024-01-16'', status = Some ''Completed''\<rparr>]"

text \<open>
  The store that a first run of \<^verbatim>\<open>load\<close> on an empty store leaves (one order, so the
  counter of \<^verbatim>\<open>orders\<close> stands at 2), connected to again.
\<close>

definition store_after_first_run :: connection where
  "store_after_first_run =
     (snd (load exact_float_ops fresh_connection loaded_customers loaded_products one_day_sales))
       \<lparr>is_connected := True\<rparr>"

text \<open>
  A connection whose ninth statement fails: after the purge (five statements) and the
  customers step (two inserts and the commit), the first insert of the products step.
\<close>

definition products_fault_connection :: connection where
  "products_fault_connection =
     fresh_connection\<lparr>faults := [False, False, False, False, False, False, False, False, True]\<rparr>"

section \<open>Properties\<close>

subsection \<open>C8: phone normalisation\<close>

lemma digits_only_of_Nil: "digits_only_of [] = []"
  by (simp add: digits_only_of_def)

text \<open>
  C8. \<^verbatim>\<open>standardize_phone\<close> is total (it never raises) and, with \<open>d\<close> the digits of its
  input: exactly 10 digits give \<^verbatim>\<open>+91-\<close> followed by \<open>d\<close>; 12 digits starting with \<^verbatim>\<open>91\<close>
  give \<^verbatim>\<open>+91-\<close> and the remaining 10; 11 digits starting with \<^verbatim>\<open>0\<close> give \<^verbatim>\<open>+91-\<close> and the
  remaining 10; any other input with at least 10 digits gives \<^verbatim>\<open>+91-\<close> and the last 10
  digits; fewer than 10 digits, the empty string and a missing value give the missing
  value.
\<close>

theorem standardize_phone_rules:
  "standardize_phone None = None
   \<and> standardize_phone (Some []) = None
   \<and> (length (digits_only_of s) = 10 \<longrightarrow>
        standardize_phone (Some s) = Some (''+91-'' @ digits_only_of s))
   \<and> (length (digits_only_of s) = 12 \<and> startswith (digits_only_of s) ''91'' \<longrightarrow>
        standardize_phone (Some s) = Some (''+91-'' @ drop 2 (digits_only_of s))
        \<and> length (drop 2 (digits_only_of s)) = 10)
   \<and> (length (digits_only_of s) = 11 \<and> startswith (digits_only_of s) ''0'' \<longrightarrow>
        standardize_phone (Some s) = Some (''+91-'' @ drop 1 (digits_only_of s))
        \<and> length (drop 1 (digits_only_of s)) = 10)
   \<and> (length (digits_only_of s) \<ge> 10 \<and> length (digits_only_of s) \<noteq> 10
        \<and> \<not> (length (digits_only_of s) = 12 \<and> startswith (digits_only_of s) ''91'')
        \<and> \<not> (length (digits_only_of s) = 11 \<and> startswith (digits_only_of s) ''0'') \<longrightarrow>
        standardize_phone (Some s) = Some (''+91-'' @ last_chars 10 (digits_only_of s))
        \<and> length (last_chars 10 (digits_only_of s)) = 10)
   \<and> (length (digits_only_of s) < 10 \<longrightarrow> standardize_phone (Some s) = None)"
  by (auto simp: standardize_phone_def Let_def last_chars_def digits_only_of_Nil)

text \<open>The four rules and the rejection, each at an input that meets its condition.\<close>

theorem standardize_phone_rules_witness:
  "standardize_phone (Some ''98765-43210'') = Some ''+91-9876543210''
   \<and> standardize_phone (Some ''+91 98765 43210'') = Some ''+91-9876543210''
   \<and> standardize_phone (Some ''098765 43210'') = Some ''+91-9876543210''
   \<and> standardize_phone (Some ''0091-9876543210'') = Some ''+91-9876543210''
   \<and> standardize_phone (Some ''12345'') = None"
  using standardize_phone_rules [of "''98765-43210''"]
    standardize_phone_rules [of "''+91 98765 43210''"]
    standardize_phone_rules [of "''098765 43210''"]
    standardize_phone_rules [of "''0091-9876543210''"]
    standardize_phone_rules [of "''12345''"]
  by (simp add: digits_only_of_def is_digit_def startswith_def last_chars_def)


subsection \<open>Helper lemmas: the price column\<close>

lemma product_extend_sel:
  "price (product_raw.extend r (product.fields i)) = price r"
  "category (product_raw.extend r (product.fields i)) = category r"
  "stock_quantity (product_raw.extend r (product.fields i)) = stock_quantity r"
  "product_id_col (product_raw.extend r (product.fields i)) = i"
  by (cases r; simp add: product_raw.defs product.defs)+

lemma median_None_iff: "median fl xs = None \<longleftrightarrow> xs = []"
  unfolding median_def Let_def by (cases "xs = []"; cases "odd (length (sort xs))") simp_all

lemma sorted_rank:
  fixes s :: "rat list"
  assumes "sorted s" "k < length s"
  shows "length (filter (\<lambda>x. x < s ! k) s) \<le> k"
    and "length (filter (\<lambda>x. s ! k < x) s) \<le> length s - Suc k"
proof -
  have s: "s = take k s @ drop k s" "s = take (Suc k) s @ drop (Suc k) s" by simp_all
  have "\<forall>x\<in>set (drop k s). \<not> x < s ! k"
  proof
    fix x assume "x \<in> set (drop k s)"
    then obtain j where "j < length (drop k s)" "drop k s ! j = x"
      by (auto simp: in_set_conv_nth)
    then have "x = s ! (k + j)" "k + j < length s" by auto
    with sorted_nth_mono [OF assms(1), of k "k + j"] show "\<not> x < s ! k" by simp
  qed
  then have "filter (\<lambda>x. x < s ! k) (drop k s) = []"
    by (simp add: filter_empty_conv)
  then have "filter (\<lambda>x. x < s ! k) s = filter (\<lambda>x. x < s ! k) (take k s)"
    by (subst s(1)) (simp only: filter_append append_Nil2)
  then have "length (filter (\<lambda>x. x < s ! k) s) \<le> length (take k s)"
    by (simp only: length_filter_le)
  then show "length (filter (\<lambda>x. x < s ! k) s) \<le> k" by simp
  have "\<forall>x\<in>set (take (Suc k) s). \<not> s ! k < x"
  proof
    fix x assume "x \<in> set (take (Suc k) s)"
    then obtain j where "j < length (take (Suc k) s)" "take (Suc k) s ! j = x"
      by (auto simp: in_set_conv_nth)
    then have "x = s ! j" "j \<le> k" by auto
    with sorted_nth_mono [OF assms(1), of j k] assms(2) show "\<not> s ! k < x" by simp
  qed
  then have "filter (\<lambda>x. s ! k < x) (take (Suc k) s) = []"
    by (simp add: filter_empty_conv)
  then have "filter (\<lambda>x. s ! k < x) s = filter (\<lambda>x. s ! k < x) (drop (Suc k) s)"
    by (subst s(2)) (simp only: filter_append append_Nil)
  then have "length (filter (\<lambda>x. s ! k < x) s) \<le> length (drop (Suc k) s)"
    by (simp only: length_filter_le)
  then show "length (filter (\<lambda>x. s ! k < x) s) \<le> length s - Suc k" by simp
qed

lemma length_filter_sort:
  "length (filter P (sort xs)) = length (filter P xs)"
  by (simp add: filter_sort)

text \<open>
  The median is the middle value by rank: of an odd number of values, the value that has
  at most half of the others below it and at most half above it; of an even number, the
  mean of the two values of the two middle ranks.
\<close>

lemma median_is_middle:
  fixes xs :: "rat list"
  assumes "xs \<noteq> []"
  shows "odd (length xs) \<Longrightarrow>
      \<exists>m\<in>set xs. median fl xs = Some m
        \<and> length (filter (\<lambda>x. x < m) xs) \<le> length xs div 2
        \<and> length (filter (\<lambda>x. m < x) xs) \<le> length xs div 2"
    and "even (length xs) \<Longrightarrow>
      \<exists>a\<in>set xs. \<exists>b\<in>set xs. median fl xs = Some (fmean fl a b) \<and> a \<le> b
        \<and> length (filter (\<lambda>x. x < a) xs) < length xs div 2
        \<and> length (filter (\<lambda>x. a < x) xs) \<le> length xs div 2
        \<and> length (filter (\<lambda>x. x < b) xs) \<le> length xs div 2
        \<and> length (filter (\<lambda>x. b < x) xs) < length xs div 2"
proof -
  define s where "s = sort xs"
  define n where "n = length xs"
  have s: "sorted s" "length s = n" "set s = set xs"
    by (simp_all add: s_def n_def)
  have f: "length (filter P xs) = length (filter P s)" for P
    by (simp add: s_def length_filter_sort)
  from assms have n: "0 < n" by (simp add: n_def)
  {
    assume o: "odd (length xs)"
    then obtain h where h: "n = 2 * h + 1"
      unfolding n_def by (auto elim: oddE)
    have k: "n div 2 < n" "n - Suc (n div 2) = n div 2"
      unfolding h by simp_all
    have m: "median fl xs = Some (s ! (n div 2))"
      using assms o by (simp add: median_def Let_def s_def n_def)
    have "s ! (n div 2) \<in> set xs"
      using k(1) s(2,3) by (metis nth_mem)
    moreover note sorted_rank [OF s(1), of "n div 2"] k s(2) m
    ultimately show "\<exists>m\<in>set xs. median fl xs = Some m
        \<and> length (filter (\<lambda>x. x < m) xs) \<le> length xs div 2
        \<and> length (filter (\<lambda>x. m < x) xs) \<le> length xs div 2"
      unfolding f n_def [symmetric] by (intro bexI [of _ "s ! (n div 2)"]) simp_all
  }
  {
    assume e: "even (length xs)"
    then obtain h where h: "n = 2 * h"
      unfolding n_def by (auto elim: evenE)
    with n have "0 < h" by simp
    then have k: "n div 2 < n" "n div 2 - 1 < n" "0 < n div 2"
        "n - Suc (n div 2) < n div 2" "n - Suc (n div 2 - 1) = n div 2"
      unfolding h by simp_all
    have m: "median fl xs = Some (fmean fl (s ! (n div 2 - 1)) (s ! (n div 2)))"
      using assms e by (simp add: median_def Let_def s_def n_def)
    have a: "s ! (n div 2 - 1) \<in> set xs" and b: "s ! (n div 2) \<in> set xs"
      using k(1,2) s(2,3) by (metis nth_mem)+
    have le: "s ! (n div 2 - 1) \<le> s ! (n div 2)"
      using sorted_nth_mono [OF s(1), of "n div 2 - 1" "n div 2"] k(1) s(2) by simp
    note ra = sorted_rank [OF s(1), of "n div 2 - 1", unfolded s(2), OF k(2)]
    note rb = sorted_rank [OF s(1), of "n div 2", unfolded s(2), OF k(1)]
    from ra(1) k(3) have ra1: "length (filter (\<lambda>x. x < s ! (n div 2 - 1)) s) < n div 2"
      by linarith
    from ra(2) k(5) have ra2: "length (filter (\<lambda>x. s ! (n div 2 - 1) < x) s) \<le> n div 2"
      by simp
    from rb(2) k(4) have rb2: "length (filter (\<lambda>x. s ! (n div 2) < x) s) < n div 2"
      by linarith
    show "\<exists>a\<in>set xs. \<exists>b\<in>set xs. median fl xs = Some (fmean fl a b) \<and> a \<le> b
        \<and> length (filter (\<lambda>x. x < a) xs) < length xs div 2
        \<and> length (filter (\<lambda>x. a < x) xs) \<le> length xs div 2
        \<and> length (filter (\<lambda>x. x < b) xs) \<le> length xs div 2
        \<and> length (filter (\<lambda>x. b < x) xs) < length xs div 2"
      unfolding f n_def [symmetric]
      using m le ra1 ra2 rb(1) rb2
      by (intro bexI [of _ "s ! (n div 2 - 1)"] bexI [of _ "s ! (n div 2)"] a b) simp
  }
qed

lemma prices_of_append: "prices_of (xs @ ys) = prices_of xs @ prices_of ys"
  by (simp add: prices_of_def List.map_filter_def)

lemma prices_of_cong:
  "map price xs = map price ys \<Longrightarrow> prices_of xs = prices_of ys"
proof (induction xs arbitrary: ys)
  case Nil
  then show ?case by (simp add: prices_of_def List.map_filter_def)
next
  case (Cons x xs)
  then obtain y ys' where ys: "ys = y # ys'" "price x = price y" "map price xs = map price ys'"
    by (cases ys) auto
  from Cons.IH [OF ys(3)] ys(2) show ?case
    unfolding ys(1) by (simp add: prices_of_def List.map_filter_def)
qed

lemma prices_of_nonempty_iff:
  "prices_of df \<noteq> [] \<longleftrightarrow> (\<exists>r\<in>set df. price r \<noteq> None)"
  by (auto simp: prices_of_def List.map_filter_def filter_empty_conv)

lemma fill_prices_length:
  "length (fill_prices fl idx med filled rest) = length filled + length rest"
  by (induction rest arbitrary: filled) auto

lemma fill_prices_prefix:
  "take (length filled) (fill_prices fl idx med filled rest) = filled"
proof (induction rest arbitrary: filled)
  case Nil
  then show ?case by simp
next
  case (Cons row rest)
  have *: "take (length filled) (fill_prices fl idx med (filled @ [x]) rest) = filled" for x
  proof -
    have "take (length filled) (take (length (filled @ [x])) (fill_prices fl idx med (filled @ [x]) rest))
            = take (length filled) (filled @ [x])"
      by (simp only: Cons.IH)
    then show ?thesis by simp
  qed
  show ?case by (simp add: *)
qed

lemma fill_prices_step:
  "fill_prices fl idx med filled (row # rest) =
     fill_prices fl idx med
       (filled @ [if price row = None
                  then row\<lparr>price := fill_price fl idx med (filled @ row # rest) (category row)\<rparr>
                  else row]) rest"
  by simp

text \<open>
  Row \<open>j\<close> of the loop's result: untouched when it has a price, otherwise filled from the
  frame made of the result's rows above it and the original rows from \<open>j\<close> on.
\<close>

lemma fill_prices_nth:
  "j < length rest \<Longrightarrow>
     fill_prices fl idx med filled rest ! (length filled + j) =
       (if price (rest ! j) = None
        then (rest ! j)\<lparr>price := fill_price fl idx med
               (take (length filled + j) (fill_prices fl idx med filled rest) @ drop j rest)
               (category (rest ! j))\<rparr>
        else rest ! j)"
proof (induction rest arbitrary: filled j)
  case Nil
  then show ?case by simp
next
  case (Cons row rest)
  define row' where "row' = (if price row = None
      then row\<lparr>price := fill_price fl idx med (filled @ row # rest) (category row)\<rparr> else row)"
  define FF where "FF = fill_prices fl idx med filled (row # rest)"
  have F: "FF = fill_prices fl idx med (filled @ [row']) rest"
    unfolding FF_def row'_def by (rule fill_prices_step)
  show ?case
  proof (cases j)
    case 0
    have "take (length (filled @ [row'])) FF = filled @ [row']"
      unfolding F by (rule fill_prices_prefix)
    then have A: "FF ! length filled = row'"
      by (metis length_append_singleton lessI nth_append_length nth_take)
    have B: "take (length filled) FF = filled"
      unfolding FF_def by (rule fill_prices_prefix)
    show ?thesis
      unfolding 0 FF_def [symmetric] using A B by (simp add: row'_def)
  next
    case (Suc k)
    from Cons.prems Suc have k: "k < length rest" by simp
    from Cons.IH [OF k, of "filled @ [row']"] show ?thesis
      unfolding Suc FF_def [symmetric] F by simp
  qed
qed

lemma fill_missing_prices_length: "length (fill_missing_prices fl df) = length df"
  by (simp add: fill_missing_prices_def Let_def fill_prices_length)

lemma fill_missing_prices_nth:
  assumes "i < length df"
  shows "fill_missing_prices fl df ! i =
       (if price (df ! i) = None
        then (df ! i)\<lparr>price := fill_price fl (category_index df) (category_medians fl df)
               (take i (fill_missing_prices fl df) @ drop i df) (category (df ! i))\<rparr>
        else df ! i)"
proof (cases "length (filter (\<lambda>row. price row = None) df) > 0")
  case True
  then have F: "fill_missing_prices fl df = fill_prices fl (category_index df) (category_medians fl df) [] df"
    by (simp add: fill_missing_prices_def Let_def)
  show ?thesis
    unfolding F using fill_prices_nth [OF assms, of fl "category_index df" "category_medians fl df" "[]"]
    by simp
next
  case False
  then have "\<forall>r\<in>set df. price r \<noteq> None"
    by (simp add: filter_empty_conv)
  with assms have "price (df ! i) \<noteq> None" by simp
  moreover from False have "fill_missing_prices fl df = df"
    by (simp add: fill_missing_prices_def Let_def)
  ultimately show ?thesis by auto
qed

lemma fill_missing_stock_nth:
  "i < length df \<Longrightarrow> fill_missing_stock df ! i =
     (df ! i)\<lparr>stock_quantity := Some (case stock_quantity (df ! i) of None \<Rightarrow> 0 | Some q \<Rightarrow> q)\<rparr>"
proof (cases "length (filter (\<lambda>row. stock_quantity row = None) df) > 0")
  case True
  assume "i < length df"
  with True show ?thesis
    by (auto simp: fill_missing_stock_def Let_def split: option.splits)
next
  case False
  assume i: "i < length df"
  from False have "\<forall>r\<in>set df. stock_quantity r \<noteq> None"
    by (simp add: filter_empty_conv)
  with i have "stock_quantity (df ! i) \<noteq> None" by simp
  moreover from False have "fill_missing_stock df = df"
    by (simp add: fill_missing_stock_def Let_def)
  ultimately show ?thesis by auto
qed

lemma length_fill_missing_stock: "length (fill_missing_stock df) = length df"
  by (simp add: fill_missing_stock_def Let_def)

lemma length_transform_products:
  "length (transform_products fl products_df) = length (drop_duplicates product_id products_df)"
  by (simp add: transform_products_def Let_def surrogate_keys_def length_fill_missing_stock
      fill_missing_prices_length)

lemma transform_products_nth:
  assumes "i < length (drop_duplicates product_id products_df)"
  shows "transform_products fl products_df ! i =
     product_raw.extend
       ((fill_missing_prices fl (drop_duplicates product_id products_df) ! i)
          \<lparr>stock_quantity := Some (case stock_quantity
               (fill_missing_prices fl (drop_duplicates product_id products_df) ! i) of
                 None \<Rightarrow> 0 | Some q \<Rightarrow> q),
           category := standardize_category
             (category (fill_missing_prices fl (drop_duplicates product_id products_df) ! i))\<rparr>)
       (product.fields (int i + 1))"
  using assms
  by (simp add: transform_products_def Let_def surrogate_keys_def length_fill_missing_stock
      fill_missing_prices_length fill_missing_stock_nth)

lemma transform_products_cols:
  assumes "i < length (drop_duplicates product_id products_df)"
  shows "price (transform_products fl products_df ! i) =
           price (fill_missing_prices fl (drop_duplicates product_id products_df) ! i)"
    and "category (transform_products fl products_df ! i) =
           standardize_category (category (drop_duplicates product_id products_df ! i))"
    and "stock_quantity (transform_products fl products_df ! i) =
           Some (case stock_quantity (drop_duplicates product_id products_df ! i) of
                   None \<Rightarrow> 0 | Some q \<Rightarrow> q)"
  using assms
  by (simp_all add: transform_products_nth product_extend_sel fill_missing_prices_nth)

lemma prices_of_take_transform:
  assumes "i \<le> length (drop_duplicates product_id products_df)"
  shows "prices_of (take i (transform_products fl products_df)) =
         prices_of (take i (fill_missing_prices fl (drop_duplicates product_id products_df)))"
proof (rule prices_of_cong, rule nth_equalityI)
  show "length (map price (take i (transform_products fl products_df))) =
        length (map price (take i (fill_missing_prices fl (drop_duplicates product_id products_df))))"
    by (simp add: length_transform_products fill_missing_prices_length)
next
  fix k assume "k < length (map price (take i (transform_products fl products_df)))"
  then have k: "k < i" "k < length (drop_duplicates product_id products_df)"
    using assms by (simp_all add: length_transform_products)
  then show "map price (take i (transform_products fl products_df)) ! k =
        map price (take i (fill_missing_prices fl (drop_duplicates product_id products_df))) ! k"
    by (simp add: length_transform_products fill_missing_prices_length transform_products_cols(1))
qed

lemma in_category_index: "c \<in> set (category_index df) \<longleftrightarrow> (\<exists>r\<in>set df. category r = Some c)"
  by (force simp: category_index_def List.map_filter_def image_iff)

lemma transform_products_filled_price:
  assumes df: "df = drop_duplicates product_id products_df"
    and i: "i < length df" and miss: "price (df ! i) = None"
  shows "price (transform_products fl products_df ! i) =
     (case category (df ! i) of
        Some c \<Rightarrow>
          if prices_of (filter (\<lambda>r. category r = Some c) df) \<noteq> []
          then median fl (prices_of (filter (\<lambda>r. category r = Some c) df))
          else median fl (prices_of (take i (transform_products fl products_df)) @ prices_of (drop i df))
      | None \<Rightarrow> median fl (prices_of (take i (transform_products fl products_df)) @ prices_of (drop i df)))"
proof -
  have P: "price (transform_products fl products_df ! i) =
      fill_price fl (category_index df) (category_medians fl df)
        (take i (fill_missing_prices fl df) @ drop i df) (category (df ! i))"
    using i miss unfolding df by (simp add: transform_products_cols(1) fill_missing_prices_nth)
  have T: "prices_of (take i (fill_missing_prices fl df) @ drop i df) =
      prices_of (take i (transform_products fl products_df)) @ prices_of (drop i df)"
    using i unfolding df by (simp add: prices_of_append prices_of_take_transform)
  show ?thesis
  proof (cases "category (df ! i)")
    case None
    then show ?thesis unfolding P by (simp add: fill_price_def T)
  next
    case (Some c)
    have "df ! i \<in> set df" using i by simp
    with Some have idx: "c \<in> set (category_index df)"
      by (auto simp: in_category_index)
    show ?thesis unfolding P Some
      by (simp add: fill_price_def idx T category_medians_def median_None_iff)
  qed
qed

subsection \<open>Helper lemmas: letter case and surrounding whitespace\<close>

lemma to_lower_props:
  "is_space (to_lower c) = is_space c"
  "is_cased (to_lower c) = is_cased c"
  "to_lower (to_lower c) = to_lower c"
  "to_title (to_lower c) = to_title c"
  by (auto simp: to_lower_def is_space_def is_cased_def is_upper_def is_lower_def to_title_def Let_def)

lemma title_from_lower: "title_from p (map to_lower s) = title_from p s"
  by (induction s arbitrary: p) (simp_all add: to_lower_props)

lemma strip_lower: "strip (map to_lower s) = map to_lower (strip s)"
proof -
  have "is_space \<circ> to_lower = is_space"
    by (rule ext) (simp add: to_lower_props)
  then show ?thesis
    by (simp add: strip_def dropWhile_map rev_map)
qed

lemma title_strip_lower: "lower s = lower s' \<Longrightarrow> title (strip s) = title (strip s')"
proof -
  assume e: "lower s = lower s'"
  have "title (strip t) = title (strip (lower t))" for t
    by (simp add: title_def lower_def strip_lower title_from_lower)
  then show ?thesis using e by metis
qed

lemma strip_outer_space:
  assumes "list_all is_space l" "list_all is_space r"
  shows "strip (l @ s @ r) = strip s"
proof -
  have l: "dropWhile is_space (l @ s @ r) = dropWhile is_space (s @ r)"
    using assms(1) by (simp add: dropWhile_append2 list_all_iff)
  have r: "dropWhile is_space (rev r @ t) = dropWhile is_space t" for t
    using assms(2) by (intro dropWhile_append2) (simp add: list_all_iff)
  show ?thesis
  proof (cases "list_all is_space s")
    case True
    then have e: "dropWhile is_space (s @ r) = []" "dropWhile is_space s = []"
      using assms(2) by (auto simp: list_all_iff)
    show ?thesis unfolding strip_def l e ..
  next
    case False
    then have "dropWhile is_space (s @ r) = dropWhile is_space s @ r"
      by (auto simp: list_all_iff dropWhile_append1)
    then show ?thesis by (simp add: strip_def l r)
  qed
qed

lemma standardize_category_merges:
  assumes "c \<noteq> []" "c' \<noteq> []" "differ_only_in_case_or_outer_space c c'"
  shows "standardize_category (Some c) = standardize_category (Some c')"
proof -
  from assms(3) obtain l core r l' core' r' where
    c: "c = l @ core @ r" and c': "c' = l' @ core' @ r'"
    and sp: "list_all is_space l" "list_all is_space r" "list_all is_space l'" "list_all is_space r'"
    and lo: "lower core = lower core'"
    unfolding differ_only_in_case_or_outer_space_def by auto
  have "strip c = strip core" "strip c' = strip core'"
    unfolding c c' by (simp_all add: strip_outer_space sp)
  with title_strip_lower [OF lo] assms(1,2) show ?thesis
    by (simp add: standardize_category_def)
qed

text \<open>
  Accented letters, written by code point: the title case of \<^verbatim>\<open>e\<close> with acute (U+00E9)
  followed by \<^verbatim>\<open>cran\<close>, in lower or in upper case, starts with U+00C9 and goes on in
  lower case; a sharp s (U+00DF) inside a word stays, alone it becomes \<^verbatim>\<open>Ss\<close>.
\<close>

lemma title_accented_examples:
  "title [CHR 0xE9, CHR ''c'', CHR ''r'', CHR ''a'', CHR ''n'']
     = [CHR 0xC9, CHR ''c'', CHR ''r'', CHR ''a'', CHR ''n'']"
  "title [CHR 0xC9, CHR ''C'', CHR ''R'', CHR ''A'', CHR ''N'']
     = [CHR 0xC9, CHR ''c'', CHR ''r'', CHR ''a'', CHR ''n'']"
  "title [CHR ''s'', CHR ''t'', CHR ''r'', CHR ''a'', CHR 0xDF, CHR ''e'']
     = [CHR ''S'', CHR ''t'', CHR ''r'', CHR ''a'', CHR 0xDF, CHR ''e'']"
  "title [CHR 0xDF] = ''Ss''"
  by code_simp+

subsection \<open>C4: prices and stock after product cleansing\<close>

text \<open>
  C4 (as stated, it fails). With no priced record in the file there is no median, of a
  category or overall, and the price stays missing.
\<close>

theorem transform_products_price_null_counterexample:
  "price (transform_products exact_float_ops unpriced_products ! 0) = None"
  by code_simp

lemma prices_of_take_kept:
  assumes df: "df = drop_duplicates product_id products_df"
    and i: "i \<le> length df" and kept: "\<forall>k<i. price (df ! k) \<noteq> None"
  shows "prices_of (take i (transform_products fl products_df)) = prices_of (take i df)"
proof (rule prices_of_cong, rule nth_equalityI)
  show "length (map price (take i (transform_products fl products_df))) =
        length (map price (take i df))"
    using i by (simp add: length_transform_products df)
next
  fix k assume "k < length (map price (take i (transform_products fl products_df)))"
  then have k: "k < i" "k < length df"
    using i by (simp_all add: length_transform_products df)
  with kept have "price (df ! k) \<noteq> None" by simp
  with k show "map price (take i (transform_products fl products_df)) ! k =
        map price (take i df) ! k"
    unfolding df
    by (auto simp: length_transform_products transform_products_cols(1) fill_missing_prices_nth)
qed

text \<open>
  C4, amended: every cleansed product has a stock, and a price provided at least one
  de-duplicated row has a price. For every raw products file and every row \<open>i\<close> of the
  de-duplicated file:
  \<^item> the cleansed file has the rows of the de-duplicated file;
  \<^item> the cleansed stock is present, 0 where it was missing;
  \<^item> a present price is kept;
  \<^item> a missing price is filled with the median price of the de-duplicated rows sharing
    the row's category, when that category has a priced row;
  \<^item> when the category has no priced row (or the row has no category) and no row above
    \<open>i\<close> had a missing price, it is filled with the global median, the median of all
    prices of the de-duplicated file;
  \<^item> the cleansed price is present whenever at least one de-duplicated row has a price.

  The median is the middle value by rank (lemma \<open>median_is_middle\<close>).
\<close>

theorem transform_products_price_and_stock:
  "i < length (drop_duplicates product_id products_df) \<Longrightarrow>
   (let df = drop_duplicates product_id products_df; out = transform_products fl products_df in
      length out = length df
    \<and> stock_quantity (out ! i) = Some (case stock_quantity (df ! i) of None \<Rightarrow> 0 | Some q \<Rightarrow> q)
    \<and> (price (df ! i) \<noteq> None \<longrightarrow> price (out ! i) = price (df ! i))
    \<and> (\<forall>c. price (df ! i) = None \<and> category (df ! i) = Some c
            \<and> prices_of (filter (\<lambda>r. category r = Some c) df) \<noteq> [] \<longrightarrow>
          price (out ! i) = median fl (prices_of (filter (\<lambda>r. category r = Some c) df)))
    \<and> (price (df ! i) = None
          \<and> (\<forall>c. category (df ! i) = Some c \<longrightarrow>
                prices_of (filter (\<lambda>r. category r = Some c) df) = [])
          \<and> (\<forall>k<i. price (df ! k) \<noteq> None) \<longrightarrow>
          price (out ! i) = median fl (prices_of df))
    \<and> (prices_of df \<noteq> [] \<longrightarrow> price (out ! i) \<noteq> None))"
proof -
  define df where "df = drop_duplicates product_id products_df"
  define out where "out = transform_products fl products_df"
  assume "i < length (drop_duplicates product_id products_df)"
  then have i: "i < length df" by (simp add: df_def)
  have len: "length out = length df"
    unfolding out_def df_def by (rule length_transform_products)
  have stock: "stock_quantity (out ! i) =
      Some (case stock_quantity (df ! i) of None \<Rightarrow> 0 | Some q \<Rightarrow> q)"
    using i unfolding out_def df_def by (simp add: transform_products_cols(3))
  have kept: "price (out ! k) = price (df ! k)" if "k < length df" "price (df ! k) \<noteq> None" for k
    using that unfolding out_def df_def
    by (auto simp: transform_products_cols(1) fill_missing_prices_nth)
  have filled: "price (out ! i) =
         (case category (df ! i) of
            Some c \<Rightarrow>
              if prices_of (filter (\<lambda>r. category r = Some c) df) \<noteq> []
              then median fl (prices_of (filter (\<lambda>r. category r = Some c) df))
              else median fl (prices_of (take i out) @ prices_of (drop i df))
          | None \<Rightarrow> median fl (prices_of (take i out) @ prices_of (drop i df)))"
    if "price (df ! i) = None"
    unfolding out_def by (rule transform_products_filled_price [OF df_def i that])
  have by_category: "price (out ! i) = median fl (prices_of (filter (\<lambda>r. category r = Some c) df))"
    if "price (df ! i) = None" "category (df ! i) = Some c"
      "prices_of (filter (\<lambda>r. category r = Some c) df) \<noteq> []" for c
    using filled [OF that(1)] that(2,3) by simp
  have fallback: "price (out ! i) = median fl (prices_of df)"
    if miss: "price (df ! i) = None"
      and none: "\<forall>c. category (df ! i) = Some c \<longrightarrow>
                prices_of (filter (\<lambda>r. category r = Some c) df) = []"
      and above: "\<forall>k<i. price (df ! k) \<noteq> None"
  proof -
    have "prices_of (take i out) = prices_of (take i df)"
      unfolding out_def using i above by (intro prices_of_take_kept [OF df_def]) simp_all
    then have "prices_of (take i out) @ prices_of (drop i df) = prices_of df"
      by (simp add: prices_of_append [symmetric])
    with filled [OF miss] none show ?thesis
      by (simp split: option.splits)
  qed
  have present: "price (out ! i) \<noteq> None" if ne: "prices_of df \<noteq> []"
  proof (cases "price (df ! i)")
    case (Some x)
    with kept [OF i] show ?thesis by simp
  next
    case None
    from ne obtain r where "r \<in> set df" "price r \<noteq> None"
      by (auto simp: prices_of_nonempty_iff)
    then obtain k where k: "k < length df" "price (df ! k) \<noteq> None"
      by (auto simp: in_set_conv_nth)
    have frame: "prices_of (take i out) @ prices_of (drop i df) \<noteq> []"
    proof (cases "k < i")
      case True
      then have "out ! k \<in> set (take i out)"
        using i len by (auto simp: in_set_conv_nth intro!: exI [of _ k])
      moreover have "price (out ! k) \<noteq> None" using kept [OF k] k(2) by simp
      ultimately have "prices_of (take i out) \<noteq> []"
        by (auto simp: prices_of_nonempty_iff)
      then show ?thesis by simp
    next
      case False
      then have "df ! k \<in> set (drop i df)"
        using k(1) by (auto simp: in_set_conv_nth intro!: exI [of _ "k - i"])
      with k(2) have "prices_of (drop i df) \<noteq> []"
        by (auto simp: prices_of_nonempty_iff)
      then show ?thesis by simp
    qed
    show ?thesis
      unfolding filled [OF None] using frame
      by (simp add: median_None_iff split: option.splits del: not_None_eq)
  qed
  show ?thesis
    unfolding Let_def df_def [symmetric] out_def [symmetric]
    using len stock kept [OF i] by_category fallback present by blast
qed

theorem transform_products_price_and_stock_witness:
  "0 < length (drop_duplicates product_id example_products)
   \<and> 4 < length (drop_duplicates product_id example_products)
   \<and> length (transform_products exact_float_ops example_products) = 6
   \<and> prices_of (drop_duplicates product_id example_products) = [300, 100, 200, 1000]
   \<and> price (drop_duplicates product_id example_products ! 0) = None
   \<and> price (transform_products exact_float_ops example_products ! 0) = Some 250
   \<and> price (drop_duplicates product_id example_products ! 4) = None
   \<and> price (transform_products exact_float_ops example_products ! 4) = Some 200
   \<and> stock_quantity (drop_duplicates product_id example_products ! 2) = None
   \<and> stock_quantity (transform_products exact_float_ops example_products ! 2) = Some 0
   \<and> price (transform_products exact_float_ops scenario_c_products ! 2) = Some 150"
proof -
  have h: "0 < length (drop_duplicates product_id example_products)"
    "4 < length (drop_duplicates product_id example_products)"
    "2 < length (drop_duplicates product_id example_products)"
    by code_simp+
  have e: "length (drop_duplicates product_id example_products) = 6"
    "prices_of (drop_duplicates product_id example_products) = [300, 100, 200, 1000]"
    "price (drop_duplicates product_id example_products ! 0) = None"
    "category (drop_duplicates product_id example_products ! 0) = Some ''Garden''"
    "prices_of (filter (\<lambda>r. category r = Some ''Garden'')
        (drop_duplicates product_id example_products)) = []"
    "median exact_float_ops [300, 100, 200, 1000] = Some 250"
    "price (drop_duplicates product_id example_products ! 4) = None"
    "category (drop_duplicates product_id example_products ! 4) = Some ''Electronics''"
    "prices_of (filter (\<lambda>r. category r = Some ''Electronics'')
        (drop_duplicates product_id example_products)) = [300, 100, 200]"
    "median exact_float_ops [300, 100, 200] = Some 200"
    "stock_quantity (drop_duplicates product_id example_products ! 2) = None"
    "price (transform_products exact_float_ops scenario_c_products ! 2) = Some 150"
    by code_simp+
  note T0 = transform_products_price_and_stock [OF h(1), of exact_float_ops, unfolded Let_def]
  note T4 = transform_products_price_and_stock [OF h(2), of exact_float_ops, unfolded Let_def]
  note T2 = transform_products_price_and_stock [OF h(3), of exact_float_ops, unfolded Let_def]
  from T0 e have a: "length (transform_products exact_float_ops example_products) = 6"
    "price (transform_products exact_float_ops example_products ! 0) = Some 250"
    by simp_all
  from T4 e have b: "price (transform_products exact_float_ops example_products ! 4) = Some 200"
    by simp
  from T2 e have c: "stock_quantity (transform_products exact_float_ops example_products ! 2) = Some 0"
    by simp
  from h e a b c show ?thesis by simp
qed

text \<open>
  What C4 as amended leaves open: the fallback of a row that comes after a filled row.
  The loop takes \<^verbatim>\<open>df['price'].median()\<close> of the column as filled so far, so the value
  depends on the order of the rows: here the fourth row gets 175, the median of 100,
  200, 150 (the fill of the third row) and 1000, where the median of the recorded prices
  is 200.
\<close>

lemma fallback_after_fill_example:
  "price (transform_products exact_float_ops refilled_products ! 2) = Some 150"
  "price (transform_products exact_float_ops refilled_products ! 3) = Some 175"
  "median exact_float_ops (prices_of (drop_duplicates product_id refilled_products)) = Some 200"
  by code_simp+

subsection \<open>C10: the category median groups on the raw category\<close>

text \<open>
  C10. The median that fills a missing price of row \<open>i\<close> is taken over the rows whose raw
  category is the row's raw category \<open>c\<close>, character by character. A row \<open>j\<close> whose raw
  category \<open>c'\<close> differs from \<open>c\<close> only in letter case or surrounding whitespace has the
  same category as row \<open>i\<close> in the cleansed file, and yet its missing price is filled
  with the median over the rows labelled \<open>c'\<close>, not over those labelled \<open>c\<close>. (A raw
  category is never the empty text: \<^verbatim>\<open>read_csv\<close> reads an empty cell as missing.)
\<close>

theorem category_median_groups_on_raw_category:
  "i < length (drop_duplicates product_id products_df) \<Longrightarrow>
   price (drop_duplicates product_id products_df ! i) = None \<Longrightarrow>
   category (drop_duplicates product_id products_df ! i) = Some c \<Longrightarrow>
   prices_of (filter (\<lambda>r. category r = Some c) (drop_duplicates product_id products_df)) \<noteq> [] \<Longrightarrow>
   (let df = drop_duplicates product_id products_df; out = transform_products fl products_df in
      price (out ! i) = median fl (prices_of (filter (\<lambda>r. category r = Some c) df))
    \<and> (\<forall>j c'. j < length df \<and> category (df ! j) = Some c' \<and> c \<noteq> [] \<and> c' \<noteq> []
              \<and> differ_only_in_case_or_outer_space c c' \<longrightarrow>
          category (out ! j) = category (out ! i)
          \<and> (price (df ! j) = None
               \<and> prices_of (filter (\<lambda>r. category r = Some c') df) \<noteq> [] \<longrightarrow>
             price (out ! j) = median fl (prices_of (filter (\<lambda>r. category r = Some c') df)))))"
proof -
  define df where "df = drop_duplicates product_id products_df"
  define out where "out = transform_products fl products_df"
  assume "i < length (drop_duplicates product_id products_df)"
    and "price (drop_duplicates product_id products_df ! i) = None"
    and "category (drop_duplicates product_id products_df ! i) = Some c"
    and "prices_of (filter (\<lambda>r. category r = Some c)
                    (drop_duplicates product_id products_df)) \<noteq> []"
  then have i: "i < length df" and miss: "price (df ! i) = None"
    and cat: "category (df ! i) = Some c"
    and priced: "prices_of (filter (\<lambda>r. category r = Some c) df) \<noteq> []"
    by (simp_all add: df_def)
  have fill: "price (out ! j) = median fl (prices_of (filter (\<lambda>r. category r = Some c') df))"
    if "j < length df" "price (df ! j) = None" "category (df ! j) = Some c'"
      "prices_of (filter (\<lambda>r. category r = Some c') df) \<noteq> []" for j c'
    unfolding out_def
    using transform_products_filled_price [OF df_def that(1,2), of fl] that(3,4) by simp
  have label: "category (out ! j) = standardize_category (Some c')"
    if "j < length df" "category (df ! j) = Some c'" for j c'
    using that unfolding out_def df_def by (simp add: transform_products_cols(2))
  have same: "category (out ! j) = category (out ! i)"
    if "j < length df" "category (df ! j) = Some c'" "c \<noteq> []" "c' \<noteq> []"
      "differ_only_in_case_or_outer_space c c'" for j c'
    unfolding label [OF that(1,2)] label [OF i cat]
    by (rule standardize_category_merges [OF that(3,4,5), symmetric])
  show ?thesis
    unfolding Let_def df_def [symmetric] out_def [symmetric]
    using fill [OF i miss cat priced] fill same by blast
qed

theorem category_median_groups_on_raw_category_witness:
  "5 < length (drop_duplicates product_id mixed_case_products)
   \<and> price (drop_duplicates product_id mixed_case_products ! 5) = None
   \<and> category (drop_duplicates product_id mixed_case_products ! 5) = Some ''Electronics''
   \<and> prices_of (filter (\<lambda>r. category r = Some ''Electronics'')
        (drop_duplicates product_id mixed_case_products)) = [300, 100, 200]
   \<and> price (transform_products exact_float_ops mixed_case_products ! 5) = Some 200
   \<and> category (drop_duplicates product_id mixed_case_products ! 6) = Some '' electronics  ''
   \<and> price (drop_duplicates product_id mixed_case_products ! 6) = None
   \<and> price (transform_products exact_float_ops mixed_case_products ! 6) = Some 10
   \<and> category (drop_duplicates product_id mixed_case_products ! 4) = Some ''ELECTRONICS''
   \<and> category (transform_products exact_float_ops mixed_case_products ! 4) = Some ''Electronics''
   \<and> category (transform_products exact_float_ops mixed_case_products ! 5) = Some ''Electronics''
   \<and> category (transform_products exact_float_ops mixed_case_products ! 6) = Some ''Electronics''"
proof -
  have h: "5 < length (drop_duplicates product_id mixed_case_products)"
    "price (drop_duplicates product_id mixed_case_products ! 5) = None"
    "category (drop_duplicates product_id mixed_case_products ! 5) = Some ''Electronics''"
    "prices_of (filter (\<lambda>r. category r = Some ''Electronics'')
        (drop_duplicates product_id mixed_case_products)) \<noteq> []"
    by code_simp+
  have e: "prices_of (filter (\<lambda>r. category r = Some ''Electronics'')
        (drop_duplicates product_id mixed_case_products)) = [300, 100, 200]"
    "median exact_float_ops [300, 100, 200] = Some 200"
    "6 < length (drop_duplicates product_id mixed_case_products)"
    "4 < length (drop_duplicates product_id mixed_case_products)"
    "category (drop_duplicates product_id mixed_case_products ! 6) = Some '' electronics  ''"
    "price (drop_duplicates product_id mixed_case_products ! 6) = None"
    "prices_of (filter (\<lambda>r. category r = Some '' electronics  '')
        (drop_duplicates product_id mixed_case_products)) = [10]"
    "median exact_float_ops [10] = Some 10"
    "category (drop_duplicates product_id mixed_case_products ! 4) = Some ''ELECTRONICS''"
    "category (transform_products exact_float_ops mixed_case_products ! 5) = Some ''Electronics''"
    "standardize_category (Some '' electronics  '') = Some ''Electronics''"
    "standardize_category (Some ''ELECTRONICS'') = Some ''Electronics''"
    by code_simp+
  have d1: "differ_only_in_case_or_outer_space ''Electronics'' '' electronics  ''"
    unfolding differ_only_in_case_or_outer_space_def
    by (rule exI [of _ "[]"], rule exI [of _ "''Electronics''"], rule exI [of _ "[]"],
        rule exI [of _ "'' ''"], rule exI [of _ "''electronics''"], rule exI [of _ "''  ''"])
       code_simp
  have d2: "differ_only_in_case_or_outer_space ''Electronics'' ''ELECTRONICS''"
    unfolding differ_only_in_case_or_outer_space_def
    by (rule exI [of _ "[]"], rule exI [of _ "''Electronics''"], rule exI [of _ "[]"],
        rule exI [of _ "[]"], rule exI [of _ "''ELECTRONICS''"], rule exI [of _ "[]"])
       code_simp
  note T = category_median_groups_on_raw_category [OF h, of exact_float_ops, unfolded Let_def]
  from T e have p5: "price (transform_products exact_float_ops mixed_case_products ! 5) = Some 200"
    by simp
  from T have J: "j < length (drop_duplicates product_id mixed_case_products)
      \<and> category (drop_duplicates product_id mixed_case_products ! j) = Some c'
      \<and> c' \<noteq> [] \<and> differ_only_in_case_or_outer_space ''Electronics'' c' \<longrightarrow>
      category (transform_products exact_float_ops mixed_case_products ! j) =
        category (transform_products exact_float_ops mixed_case_products ! 5)
      \<and> (price (drop_duplicates product_id mixed_case_products ! j) = None
           \<and> prices_of (filter (\<lambda>r. category r = Some c')
                (drop_duplicates product_id mixed_case_products)) \<noteq> [] \<longrightarrow>
         price (transform_products exact_float_ops mixed_case_products ! j) =
           median exact_float_ops (prices_of (filter (\<lambda>r. category r = Some c')
                (drop_duplicates product_id mixed_case_products))))" for j c'
    by blast
  from J [of 6 "'' electronics  ''"] e d1
  have c6: "category (transform_products exact_float_ops mixed_case_products ! 6) = Some ''Electronics''"
    and p6: "price (transform_products exact_float_ops mixed_case_products ! 6) = Some 10"
    by simp_all
  from J [of 4 "''ELECTRONICS''"] e d2
  have c4: "category (transform_products exact_float_ops mixed_case_products ! 4) = Some ''Electronics''"
    by simp
  from h e p5 c6 p6 c4 show ?thesis by simp
qed


subsection \<open>Helper lemmas: the order aggregator\<close>

lemma mapped_sale_extend_sel:
  "quantity (sale.extend r (mapped_sale.fields dc dp st)) = quantity r"
  "unit_price (sale.extend r (mapped_sale.fields dc dp st)) = unit_price r"
  "status (sale.extend r (mapped_sale.fields dc dp st)) = status r"
  "transaction_date (sale.extend r (mapped_sale.fields dc dp st)) = transaction_date r"
  "db_customer_id (sale.extend r (mapped_sale.fields dc dp st)) = dc"
  "db_product_id (sale.extend r (mapped_sale.fields dc dp st)) = dp"
  "subtotal (sale.extend r (mapped_sale.fields dc dp st)) = st"
  by (cases r; simp add: sale.defs mapped_sale.defs)+

lemma map_sale_Some:
  "map_sale fl cm pm l = Some row \<Longrightarrow>
     quantity row = quantity l \<and> unit_price row = unit_price l \<and> status row = status l
     \<and> transaction_date row = transaction_date l
     \<and> subtotal row = num_mul fl (quantity l) (unit_price l)
     \<and> (\<exists>c. sale_customer_id l = Some c \<and> cm c = Some (db_customer_id row))
     \<and> (\<exists>p. sale_product_id l = Some p \<and> pm p = Some (db_product_id row))"
  by (auto simp: map_sale_def mapped_sale_extend_sel split: option.splits)

lemma in_map_filter: "y \<in> set (List.map_filter f xs) \<longleftrightarrow> (\<exists>x\<in>set xs. f x = Some y)"
  by (force simp: List.map_filter_def image_iff)

lemma items_of_group_cols:
  "items_of_group n g = Inr its \<Longrightarrow>
     map item_subtotal its = map subtotal g
     \<and> map item_unit_price its = map unit_price g
     \<and> map item_product_id its = map db_product_id g
     \<and> map (\<lambda>it. Inr (item_quantity it)) its = map (\<lambda>row. int_of_float (quantity row)) g
     \<and> (\<forall>it\<in>set its. item_order_id it = n)"
proof (induction g arbitrary: its)
  case Nil
  then show ?case by simp
next
  case (Cons row g)
  from Cons.prems obtain q its' where
    q: "int_of_float (quantity row) = Inr q" and its': "items_of_group n g = Inr its'"
    and its: "its = \<lparr>item_order_id = n, item_product_id = db_product_id row, item_quantity = q,
                     item_unit_price = unit_price row, item_subtotal = subtotal row\<rparr> # its'"
    by (auto split: sum.splits)
  from Cons.IH [OF its'] show ?case unfolding its using q by simp
qed

lemma emit_groups_lower:
  "emit_groups fl n ks df = Inr (os, its) \<Longrightarrow>
     (\<forall>ord\<in>set os. n \<le> order_id ord) \<and> (\<forall>it\<in>set its. n \<le> item_order_id it)"
proof (induction ks arbitrary: n os its)
  case Nil
  then show ?case by simp
next
  case (Cons k ks)
  from Cons.prems obtain its1 os' its2 where
    g: "items_of_group n (group_rows df k) = Inr its1"
    and r: "emit_groups fl (n + 1) ks df = Inr (os', its2)"
    and os: "os = order_of_group fl n k (group_rows df k) # os'" and its: "its = its1 @ its2"
    by (auto split: sum.splits prod.splits)
  from Cons.IH [OF r] items_of_group_cols [OF g] show ?case
    unfolding os its by (fastforce simp: order_of_group_def)
qed

lemma emit_groups_ids:
  "emit_groups fl n ks df = Inr (os, its) \<Longrightarrow> map order_id os = map (\<lambda>j. n + int j) [0..<length ks]"
proof (induction ks arbitrary: n os its)
  case Nil
  then show ?case by simp
next
  case (Cons k ks)
  from Cons.prems obtain its1 os' its2 where
    r: "emit_groups fl (n + 1) ks df = Inr (os', its2)"
    and os: "os = order_of_group fl n k (group_rows df k) # os'"
    by (auto split: sum.splits prod.splits)
  have "map (\<lambda>j. n + int j) [0..<length (k # ks)] = n # map (\<lambda>j. n + 1 + int j) [0..<length ks]"
    by (simp add: upt_conv_Cons map_Suc_upt [symmetric] del: upt_Suc)
  with Cons.IH [OF r] show ?case unfolding os by (simp add: order_of_group_def)
qed

lemma emit_groups_total:
  "emit_groups fl n ks df = Inr (os, its) \<Longrightarrow> ord \<in> set os \<Longrightarrow>
     total_amount ord =
       sum_skipna fl (map item_subtotal (filter (\<lambda>it. item_order_id it = order_id ord) its))"
proof (induction ks arbitrary: n os its)
  case Nil
  then show ?case by simp
next
  case (Cons k ks)
  from Cons.prems(1) obtain its1 os' its2 where
    g: "items_of_group n (group_rows df k) = Inr its1"
    and r: "emit_groups fl (n + 1) ks df = Inr (os', its2)"
    and os: "os = order_of_group fl n k (group_rows df k) # os'" and its: "its = its1 @ its2"
    by (auto split: sum.splits prod.splits)
  note c1 = items_of_group_cols [OF g]
  note lo = emit_groups_lower [OF r]
  show ?case
  proof (cases "ord = order_of_group fl n k (group_rows df k)")
    case True
    then have id: "order_id ord = n" by (simp add: order_of_group_def)
    have f1: "filter (\<lambda>it. item_order_id it = n) its1 = its1"
      using c1 by (simp add: filter_id_conv)
    have f2: "filter (\<lambda>it. item_order_id it = n) its2 = []"
      using lo by (fastforce simp: filter_empty_conv)
    show ?thesis unfolding id its using c1 True
      by (simp add: f1 f2 order_of_group_def)
  next
    case False
    with Cons.prems(2) os have mem: "ord \<in> set os'" by simp
    with lo have "n + 1 \<le> order_id ord" by simp
    then have f1: "filter (\<lambda>it. item_order_id it = order_id ord) its1 = []"
      using c1 by (fastforce simp: filter_empty_conv)
    from Cons.IH [OF r mem] show ?thesis unfolding its by (simp add: f1)
  qed
qed

lemma emit_groups_item_rows:
  "emit_groups fl n ks df = Inr (os, its) \<Longrightarrow> it \<in> set its \<Longrightarrow>
     \<exists>row\<in>set df. item_subtotal it = subtotal row \<and> item_unit_price it = unit_price row
        \<and> int_of_float (quantity row) = Inr (item_quantity it)"
proof (induction ks arbitrary: n os its)
  case Nil
  then show ?case by simp
next
  case (Cons k ks)
  from Cons.prems(1) obtain its1 os' its2 where
    g: "items_of_group n (group_rows df k) = Inr its1"
    and r: "emit_groups fl (n + 1) ks df = Inr (os', its2)"
    and its: "its = its1 @ its2"
    by (auto split: sum.splits prod.splits)
  from Cons.prems(2) its consider "it \<in> set its1" | "it \<in> set its2" by auto
  then show ?case
  proof cases
    case 1
    then obtain j where j: "j < length its1" "its1 ! j = it"
      by (auto simp: in_set_conv_nth)
    note c = items_of_group_cols [OF g]
    from c have len: "length its1 = length (group_rows df k)"
      by (metis length_map)
    let ?row = "group_rows df k ! j"
    have "?row \<in> set (group_rows df k)" using j len by simp
    then have "?row \<in> set df" by (simp add: group_rows_def)
    moreover have "item_subtotal it = subtotal ?row"
      using c j len by (metis nth_map)
    moreover have "item_unit_price it = unit_price ?row"
      using c j len by (metis nth_map)
    moreover have "int_of_float (quantity ?row) = Inr (item_quantity it)"
    proof -
      from c have "map (\<lambda>it. Inr (item_quantity it)) its1 ! j
          = map (\<lambda>row. int_of_float (quantity row)) (group_rows df k) ! j"
        by simp
      then show ?thesis using j len by simp
    qed
    ultimately show ?thesis by blast
  next
    case 2
    from Cons.IH [OF r 2] show ?thesis .
  qed
qed

lemma emit_groups_orders:
  "emit_groups fl n ks df = Inr (os, its) \<Longrightarrow> ord \<in> set os \<Longrightarrow>
     \<exists>k\<in>set ks. \<exists>m. ord = order_of_group fl m k (group_rows df k)"
proof (induction ks arbitrary: n os its)
  case Nil
  then show ?case by simp
next
  case (Cons k ks)
  from Cons.prems(1) obtain its1 os' its2 where
    r: "emit_groups fl (n + 1) ks df = Inr (os', its2)"
    and os: "os = order_of_group fl n k (group_rows df k) # os'"
    by (auto split: sum.splits prod.splits)
  from Cons.prems(2) os consider "ord = order_of_group fl n k (group_rows df k)" | "ord \<in> set os'"
    by auto
  then show ?case
  proof cases
    case 1
    then show ?thesis by auto
  next
    case 2
    from Cons.IH [OF r 2] show ?thesis by auto
  qed
qed

lemma group_rows_nonempty:
  "k \<in> set (group_keys df) \<Longrightarrow> group_rows df k \<noteq> []"
  by (auto simp: group_keys_def group_rows_def in_map_filter filter_empty_conv)

lemma transform_sales_to_orders_cases:
  assumes "transform_sales_to_orders fl sales_df cm pm = Inr (os, its)"
  obtains "sales_df = []" "os = []" "its = []"
  | "emit_groups fl 1 (group_keys (List.map_filter (map_sale fl cm pm) sales_df))
       (List.map_filter (map_sale fl cm pm) sales_df) = Inr (os, its)"
proof (cases "sales_df = []")
  case True
  with assms have "os = []" "its = []"
    by (simp_all add: transform_sales_to_orders_def)
  with True that(1) show ?thesis by blast
next
  case False
  with assms have "emit_groups fl 1 (group_keys (List.map_filter (map_sale fl cm pm) sales_df))
       (List.map_filter (map_sale fl cm pm) sales_df) = Inr (os, its)"
    by (simp add: transform_sales_to_orders_def Let_def)
  with that(2) show ?thesis by blast
qed

lemma present_values:
  "set (List.map_filter (\<lambda>v. v) col) = {v. Some v \<in> set col}"
  "count_list (List.map_filter (\<lambda>v. v) col) v = count_list col (Some v)"
proof -
  show "set (List.map_filter (\<lambda>v. v) col) = {v. Some v \<in> set col}"
    by (force simp: List.map_filter_def image_iff)
  show "count_list (List.map_filter (\<lambda>v. v) col) v = count_list col (Some v)"
    by (induction col) (auto simp: List.map_filter_def)
qed

lemma fold_max_props:
  fixes a :: nat
  shows "a \<le> fold max xs a" and "\<forall>x\<in>set xs. x \<le> fold max xs a"
    and "fold max xs a = a \<or> fold max xs a \<in> set xs"
proof -
  have eq: "fold max xs a = Max (set (a # xs))"
    by (rule Max.set_eq_fold [symmetric])
  show "a \<le> fold max xs a" unfolding eq by simp
  show "\<forall>x\<in>set xs. x \<le> fold max xs a" unfolding eq by simp
  have "Max (set (a # xs)) \<in> set (a # xs)"
    by (rule Max_in) simp_all
  then show "fold max xs a = a \<or> fold max xs a \<in> set xs"
    unfolding eq by auto
qed

text \<open>The first of the modes: present, most frequent, and least among the most frequent.\<close>

lemma group_status_least_mode:
  assumes "\<exists>v. Some v \<in> set col"
  shows "Some (group_status col) \<in> set col"
    and "Some t \<in> set col \<Longrightarrow> count_list col (Some t) \<le> count_list col (Some (group_status col))"
    and "Some t \<in> set col \<Longrightarrow> count_list col (Some t) = count_list col (Some (group_status col))
           \<Longrightarrow> group_status col \<le> t"
proof -
  define vals where "vals = List.map_filter (\<lambda>v. v) col"
  define top where "top = fold max (map (count_list vals) vals) 0"
  define cands where "cands = filter (\<lambda>v. count_list vals v = top) vals"
  have mode: "mode col = sort (remdups cands)"
    by (simp add: mode_def Let_def vals_def top_def cands_def)
  from assms obtain v0 where v0: "v0 \<in> set vals"
    by (auto simp: vals_def present_values)
  then have "0 < count_list vals v0"
    using count_list_0_iff [of vals v0] by (cases "count_list vals v0") simp_all
  moreover have le: "\<forall>v\<in>set vals. count_list vals v \<le> top"
    using fold_max_props(2) [of "map (count_list vals) vals" 0] by (simp add: top_def)
  ultimately have "0 < top" using v0 by fastforce
  with fold_max_props(3) [of "map (count_list vals) vals" 0]
  obtain v1 where v1: "v1 \<in> set vals" "count_list vals v1 = top"
    by (auto simp: top_def)
  then have "v1 \<in> set cands" by (simp add: cands_def)
  then have "sort (remdups cands) \<noteq> []"
    by (metis empty_iff list.set(1) set_remdups set_sort)
  then obtain m ms where ms: "sort (remdups cands) = m # ms"
    by (cases "sort (remdups cands)") auto
  then have gs: "group_status col = m"
    by (simp add: group_status_def mode)
  have "m \<in> set (sort (remdups cands))" unfolding ms by simp
  then have m: "m \<in> set vals" "count_list vals m = top"
    by (simp_all add: cands_def)
  have "sorted (m # ms)" unfolding ms [symmetric] by simp
  then have least: "\<forall>x\<in>set (sort (remdups cands)). m \<le> x"
    unfolding ms by auto
  show "Some (group_status col) \<in> set col"
    using m(1) unfolding gs by (simp add: vals_def present_values)
  show "count_list col (Some t) \<le> count_list col (Some (group_status col))"
    if "Some t \<in> set col"
    using that le m(2) unfolding gs by (simp add: vals_def present_values)
  show "group_status col \<le> t"
    if "Some t \<in> set col" "count_list col (Some t) = count_list col (Some (group_status col))"
  proof -
    from that m(2) have "t \<in> set cands"
      unfolding gs cands_def by (simp add: vals_def present_values)
    with least show ?thesis unfolding gs by simp
  qed
qed

lemma group_status_all_missing:
  assumes "\<forall>s\<in>set col. s = None"
  shows "group_status col = ''Completed''"
proof -
  have "List.map_filter (\<lambda>v. v) col = []"
    using assms by (auto simp: List.map_filter_def filter_empty_conv)
  then show ?thesis by (simp add: group_status_def mode_def)
qed

subsection \<open>C7: order totals\<close>

text \<open>
  C7 (as stated, it fails). A sales line without a unit price passes the cleansing of
  the sales file and the aggregator; its subtotal is missing. Alone in its group it
  gives an order with the total 0 and one order item without a subtotal: the total is
  not the sum of the subtotals of the order's items, which has a missing term and is
  missing.
\<close>

theorem order_total_missing_subtotal_counterexample:
  "transform_sales_to_orders exact_float_ops [unpriced_sale] example_customer_ids example_product_ids =
     Inr ([\<lparr>order_id = 1, order_customer_id = 7, order_date = ''2024-01-15'', total_amount = 0,
            order_status = ''Completed''\<rparr>],
          [\<lparr>item_order_id = 1, item_product_id = 1, item_quantity = 3,
            item_unit_price = None, item_subtotal = None\<rparr>])
   \<and> spec_sum_of_subtotals exact_float_ops [None] = None
   \<and> spec_sum_of_subtotals exact_float_ops [None] \<noteq> Some 0"
  by code_simp

text \<open>
  C7, amended. Whenever the aggregator returns, the orders have distinct local ids; the
  \<^verbatim>\<open>total_amount\<close> of every order is the sum, as numpy adds the column, of the subtotals
  of exactly the order items that carry its local id, in their order, a missing subtotal
  counting as 0; and the subtotal of every order item is the product (as the float
  multiplication gives it) of quantity and unit price of a sales line, missing when one
  of the two is missing. In particular, a single line with quantity 3 and unit price 10
  whose customer and product are mapped gives one order with total 30 and one order item
  with subtotal 30, the float operations being exact on these values.
\<close>

theorem order_total_is_sum_of_item_subtotals:
  "(transform_sales_to_orders fl sales_df cm pm = Inr (orders_list, order_items_list) \<longrightarrow>
      distinct (map order_id orders_list)
      \<and> (\<forall>ord\<in>set orders_list.
            total_amount ord =
              fsum fl (map (\<lambda>it. case item_subtotal it of None \<Rightarrow> 0 | Some x \<Rightarrow> x)
                (filter (\<lambda>it. item_order_id it = order_id ord) order_items_list)))
      \<and> (\<forall>it\<in>set order_items_list. \<exists>line\<in>set sales_df.
            item_subtotal it =
              (case (quantity line, unit_price line) of
                 (Some q, Some u) \<Rightarrow> Some (fmul fl q u)
               | _ \<Rightarrow> None)
            \<and> item_unit_price it = unit_price line
            \<and> int_of_float (quantity line) = Inr (item_quantity it)))
   \<and> (sale_customer_id line = Some c \<and> cm c = Some dc \<and> sale_product_id line = Some p
        \<and> pm p = Some dp \<and> transaction_date line = Some d
        \<and> quantity line = Some 3 \<and> unit_price line = Some 10
        \<and> fmul fl 3 10 = 30 \<and> fsum fl [30] = 30 \<longrightarrow>
       transform_sales_to_orders fl [line] cm pm =
         Inr ([\<lparr>order_id = 1, order_customer_id = dc, order_date = d, total_amount = 30,
                order_status = group_status [status line]\<rparr>],
              [\<lparr>item_order_id = 1, item_product_id = dp, item_quantity = 3,
                item_unit_price = Some 10, item_subtotal = Some 30\<rparr>]))"
proof (intro conjI impI)
  assume t: "transform_sales_to_orders fl sales_df cm pm = Inr (orders_list, order_items_list)"
  define df where "df = List.map_filter (map_sale fl cm pm) sales_df"
  from t show "distinct (map order_id orders_list)"
  proof (cases rule: transform_sales_to_orders_cases)
    case 1
    then show ?thesis by simp
  next
    case 2
    have "inj_on (\<lambda>j. 1 + int j) (set [0..<length (group_keys df)])"
      by (simp add: inj_on_def)
    then show ?thesis
      unfolding emit_groups_ids [OF 2] df_def [symmetric] by (simp add: distinct_map)
  qed
  from t show "\<forall>ord\<in>set orders_list.
      total_amount ord =
        fsum fl (map (\<lambda>it. case item_subtotal it of None \<Rightarrow> 0 | Some x \<Rightarrow> x)
          (filter (\<lambda>it. item_order_id it = order_id ord) order_items_list))"
  proof (cases rule: transform_sales_to_orders_cases)
    case 1
    then show ?thesis by simp
  next
    case 2
    show ?thesis
    proof
      fix ord assume "ord \<in> set orders_list"
      from emit_groups_total [OF 2 this]
      show "total_amount ord =
        fsum fl (map (\<lambda>it. case item_subtotal it of None \<Rightarrow> 0 | Some x \<Rightarrow> x)
          (filter (\<lambda>it. item_order_id it = order_id ord) order_items_list))"
        by (simp add: sum_skipna_def comp_def)
    qed
  qed
  from t show "\<forall>it\<in>set order_items_list. \<exists>line\<in>set sales_df.
      item_subtotal it =
        (case (quantity line, unit_price line) of
           (Some q, Some u) \<Rightarrow> Some (fmul fl q u)
         | _ \<Rightarrow> None)
      \<and> item_unit_price it = unit_price line
      \<and> int_of_float (quantity line) = Inr (item_quantity it)"
  proof (cases rule: transform_sales_to_orders_cases)
    case 1
    then show ?thesis by simp
  next
    case 2
    show ?thesis
    proof
      fix it assume "it \<in> set order_items_list"
      from emit_groups_item_rows [OF 2 this] obtain row where
        row: "row \<in> set (List.map_filter (map_sale fl cm pm) sales_df)"
          "item_subtotal it = subtotal row" "item_unit_price it = unit_price row"
          "int_of_float (quantity row) = Inr (item_quantity it)"
        by blast
      from row(1) obtain l where l: "l \<in> set sales_df" "map_sale fl cm pm l = Some row"
        by (auto simp: in_map_filter)
      have "num_mul fl (quantity l) (unit_price l) =
          (case (quantity l, unit_price l) of
             (Some q, Some u) \<Rightarrow> Some (fmul fl q u)
           | _ \<Rightarrow> None)"
        by (simp add: num_mul_def split: option.splits)
      with map_sale_Some [OF l(2)] row(2-4) l(1)
      show "\<exists>line\<in>set sales_df.
          item_subtotal it =
            (case (quantity line, unit_price line) of
               (Some q, Some u) \<Rightarrow> Some (fmul fl q u)
             | _ \<Rightarrow> None)
          \<and> item_unit_price it = unit_price line
          \<and> int_of_float (quantity line) = Inr (item_quantity it)"
        by (intro bexI [of _ l]) auto
    qed
  qed
next
  assume a: "sale_customer_id line = Some c \<and> cm c = Some dc \<and> sale_product_id line = Some p
        \<and> pm p = Some dp \<and> transaction_date line = Some d
        \<and> quantity line = Some 3 \<and> unit_price line = Some 10
        \<and> fmul fl 3 10 = 30 \<and> fsum fl [30] = 30"
  define row where "row = sale.extend line (mapped_sale.fields dc dp (Some 30))"
  have m: "map_sale fl cm pm line = Some row"
    using a by (simp add: map_sale_def row_def num_mul_def)
  have k: "group_key row = Some (dc, d)"
    using a by (simp add: group_key_def row_def mapped_sale_extend_sel)
  have df: "List.map_filter (map_sale fl cm pm) [line] = [row]"
    using m by (simp add: List.map_filter_def)
  have keys: "group_keys [row] = [(dc, d)]"
    using k by (simp add: group_keys_def List.map_filter_def)
  have rows: "group_rows [row] (dc, d) = [row]"
    using k by (simp add: group_rows_def)
  show "transform_sales_to_orders fl [line] cm pm =
         Inr ([\<lparr>order_id = 1, order_customer_id = dc, order_date = d, total_amount = 30,
                order_status = group_status [status line]\<rparr>],
              [\<lparr>item_order_id = 1, item_product_id = dp, item_quantity = 3,
                item_unit_price = Some 10, item_subtotal = Some 30\<rparr>])"
  proof -
    have tot: "sum_skipna fl (map subtotal [row]) = 30"
      using a by (simp add: sum_skipna_def row_def mapped_sale_extend_sel)
    have its: "items_of_group 1 [row] =
        Inr [\<lparr>item_order_id = 1, item_product_id = dp, item_quantity = 3,
               item_unit_price = Some 10, item_subtotal = Some 30\<rparr>]"
      using a by (simp add: int_of_float_def row_def mapped_sale_extend_sel)
    have ord: "order_of_group fl 1 (dc, d) [row] =
        \<lparr>order_id = 1, order_customer_id = dc, order_date = d, total_amount = 30,
         order_status = group_status [status line]\<rparr>"
      unfolding order_of_group_def tot by (simp add: row_def mapped_sale_extend_sel)
    show ?thesis
      unfolding transform_sales_to_orders_def Let_def df keys
      by (simp add: rows its ord del: items_of_group.simps)
  qed
qed

theorem order_total_is_sum_of_item_subtotals_witness:
  "transform_sales_to_orders exact_float_ops example_sales example_customer_ids example_product_ids
     = Inr (example_orders, example_order_items)
   \<and> total_amount (example_orders ! 0) = 50
   \<and> map item_subtotal
        (filter (\<lambda>it. item_order_id it = order_id (example_orders ! 0)) example_order_items)
      = [Some 30, Some 10, Some 10]
   \<and> fsum exact_float_ops [30, 10, 10] = 50
   \<and> total_amount (example_orders ! 1) = 0
   \<and> map item_subtotal
        (filter (\<lambda>it. item_order_id it = order_id (example_orders ! 1)) example_order_items)
      = [None]
   \<and> fsum exact_float_ops [0] = 0
   \<and> fmul exact_float_ops 3 10 = 30 \<and> fsum exact_float_ops [30] = 30
   \<and> transform_sales_to_orders exact_float_ops [single_sale] example_customer_ids example_product_ids =
        Inr ([\<lparr>order_id = 1, order_customer_id = 7, order_date = ''2024-01-15'',
               total_amount = 30, order_status = ''Completed''\<rparr>],
             [\<lparr>item_order_id = 1, item_product_id = 1, item_quantity = 3,
               item_unit_price = Some 10, item_subtotal = Some 30\<rparr>])"
proof -
  have t: "transform_sales_to_orders exact_float_ops example_sales example_customer_ids example_product_ids
     = Inr (example_orders, example_order_items)"
    by code_simp
  have h: "sale_customer_id single_sale = Some ''C1'' \<and> example_customer_ids ''C1'' = Some 7
     \<and> sale_product_id single_sale = Some ''P1'' \<and> example_product_ids ''P1'' = Some 1
     \<and> transaction_date single_sale = Some ''2024-01-15''
     \<and> quantity single_sale = Some 3 \<and> unit_price single_sale = Some 10
     \<and> fmul exact_float_ops 3 10 = 30 \<and> fsum exact_float_ops [30] = 30"
    by code_simp
  have c: "example_orders ! 0 \<in> set example_orders"
    "example_orders ! 1 \<in> set example_orders"
    "map item_subtotal
        (filter (\<lambda>it. item_order_id it = order_id (example_orders ! 0)) example_order_items)
      = [Some 30, Some 10, Some 10]"
    "map item_subtotal
        (filter (\<lambda>it. item_order_id it = order_id (example_orders ! 1)) example_order_items)
      = [None]"
    "fsum exact_float_ops [30, 10, 10] = 50"
    "fsum exact_float_ops [0] = 0"
    "group_status [status single_sale] = ''Completed''"
    by code_simp+
  note T = order_total_is_sum_of_item_subtotals
    [of exact_float_ops example_sales example_customer_ids example_product_ids example_orders
        example_order_items single_sale "''C1''" 7 "''P1''" 1 "''2024-01-15''"]
  from T t have A: "\<forall>ord\<in>set example_orders.
      total_amount ord =
        fsum exact_float_ops (map (\<lambda>it. case item_subtotal it of None \<Rightarrow> 0 | Some x \<Rightarrow> x)
          (filter (\<lambda>it. item_order_id it = order_id ord) example_order_items))"
    by blast
  have M: "map (\<lambda>it. case item_subtotal it of None \<Rightarrow> 0 | Some x \<Rightarrow> x) its =
      map (\<lambda>v. case v of None \<Rightarrow> 0 | Some x \<Rightarrow> x) (map item_subtotal its)" for its :: "order_item list"
    by simp
  from A c(1) have "total_amount (example_orders ! 0) =
      fsum exact_float_ops (map (\<lambda>v. case v of None \<Rightarrow> 0 | Some x \<Rightarrow> x) (map item_subtotal
          (filter (\<lambda>it. item_order_id it = order_id (example_orders ! 0)) example_order_items)))"
    unfolding M [symmetric] by blast
  then have S0: "total_amount (example_orders ! 0) = 50"
    unfolding c(3) using c(5) by simp
  from A c(2) have "total_amount (example_orders ! 1) =
      fsum exact_float_ops (map (\<lambda>v. case v of None \<Rightarrow> 0 | Some x \<Rightarrow> x) (map item_subtotal
          (filter (\<lambda>it. item_order_id it = order_id (example_orders ! 1)) example_order_items)))"
    unfolding M [symmetric] by blast
  then have S1: "total_amount (example_orders ! 1) = 0"
    unfolding c(4) using c(6) by simp
  from T h have "transform_sales_to_orders exact_float_ops [single_sale] example_customer_ids example_product_ids =
      Inr ([\<lparr>order_id = 1, order_customer_id = 7, order_date = ''2024-01-15'',
             total_amount = 30, order_status = group_status [status single_sale]\<rparr>],
           [\<lparr>item_order_id = 1, item_product_id = 1, item_quantity = 3,
             item_unit_price = Some 10, item_subtotal = Some 30\<rparr>])"
    by blast
  with t h c S0 S1 show ?thesis by simp
qed

subsection \<open>C2: the status of an order\<close>

text \<open>
  C2 (as stated, it fails). Two rows of one group with the statuses \<^verbatim>\<open>Pending\<close> and
  \<^verbatim>\<open>Completed\<close>, in this order: both are most frequent, the first encountered is
  \<^verbatim>\<open>Pending\<close>, and the order gets \<^verbatim>\<open>Completed\<close>, because \<^verbatim>\<open>Series.mode()\<close> returns the
  modes sorted.
\<close>

theorem order_status_tie_counterexample:
  "transform_sales_to_orders exact_float_ops tied_status_sales example_customer_ids example_product_ids =
     Inr ([\<lparr>order_id = 1, order_customer_id = 7, order_date = ''2024-01-15'', total_amount = 30,
            order_status = ''Completed''\<rparr>],
          [\<lparr>item_order_id = 1, item_product_id = 1, item_quantity = 1,
            item_unit_price = Some 10, item_subtotal = Some 10\<rparr>,
           \<lparr>item_order_id = 1, item_product_id = 2, item_quantity = 1,
            item_unit_price = Some 20, item_subtotal = Some 20\<rparr>])
   \<and> List.map_filter status tied_status_sales = [''Pending'', ''Completed'']
   \<and> spec_first_encountered_mode (List.map_filter status tied_status_sales) = Some ''Pending''"
  by code_simp

text \<open>
  C2, amended. For every order the aggregator emits, with \<open>col\<close> the statuses of the
  surviving lines of its group in line order: the group is not empty; when a status is
  present, the order's status is one of the statuses present, no status present is more
  frequent, and among the equally frequent ones it is the least in the order of strings
  (character by character, by code point); when every status of the group is missing it
  is \<^verbatim>\<open>Completed\<close>.
\<close>

theorem order_status_is_least_mode:
  "transform_sales_to_orders fl sales_df cm pm = Inr (orders_list, order_items_list) \<Longrightarrow>
   ord \<in> set orders_list \<Longrightarrow>
   (let col = map status (group_rows (List.map_filter (map_sale fl cm pm) sales_df)
                            (order_customer_id ord, order_date ord))
    in col \<noteq> []
       \<and> (if \<forall>s\<in>set col. s = None then order_status ord = ''Completed''
          else Some (order_status ord) \<in> set col
             \<and> (\<forall>t. Some t \<in> set col \<longrightarrow>
                   count_list col (Some t) \<le> count_list col (Some (order_status ord))
                   \<and> (count_list col (Some t) = count_list col (Some (order_status ord))
                        \<longrightarrow> order_status ord \<le> t))))"
proof -
  assume t: "transform_sales_to_orders fl sales_df cm pm = Inr (orders_list, order_items_list)"
    and mem: "ord \<in> set orders_list"
  define df where "df = List.map_filter (map_sale fl cm pm) sales_df"
  from t mem have e: "emit_groups fl 1 (group_keys df) df = Inr (orders_list, order_items_list)"
    unfolding df_def by (cases rule: transform_sales_to_orders_cases) auto
  from emit_groups_orders [OF e mem] obtain k m where
    k: "k \<in> set (group_keys df)" and ord: "ord = order_of_group fl m k (group_rows df k)"
    by blast
  define col where "col = map status (group_rows df k)"
  have key: "(order_customer_id ord, order_date ord) = k"
    unfolding ord by (simp add: order_of_group_def)
  have st: "order_status ord = group_status col"
    unfolding ord col_def by (simp add: order_of_group_def)
  have ne: "col \<noteq> []"
    using group_rows_nonempty [OF k] by (simp add: col_def)
  have "if \<forall>s\<in>set col. s = None then order_status ord = ''Completed''
          else Some (order_status ord) \<in> set col
             \<and> (\<forall>t. Some t \<in> set col \<longrightarrow>
                   count_list col (Some t) \<le> count_list col (Some (order_status ord))
                   \<and> (count_list col (Some t) = count_list col (Some (order_status ord))
                        \<longrightarrow> order_status ord \<le> t))"
  proof (cases "\<forall>s\<in>set col. s = None")
    case True
    then show ?thesis unfolding st by (simp add: group_status_all_missing)
  next
    case False
    then have ex: "\<exists>v. Some v \<in> set col" by (metis not_None_eq)
    from False group_status_least_mode [OF ex] show ?thesis
      unfolding st by auto
  qed
  with ne show ?thesis
    unfolding Let_def df_def [symmetric] key col_def [symmetric] by simp
qed

theorem order_status_is_least_mode_witness:
  "transform_sales_to_orders exact_float_ops example_sales example_customer_ids example_product_ids
     = Inr (example_orders, example_order_items)
   \<and> example_orders ! 0 \<in> set example_orders
   \<and> map status (group_rows
        (List.map_filter (map_sale exact_float_ops example_customer_ids example_product_ids) example_sales)
        (order_customer_id (example_orders ! 0), order_date (example_orders ! 0)))
      = [Some ''Shipped'', Some ''Pending'', Some ''Shipped'']
   \<and> order_status (example_orders ! 0) = ''Shipped''
   \<and> order_status (example_orders ! 1) = ''Completed''"
proof -
  have t: "transform_sales_to_orders exact_float_ops example_sales example_customer_ids example_product_ids
     = Inr (example_orders, example_order_items)"
    by code_simp
  have m: "example_orders ! 0 \<in> set example_orders"
    by code_simp
  have c: "map status (group_rows
        (List.map_filter (map_sale exact_float_ops example_customer_ids example_product_ids) example_sales)
        (order_customer_id (example_orders ! 0), order_date (example_orders ! 0)))
      = [Some ''Shipped'', Some ''Pending'', Some ''Shipped'']
   \<and> order_status (example_orders ! 0) = ''Shipped''
   \<and> order_status (example_orders ! 1) = ''Completed''"
    by code_simp
  from order_status_is_least_mode [OF t m] t m c show ?thesis by simp
qed

subsection \<open>C3: the email of a cleansed customer\<close>

text \<open>
  C3. The email of a row without email is built from the first and the last name; when one
  of the names is missing too, the sum of the string columns is missing and the email
  stays missing, although the step reports the email as filled.
\<close>

theorem transform_customers_email_stays_missing:
  "map email (transform_customers True customers_without_first_name) =
     [None, Some ''asha.rao@unknown.com'']"
  by code_simp

subsection \<open>C9: normalising a normalised date\<close>

text \<open>
  C9. Where the platform's \<^verbatim>\<open>strftime\<close> does not pad the year, the year 999 is written
  with three digits; no format parses the result, so a second normalisation rejects it.
\<close>

theorem standardize_date_unpadded_year_not_idempotent:
  "standardize_date False (Some ''0999-01-01'') = Some ''999-01-01''
   \<and> standardize_date False (Some ''999-01-01'') = None"
  by code_simp

subsection \<open>Helper lemmas: the store and the load steps\<close>

lemma next_fault_fields:
  "next_fault conn = (f, conn') \<Longrightarrow>
     work conn' = work conn \<and> committed conn' = committed conn \<and> is_connected conn' = is_connected conn
     \<and> next_customer_id conn' = next_customer_id conn \<and> next_product_id conn' = next_product_id conn
     \<and> next_order_id conn' = next_order_id conn \<and> next_order_item_id conn' = next_order_item_id conn"
  by (auto simp: next_fault_def split: list.splits)

lemma insert_customer_frame:
  "insert_customer conn row = (res, conn') \<Longrightarrow>
     committed conn' = committed conn \<and> is_connected conn' = is_connected conn
     \<and> products (work conn') = products (work conn) \<and> orders (work conn') = orders (work conn)
     \<and> order_items (work conn') = order_items (work conn)"
  by (cases "next_fault conn")
     (auto simp: insert_customer_def Let_def dest!: next_fault_fields split: if_splits)

lemma insert_customer_ok:
  "insert_customer conn row = (Inr i, conn') \<Longrightarrow>
     customers (work conn') = customers (work conn) @ [(i, row)]"
  by (cases "next_fault conn")
     (auto simp: insert_customer_def Let_def dest!: next_fault_fields split: if_splits)

lemma insert_product_frame:
  "insert_product conn row = (res, conn') \<Longrightarrow>
     committed conn' = committed conn \<and> is_connected conn' = is_connected conn
     \<and> customers (work conn') = customers (work conn) \<and> orders (work conn') = orders (work conn)
     \<and> order_items (work conn') = order_items (work conn)"
  by (cases "next_fault conn")
     (auto simp: insert_product_def Let_def dest!: next_fault_fields split: if_splits)

lemma insert_product_ok:
  "insert_product conn row = (Inr i, conn') \<Longrightarrow>
     products (work conn') = products (work conn) @ [(i, row)]"
  by (cases "next_fault conn")
     (auto simp: insert_product_def Let_def dest!: next_fault_fields split: if_splits)

lemma insert_order_frame:
  "insert_order conn row = (res, conn') \<Longrightarrow>
     committed conn' = committed conn \<and> is_connected conn' = is_connected conn
     \<and> customers (work conn') = customers (work conn) \<and> products (work conn') = products (work conn)
     \<and> order_items (work conn') = order_items (work conn)"
  by (cases "next_fault conn")
     (auto simp: insert_order_def Let_def dest!: next_fault_fields split: if_splits)

lemma insert_order_item_frame:
  "insert_order_item conn row = (res, conn') \<Longrightarrow>
     committed conn' = committed conn \<and> is_connected conn' = is_connected conn
     \<and> customers (work conn') = customers (work conn) \<and> products (work conn') = products (work conn)
     \<and> orders (work conn') = orders (work conn)"
  by (cases "next_fault conn")
     (auto simp: insert_order_item_def Let_def dest!: next_fault_fields split: if_splits)

text \<open>An order item without a unit price or without a subtotal is not inserted.\<close>

lemma insert_order_item_not_null:
  "oi_unit_price row = None \<or> oi_subtotal row = None \<Longrightarrow>
     isl (fst (insert_order_item conn row))
     \<and> work (snd (insert_order_item conn row)) = work conn"
  by (cases "next_fault conn")
     (auto simp: insert_order_item_def Let_def dest!: next_fault_fields split: if_splits)

lemma commit_cases:
  "commit conn = (res, conn') \<Longrightarrow>
     is_connected conn' = is_connected conn \<and> work conn' = work conn
     \<and> (case res of Inl e \<Rightarrow> committed conn' = committed conn | Inr u \<Rightarrow> committed conn' = work conn)"
  by (cases "next_fault conn")
     (auto simp: commit_def dest!: next_fault_fields split: if_splits)

text \<open>A property of the connection that every insert keeps is kept by the loop.\<close>

lemma insert_rows_invariant:
  assumes step: "\<And>c r res c'. ins c r = (res, c') \<Longrightarrow> P c \<Longrightarrow> P c'"
  shows "insert_rows ins t k conn df m0 = (res, conn') \<Longrightarrow> P conn \<Longrightarrow> P conn'"
proof (induction df arbitrary: conn m0)
  case Nil
  then show ?case by simp
next
  case (Cons row rest)
  obtain r c1 where i: "ins conn (t row) = (r, c1)" by (cases "ins conn (t row)")
  from step [OF i Cons.prems(2)] have P1: "P c1" .
  show ?case
  proof (cases r)
    case (Inl e)
    with Cons.prems(1) i have "conn' = c1" by simp
    with P1 show ?thesis by simp
  next
    case (Inr lastrowid)
    with Cons.prems(1) i have
      "insert_rows ins t k c1 rest (m0(k row \<mapsto> lastrowid)) = (res, conn')" by simp
    from Cons.IH [OF this P1] show ?thesis .
  qed
qed

text \<open>A loop that ran to its end appended one row per input row and mapped each key.\<close>

lemma insert_rows_ok:
  assumes step: "\<And>c r i c'. ins c r = (Inr i, c') \<Longrightarrow> tbl (work c') = tbl (work c) @ [(i, r)]"
  shows "insert_rows ins t k conn df m0 = (Inr m, conn') \<Longrightarrow>
     \<exists>ids. length ids = length df
          \<and> tbl (work conn') = tbl (work conn) @ zip ids (map t df)
          \<and> m = m0(map k df [\<mapsto>] ids)"
proof (induction df arbitrary: conn m0)
  case Nil
  then show ?case by simp
next
  case (Cons row rest)
  obtain r c1 where i: "ins conn (t row) = (r, c1)" by (cases "ins conn (t row)")
  show ?case
  proof (cases r)
    case (Inl e)
    with Cons.prems i show ?thesis by simp
  next
    case (Inr lastrowid)
    with Cons.prems i have
      rec: "insert_rows ins t k c1 rest (m0(k row \<mapsto> lastrowid)) = (Inr m, conn')" by simp
    from Cons.IH [OF rec] obtain ids where ids: "length ids = length rest"
      "tbl (work conn') = tbl (work c1) @ zip ids (map t rest)"
      "m = (m0(k row \<mapsto> lastrowid))(map k rest [\<mapsto>] ids)"
      by blast
    from step [of conn "t row" lastrowid c1] i Inr
    have c1: "tbl (work c1) = tbl (work conn) @ [(lastrowid, t row)]" by simp
    show ?thesis
      by (rule exI [of _ "lastrowid # ids"]) (simp add: ids c1)
  qed
qed

lemma map_upds_distinct_nth:
  "distinct ks \<Longrightarrow> length ids = length ks \<Longrightarrow> j < length ks \<Longrightarrow>
     (m0(ks [\<mapsto>] ids)) (ks ! j) = Some (ids ! j)"
proof (induction ks arbitrary: ids j m0)
  case Nil
  then show ?case by simp
next
  case (Cons k ks)
  then obtain i ids' where ids: "ids = i # ids'" by (cases ids) auto
  show ?case
  proof (cases j)
    case 0
    with Cons.prems ids show ?thesis by (simp add: map_upds_apply_nontin)
  next
    case (Suc j')
    from Cons.prems ids Suc have d: "distinct ks" "length ids' = length ks" "j' < length ks"
      by simp_all
    from Cons.IH [OF d, of "m0(k \<mapsto> i)"] show ?thesis
      unfolding ids Suc by (simp only: nth_Cons_Suc map_upds_Cons)
  qed
qed

lemma try_insert_all_fail:
  assumes frame: "\<And>c r res c'. ins c r = (res, c') \<Longrightarrow> committed c' = committed c"
    and t: "try_insert_all ins t k conn df = (Inl e, conn')"
  shows "committed conn' = committed conn"
proof -
  obtain r c1 where l: "insert_rows ins t k conn df Map.empty = (r, c1)"
    by (cases "insert_rows ins t k conn df Map.empty")
  have c1: "committed c1 = committed conn"
    using insert_rows_invariant [of ins "\<lambda>c. committed c = committed conn", OF _ l]
    by (simp add: frame)
  show ?thesis
  proof (cases r)
    case (Inl e')
    with t l have "conn' = c1" by (simp add: try_insert_all_def)
    with c1 show ?thesis by simp
  next
    case (Inr m)
    obtain r2 c2 where c: "commit c1 = (r2, c2)" by (cases "commit c1")
    with t l Inr have "r2 = Inl e" "conn' = c2"
      by (auto simp: try_insert_all_def split: sum.splits)
    with commit_cases [OF c] c1 show ?thesis by simp
  qed
qed

lemma try_insert_all_ok:
  assumes step: "\<And>c r i c'. ins c r = (Inr i, c') \<Longrightarrow> tbl (work c') = tbl (work c) @ [(i, r)]"
    and t: "try_insert_all ins t k conn df = (Inr m, conn')"
  shows "\<exists>ids. length ids = length df
          \<and> tbl (committed conn') = tbl (work conn) @ zip ids (map t df)
          \<and> m = Map.empty(map k df [\<mapsto>] ids)
          \<and> work conn' = committed conn'"
proof -
  obtain r c1 where l: "insert_rows ins t k conn df Map.empty = (r, c1)"
    by (cases "insert_rows ins t k conn df Map.empty")
  obtain r2 c2 where c: "commit c1 = (r2, c2)" by (cases "commit c1")
  from t l c have r: "r = Inr m" and r2: "r2 = Inr ()" and c2: "conn' = c2"
    by (auto simp: try_insert_all_def split: sum.splits)
  from insert_rows_ok [of ins tbl, OF step l [unfolded r]] obtain ids where
    ids: "length ids = length df" "tbl (work c1) = tbl (work conn) @ zip ids (map t df)"
      "m = Map.empty(map k df [\<mapsto>] ids)"
    by blast
  from commit_cases [OF c] r2 have "committed c2 = work c1" "work c2 = work c1" by simp_all
  with ids c2 show ?thesis by auto
qed

text \<open>The contract of a parent load step, for any of the loops above.\<close>

lemma load_step_contract:
  assumes frame: "\<And>c r res c'. ins c r = (res, c') \<Longrightarrow> committed c' = committed c"
    and step: "\<And>c r i c'. ins c r = (Inr i, c') \<Longrightarrow> tbl (work c') = tbl (work c) @ [(i, r)]"
    and clean: "work conn = committed conn"
    and res: "(if df = [] then (Map.empty, conn)
               else case try_insert_all ins t k conn df of
                      (Inl e, conn') \<Rightarrow> (Map.empty, rollback conn')
                    | (Inr m, conn') \<Rightarrow> (m, conn')) = (m, conn')"
  shows "(df \<noteq> [] \<and> (\<exists>e c. try_insert_all ins t k conn df = (Inl e, c)) \<longrightarrow>
            m = Map.empty \<and> work conn' = work conn \<and> committed conn' = committed conn)
       \<and> (\<not> (df \<noteq> [] \<and> (\<exists>e c. try_insert_all ins t k conn df = (Inl e, c))) \<longrightarrow>
            (\<exists>ids. length ids = length df
               \<and> tbl (committed conn') = tbl (committed conn) @ zip ids (map t df)
               \<and> work conn' = committed conn'
               \<and> dom m = k ` set df
               \<and> (distinct (map k df) \<longrightarrow> (\<forall>j<length df. m (k (df ! j)) = Some (ids ! j)))))"
proof (cases "df = []")
  case True
  with res clean show ?thesis by auto
next
  case False
  obtain r c where t: "try_insert_all ins t k conn df = (r, c)"
    by (cases "try_insert_all ins t k conn df")
  show ?thesis
  proof (cases r)
    case (Inl e)
    with res False t have m: "m = Map.empty" and c': "conn' = rollback c" by simp_all
    from try_insert_all_fail [of ins, OF frame t [unfolded Inl]]
    have "committed c = committed conn" .
    with clean have "work conn' = work conn" "committed conn' = committed conn"
      unfolding c' by (simp_all add: rollback_def)
    with m t Inl False show ?thesis by simp
  next
    case (Inr m')
    with res False t have m: "m = m'" and c': "conn' = c" by simp_all
    from try_insert_all_ok [of ins tbl, OF step t [unfolded Inr]] obtain ids where
      ids: "length ids = length df" "tbl (committed c) = tbl (work conn) @ zip ids (map t df)"
        "m' = Map.empty(map k df [\<mapsto>] ids)" "work c = committed c"
      by blast
    have dom: "dom m = k ` set df"
      unfolding m ids(3) using ids(1) by simp
    have nth: "m (k (df ! j)) = Some (ids ! j)" if "distinct (map k df)" "j < length df" for j
      using map_upds_distinct_nth [of "map k df" ids j Map.empty] that ids(1)
      unfolding m ids(3) by simp
    have "\<exists>ids. length ids = length df
               \<and> tbl (committed conn') = tbl (committed conn) @ zip ids (map t df)
               \<and> work conn' = committed conn'
               \<and> dom m = k ` set df
               \<and> (distinct (map k df) \<longrightarrow> (\<forall>j<length df. m (k (df ! j)) = Some (ids ! j)))"
      using ids(1,2,4) dom nth clean unfolding c' by (intro exI [of _ ids]) simp
    with t Inr show ?thesis by simp
  qed
qed

subsection \<open>C6: a parent load step is atomic\<close>

text \<open>
  C6. For \<^verbatim>\<open>load_customers\<close> and \<^verbatim>\<open>load_products\<close>, on a connection without uncommitted
  changes (as \<^verbatim>\<open>load\<close> calls them): if a statement of the step raises a store error,
  the rows of the store are as before the step and the step returns the empty mapping;
  otherwise the step has committed one row per entity, after the rows already there and
  under the ids \<open>ids\<close> the store assigned, the keys of the mapping are the natural ids of
  the entities, and when these are distinct (as de-duplication leaves them) the mapping
  takes the natural id of each entity to the id of its row.
\<close>

theorem load_step_atomic:
  "is_connected conn \<Longrightarrow> work conn = committed conn \<Longrightarrow>
   (case load_customers conn customers_df of
      (m, conn') \<Rightarrow>
        (customers_df \<noteq> [] \<and> (\<exists>e c. try_load_customers conn customers_df = (Inl e, c)) \<longrightarrow>
           m = Map.empty \<and> work conn' = work conn \<and> committed conn' = committed conn)
        \<and> (\<not> (customers_df \<noteq> [] \<and> (\<exists>e c. try_load_customers conn customers_df = (Inl e, c))) \<longrightarrow>
             (\<exists>ids. length ids = length customers_df
                \<and> customers (committed conn') =
                    customers (committed conn) @ zip ids (map customer_tuple customers_df)
                \<and> work conn' = committed conn'
                \<and> dom m = customer_key ` set customers_df
                \<and> (distinct (map customer_key customers_df) \<longrightarrow>
                     (\<forall>j<length customers_df. m (customer_key (customers_df ! j)) = Some (ids ! j))))))
   \<and> (case load_products conn products_df of
      (m, conn') \<Rightarrow>
        (products_df \<noteq> [] \<and> (\<exists>e c. try_load_products conn products_df = (Inl e, c)) \<longrightarrow>
           m = Map.empty \<and> work conn' = work conn \<and> committed conn' = committed conn)
        \<and> (\<not> (products_df \<noteq> [] \<and> (\<exists>e c. try_load_products conn products_df = (Inl e, c))) \<longrightarrow>
             (\<exists>ids. length ids = length products_df
                \<and> products (committed conn') =
                    products (committed conn) @ zip ids (map product_tuple products_df)
                \<and> work conn' = committed conn'
                \<and> dom m = product_key ` set products_df
                \<and> (distinct (map product_key products_df) \<longrightarrow>
                     (\<forall>j<length products_df. m (product_key (products_df ! j)) = Some (ids ! j))))))"
proof -
  assume conn: "is_connected conn" and clean: "work conn = committed conn"
  obtain m1 c1 where l1: "load_customers conn customers_df = (m1, c1)"
    by (cases "load_customers conn customers_df")
  obtain m2 c2 where l2: "load_products conn products_df = (m2, c2)"
    by (cases "load_products conn products_df")
  have r1: "(if customers_df = [] then (Map.empty, conn)
             else case try_insert_all insert_customer customer_tuple customer_key conn customers_df of
                    (Inl e, conn') \<Rightarrow> (Map.empty, rollback conn')
                  | (Inr m, conn') \<Rightarrow> (m, conn')) = (m1, c1)"
    using l1 conn unfolding load_customers_def try_load_customers_def
    by (simp split: if_splits)
  have r2: "(if products_df = [] then (Map.empty, conn)
             else case try_insert_all insert_product product_tuple product_key conn products_df of
                    (Inl e, conn') \<Rightarrow> (Map.empty, rollback conn')
                  | (Inr m, conn') \<Rightarrow> (m, conn')) = (m2, c2)"
    using l2 conn unfolding load_products_def try_load_products_def
    by (simp split: if_splits)
  note A = load_step_contract [of insert_customer customers, OF _ _ clean r1,
      unfolded try_load_customers_def [symmetric]]
  note B = load_step_contract [of insert_product products, OF _ _ clean r2,
      unfolded try_load_products_def [symmetric]]
  have A': "(customers_df \<noteq> [] \<and> (\<exists>e c. try_load_customers conn customers_df = (Inl e, c)) \<longrightarrow>
           m1 = Map.empty \<and> work c1 = work conn \<and> committed c1 = committed conn)
        \<and> (\<not> (customers_df \<noteq> [] \<and> (\<exists>e c. try_load_customers conn customers_df = (Inl e, c))) \<longrightarrow>
             (\<exists>ids. length ids = length customers_df
                \<and> customers (committed c1) =
                    customers (committed conn) @ zip ids (map customer_tuple customers_df)
                \<and> work c1 = committed c1
                \<and> dom m1 = customer_key ` set customers_df
                \<and> (distinct (map customer_key customers_df) \<longrightarrow>
                     (\<forall>j<length customers_df. m1 (customer_key (customers_df ! j)) = Some (ids ! j)))))"
    by (rule A) (auto dest: insert_customer_frame insert_customer_ok)
  have B': "(products_df \<noteq> [] \<and> (\<exists>e c. try_load_products conn products_df = (Inl e, c)) \<longrightarrow>
           m2 = Map.empty \<and> work c2 = work conn \<and> committed c2 = committed conn)
        \<and> (\<not> (products_df \<noteq> [] \<and> (\<exists>e c. try_load_products conn products_df = (Inl e, c))) \<longrightarrow>
             (\<exists>ids. length ids = length products_df
                \<and> products (committed c2) =
                    products (committed conn) @ zip ids (map product_tuple products_df)
                \<and> work c2 = committed c2
                \<and> dom m2 = product_key ` set products_df
                \<and> (distinct (map product_key products_df) \<longrightarrow>
                     (\<forall>j<length products_df. m2 (product_key (products_df ! j)) = Some (ids ! j)))))"
    by (rule B) (auto dest: insert_product_frame insert_product_ok)
  show ?thesis unfolding l1 l2 prod.case using A' B' by blast
qed

theorem load_step_atomic_witness:
  "is_connected fresh_connection \<and> work fresh_connection = committed fresh_connection
   \<and> namesake_customers \<noteq> []
   \<and> isl (fst (try_load_customers fresh_connection namesake_customers))
   \<and> projl (fst (try_load_customers fresh_connection namesake_customers)) = IntegrityError
   \<and> fst (load_customers fresh_connection namesake_customers) = Map.empty
   \<and> work (snd (load_customers fresh_connection namesake_customers)) = work fresh_connection
   \<and> customers (committed (snd (load_customers fresh_connection namesake_customers))) = []
   \<and> fst (load_customers fresh_connection loaded_customers) ''C1'' = Some 1
   \<and> fst (load_customers fresh_connection loaded_customers) ''C2'' = Some 2
   \<and> map fst (customers (committed (snd (load_customers fresh_connection loaded_customers))))
        = [1, 2]
   \<and> fst (load_products fresh_connection loaded_products) ''P2'' = Some 2
   \<and> map fst (products (committed (snd (load_products fresh_connection loaded_products))))
        = [1, 2]"
proof -
  have h: "is_connected fresh_connection" "work fresh_connection = committed fresh_connection"
    by code_simp+
  have f: "namesake_customers \<noteq> []"
    "isl (fst (try_load_customers fresh_connection namesake_customers))"
    "projl (fst (try_load_customers fresh_connection namesake_customers)) = IntegrityError"
    by code_simp+
  have e: "customers (committed (snd (load_customers fresh_connection namesake_customers))) = []
   \<and> fst (load_customers fresh_connection loaded_customers) ''C1'' = Some 1
   \<and> fst (load_customers fresh_connection loaded_customers) ''C2'' = Some 2
   \<and> map fst (customers (committed (snd (load_customers fresh_connection loaded_customers))))
        = [1, 2]
   \<and> fst (load_products fresh_connection loaded_products) ''P2'' = Some 2
   \<and> map fst (products (committed (snd (load_products fresh_connection loaded_products))))
        = [1, 2]"
    by code_simp
  from f(2) have "\<exists>e c. try_load_customers fresh_connection namesake_customers = (Inl e, c)"
    by (metis prod.collapse isl_def)
  with load_step_atomic [OF h, of namesake_customers loaded_products] f(1)
  have "fst (load_customers fresh_connection namesake_customers) = Map.empty
      \<and> work (snd (load_customers fresh_connection namesake_customers)) = work fresh_connection"
    by (auto split: prod.splits)
  with h f e show ?thesis by simp
qed

subsection \<open>Helper lemmas: the load phase\<close>

lemma delete_frames:
  "delete_order_items conn = (res, conn') \<Longrightarrow>
     is_connected conn' = is_connected conn \<and> committed conn' = committed conn"
  "delete_orders conn = (res, conn') \<Longrightarrow>
     is_connected conn' = is_connected conn \<and> committed conn' = committed conn"
  "delete_customers conn = (res, conn') \<Longrightarrow>
     is_connected conn' = is_connected conn \<and> committed conn' = committed conn"
  "delete_products conn = (res, conn') \<Longrightarrow>
     is_connected conn' = is_connected conn \<and> committed conn' = committed conn"
  by (cases "next_fault conn";
      auto simp: delete_order_items_def delete_orders_def delete_customers_def
        delete_products_def dest!: next_fault_fields split: if_splits)+

lemma try_clear_result:
  assumes "try_clear conn = (res, conn')"
  shows "is_connected conn' = is_connected conn"
    and "\<not> isl res \<Longrightarrow> work conn' = committed conn'"
proof -
  obtain r1 c1 where d1: "delete_order_items conn = (r1, c1)" by (cases "delete_order_items conn")
  obtain r2 c2 where d2: "delete_orders c1 = (r2, c2)" by (cases "delete_orders c1")
  obtain r3 c3 where d3: "delete_customers c2 = (r3, c3)" by (cases "delete_customers c2")
  obtain r4 c4 where d4: "delete_products c3 = (r4, c4)" by (cases "delete_products c3")
  obtain r5 c5 where d5: "commit c4 = (r5, c5)" by (cases "commit c4")
  note f = delete_frames(1) [OF d1] delete_frames(2) [OF d2] delete_frames(3) [OF d3]
    delete_frames(4) [OF d4] commit_cases [OF d5]
  from assms d1 d2 d3 d4 d5 f show "is_connected conn' = is_connected conn"
    by (cases r1; cases r2; cases r3; cases r4) (auto simp: try_clear_def)
  from assms d1 d2 d3 d4 d5 f show "work conn' = committed conn'" if "\<not> isl res"
    using that by (cases r1; cases r2; cases r3; cases r4; cases r5) (auto simp: try_clear_def)
qed

lemma clear_existing_data_result:
  "is_connected (clear_existing_data conn) = is_connected conn"
  "work (clear_existing_data conn) = committed (clear_existing_data conn)"
proof -
  obtain res c where t: "try_clear conn = (res, c)" by (cases "try_clear conn")
  from try_clear_result [OF t] show "is_connected (clear_existing_data conn) = is_connected conn"
    by (cases res) (simp_all add: clear_existing_data_def t rollback_def)
  from try_clear_result [OF t] show
    "work (clear_existing_data conn) = committed (clear_existing_data conn)"
    by (cases res) (simp_all add: clear_existing_data_def t rollback_def)
qed

lemma try_insert_all_connected:
  assumes frame: "\<And>c r res c'. ins c r = (res, c') \<Longrightarrow> is_connected c' = is_connected c"
    and t: "try_insert_all ins t k conn df = (res, conn')"
  shows "is_connected conn' = is_connected conn"
proof -
  obtain r c1 where l: "insert_rows ins t k conn df Map.empty = (r, c1)"
    by (cases "insert_rows ins t k conn df Map.empty")
  have c1: "is_connected c1 = is_connected conn"
    using insert_rows_invariant [of ins "\<lambda>c. is_connected c = is_connected conn", OF _ l]
    by (simp add: frame)
  show ?thesis
  proof (cases r)
    case (Inl e')
    with t l have "conn' = c1" by (simp add: try_insert_all_def)
    with c1 show ?thesis by simp
  next
    case (Inr m)
    obtain r2 c2 where c: "commit c1 = (r2, c2)" by (cases "commit c1")
    with t l Inr have "conn' = c2"
      by (auto simp: try_insert_all_def split: sum.splits)
    with commit_cases [OF c] c1 show ?thesis by simp
  qed
qed

lemma try_insert_all_clean:
  assumes "try_insert_all ins t k conn df = (Inr m, conn')"
  shows "work conn' = committed conn'"
proof -
  obtain r c1 where l: "insert_rows ins t k conn df Map.empty = (r, c1)"
    by (cases "insert_rows ins t k conn df Map.empty")
  obtain r2 c2 where c: "commit c1 = (r2, c2)" by (cases "commit c1")
  from assms l c have "r2 = Inr ()" "conn' = c2"
    by (auto simp: try_insert_all_def split: sum.splits)
  with commit_cases [OF c] show ?thesis by simp
qed

text \<open>
  What \<^verbatim>\<open>load\<close> relies on after a step of the shape of the three parent steps: the
  connection is still open and has no uncommitted changes, and a failed step has left the
  committed rows alone and handed back the empty mapping.
\<close>

lemma load_step_outcome:
  assumes conn_frame: "\<And>c r res c'. ins c r = (res, c') \<Longrightarrow> is_connected c' = is_connected c"
    and frame: "\<And>c r res c'. ins c r = (res, c') \<Longrightarrow> committed c' = committed c"
    and conn: "is_connected conn" and clean: "work conn = committed conn"
    and res: "(if df = [] then (Map.empty, conn)
               else case try_insert_all ins t k conn df of
                      (Inl e, conn') \<Rightarrow> (Map.empty, rollback conn')
                    | (Inr m, conn') \<Rightarrow> (m, conn')) = (m, conn')"
  shows "is_connected conn'" and "work conn' = committed conn'"
    and "df \<noteq> [] \<Longrightarrow> try_insert_all ins t k conn df = (Inl e, c) \<Longrightarrow>
           m = Map.empty \<and> conn' = rollback c \<and> committed conn' = committed conn"
proof -
  obtain r c0 where t: "try_insert_all ins t k conn df = (r, c0)"
    by (cases "try_insert_all ins t k conn df")
  have "is_connected c0 = is_connected conn"
    by (rule try_insert_all_connected [of ins, OF _ t]) (erule conn_frame)
  with conn have c0: "is_connected c0" by simp
  from res t c0 conn show "is_connected conn'"
    by (cases r) (auto simp: rollback_def split: if_splits)
  show "work conn' = committed conn'"
  proof (cases "df = []")
    case True
    with res clean show ?thesis by simp
  next
    case False
    show ?thesis
    proof (cases r)
      case (Inl e')
      with res False t show ?thesis by (auto simp: rollback_def)
    next
      case (Inr m')
      with res False t try_insert_all_clean [of ins t k conn df m' c0] show ?thesis by auto
    qed
  qed
  show "m = Map.empty \<and> conn' = rollback c \<and> committed conn' = committed conn"
    if ne: "df \<noteq> []" and f: "try_insert_all ins t k conn df = (Inl e, c)"
  proof -
    have "committed c = committed conn"
      by (rule try_insert_all_fail [of ins, OF _ f]) (erule frame)
    with res ne f show ?thesis by (auto simp: rollback_def)
  qed
qed

lemma load_customers_outcome:
  assumes "is_connected conn" "work conn = committed conn"
    and "load_customers conn df = (m, conn')"
  shows "is_connected conn'" and "work conn' = committed conn'"
    and "df \<noteq> [] \<Longrightarrow> try_load_customers conn df = (Inl e, c) \<Longrightarrow>
           m = Map.empty \<and> conn' = rollback c \<and> committed conn' = committed conn"
proof -
  have r: "(if df = [] then (Map.empty, conn)
             else case try_insert_all insert_customer customer_tuple customer_key conn df of
                    (Inl e, conn') \<Rightarrow> (Map.empty, rollback conn')
                  | (Inr m, conn') \<Rightarrow> (m, conn')) = (m, conn')"
    using assms unfolding load_customers_def try_load_customers_def by (simp split: if_splits)
  note L = load_step_outcome [of insert_customer, OF _ _ assms(1,2) r,
      unfolded try_load_customers_def [symmetric]]
  show "is_connected conn'"
    by (rule L(1)) (auto dest: insert_customer_frame)
  show "work conn' = committed conn'"
    by (rule L(2)) (auto dest: insert_customer_frame)
  show "m = Map.empty \<and> conn' = rollback c \<and> committed conn' = committed conn"
    if "df \<noteq> []" "try_load_customers conn df = (Inl e, c)"
    by (rule L(3) [OF _ _ that]) (auto dest: insert_customer_frame)
qed

lemma load_products_outcome:
  assumes "is_connected conn" "work conn = committed conn"
    and "load_products conn df = (m, conn')"
  shows "is_connected conn'" and "work conn' = committed conn'"
    and "df \<noteq> [] \<Longrightarrow> try_load_products conn df = (Inl e, c) \<Longrightarrow>
           m = Map.empty \<and> conn' = rollback c \<and> committed conn' = committed conn"
proof -
  have r: "(if df = [] then (Map.empty, conn)
             else case try_insert_all insert_product product_tuple product_key conn df of
                    (Inl e, conn') \<Rightarrow> (Map.empty, rollback conn')
                  | (Inr m, conn') \<Rightarrow> (m, conn')) = (m, conn')"
    using assms unfolding load_products_def try_load_products_def by (simp split: if_splits)
  note L = load_step_outcome [of insert_product, OF _ _ assms(1,2) r,
      unfolded try_load_products_def [symmetric]]
  show "is_connected conn'"
    by (rule L(1)) (auto dest: insert_product_frame)
  show "work conn' = committed conn'"
    by (rule L(2)) (auto dest: insert_product_frame)
  show "m = Map.empty \<and> conn' = rollback c \<and> committed conn' = committed conn"
    if "df \<noteq> []" "try_load_products conn df = (Inl e, c)"
    by (rule L(3) [OF _ _ that]) (auto dest: insert_product_frame)
qed

lemma load_orders_failed:
  assumes "is_connected conn" "work conn = committed conn"
    and "df \<noteq> []" "try_load_orders conn df = (Inl e, c)"
  shows "load_orders conn df = (Some Map.empty, rollback c)"
    and "committed (rollback c) = committed conn"
proof -
  show "load_orders conn df = (Some Map.empty, rollback c)"
    using assms by (simp add: load_orders_def)
  have "committed c = committed conn"
    using try_insert_all_fail [of insert_order order_tuple order_id conn df e c] assms(4)
    by (auto simp: try_load_orders_def dest: insert_order_frame)
  then show "committed (rollback c) = committed conn"
    by (simp add: rollback_def)
qed

lemma map_filter_all_None: "(\<And>x. x \<in> set xs \<Longrightarrow> f x = None) \<Longrightarrow> List.map_filter f xs = []"
  by (induction xs) (simp_all add: List.map_filter_def)

lemma transform_sales_to_orders_unmapped:
  "transform_sales_to_orders fl sales_df Map.empty pm = Inr ([], [])"
  "transform_sales_to_orders fl sales_df cm Map.empty = Inr ([], [])"
proof -
  have a: "List.map_filter (map_sale fl Map.empty pm) sales_df = []"
    by (rule map_filter_all_None) (simp add: map_sale_def split: option.splits)
  have b: "List.map_filter (map_sale fl cm Map.empty) sales_df = []"
    by (rule map_filter_all_None) (simp add: map_sale_def split: option.splits)
  have k: "group_keys [] = []"
    by (simp add: group_keys_def List.map_filter_def)
  show "transform_sales_to_orders fl sales_df Map.empty pm = Inr ([], [])"
    by (simp add: transform_sales_to_orders_def a k)
  show "transform_sales_to_orders fl sales_df cm Map.empty = Inr ([], [])"
    by (simp add: transform_sales_to_orders_def b k)
qed

lemma load_orders_Nil: "load_orders conn [] = (None, conn)"
  by (simp add: load_orders_def)

lemma rewrite_order_ids_empty: "rewrite_order_ids Map.empty df = []"
  by (simp add: rewrite_order_ids_def map_filter_all_None)

lemma load_order_items_Nil: "load_order_items conn [] m = conn"
  by (simp add: load_order_items_def)

lemma load_order_items_failed:
  assumes "try_load_order_items conn df m = (Inl e, c)" "df \<noteq> []" "is_connected conn"
  shows "load_order_items conn df m = rollback c" and "committed (rollback c) = committed conn"
proof -
  show "load_order_items conn df m = rollback c"
    using assms by (simp add: load_order_items_def)
  have inv: "insert_order_items conn0 df0 m = (r, c0) \<Longrightarrow> committed c0 = committed conn0"
    for conn0 df0 r c0
  proof (induction df0 arbitrary: conn0)
    case Nil
    then show ?case by simp
  next
    case (Cons row rest)
    show ?case
    proof (cases "m (item_order_id row)")
      case None
      with Cons show ?thesis by simp
    next
      case (Some i)
      let ?r = "\<lparr>oi_order_id = i, oi_product_id = item_product_id row,
                 oi_quantity = item_quantity row, oi_unit_price = item_unit_price row,
                 oi_subtotal = item_subtotal row\<rparr>"
      obtain r1 c1 where i1: "insert_order_item conn0 ?r = (r1, c1)"
        by (cases "insert_order_item conn0 ?r")
      from insert_order_item_frame [OF i1] have f: "committed c1 = committed conn0" by simp
      show ?thesis
      proof (cases r1)
        case (Inl e1)
        with Cons.prems Some i1 f show ?thesis by simp
      next
        case (Inr l)
        with Cons.prems Some i1 have "insert_order_items c1 rest m = (r, c0)" by simp
        from Cons.IH [OF this] f show ?thesis by simp
      qed
    qed
  qed
  obtain r1 c1 where l: "insert_order_items conn df m = (r1, c1)"
    by (cases "insert_order_items conn df m")
  from inv [OF l] have c1: "committed c1 = committed conn" .
  have "committed c = committed conn"
  proof (cases r1)
    case (Inl e1)
    with assms(1) l c1 show ?thesis by (simp add: try_load_order_items_def)
  next
    case (Inr u)
    with assms(1) l have "commit c1 = (Inl e, c)" by (simp add: try_load_order_items_def)
    from commit_cases [OF this] c1 show ?thesis by simp
  qed
  then show "committed (rollback c) = committed conn" by (simp add: rollback_def)
qed

lemma load_unfold:
  assumes "is_connected conn"
    and "load_customers (clear_existing_data conn) customers_df = (cm, c2)"
    and "load_products c2 products_df = (pm, c3)"
  shows "load fl conn customers_df products_df sales_df =
     (case transform_sales_to_orders fl sales_df cm pm of
        Inl e \<Rightarrow> (Some e, c3)
      | Inr (orders_df, order_items_df) \<Rightarrow>
          (case load_orders c3 orders_df of
             (order_id_mapping, c4) \<Rightarrow>
               if length order_items_df > 0
               then (case order_id_mapping of
                       None \<Rightarrow> (Some TypeError, c4)
                     | Some m \<Rightarrow>
                         (None, close (load_order_items c4 (rewrite_order_ids m order_items_df) m)))
               else (None, close c4)))"
  unfolding load_def Let_def using assms
  by (simp split: sum.splits prod.splits option.splits)

subsection \<open>C5: a failed load step and the steps after it\<close>

text \<open>
  C5 (as stated, it fails). Two namesakes without email get the same synthesized email;
  the second insert violates \<^verbatim>\<open>UNIQUE\<close> and the customers step fails. The products step,
  which comes after it, is not skipped: it persists its rows.
\<close>

theorem load_runs_products_after_failed_customers_counterexample:
  "namesake_customers \<noteq> []
   \<and> isl (fst (try_load_customers (clear_existing_data fresh_connection) namesake_customers))
   \<and> customers (committed
        (snd (load exact_float_ops fresh_connection namesake_customers loaded_products two_day_sales))) = []
   \<and> map fst (products (committed
        (snd (load exact_float_ops fresh_connection namesake_customers loaded_products two_day_sales)))) = [1, 2]"
  by code_simp

text \<open>
  C5, amended. A load step that fails with a store error does not halt the load phase:
  the step is rolled back and every later step is still called, on the store the
  rollback leaves.
  \<^item> When the customers step fails, the committed rows are those the purge left, and the
    load phase ends with the store that the products step leaves (the empty customer
    mapping filters out every sales line, so no order and no order item is inserted).
  \<^item> When the products step fails, the rows committed by the customers step stay, and the
    load phase ends with the store the products step's rollback leaves.
  \<^item> When the orders step fails, the rows committed by the customers and products steps
    stay, and the load phase ends with the store its rollback leaves (every order item
    is dropped for lack of a mapping entry).
  \<^item> When the order-items step fails, the rows committed before it stay.
\<close>

theorem failed_step_does_not_halt_load:
  "is_connected conn \<Longrightarrow>
   (let c1 = clear_existing_data conn;
        r2 = load_customers c1 customers_df;
        r3 = load_products (snd r2) products_df
    in (customers_df \<noteq> [] \<and> (\<exists>e c. try_load_customers c1 customers_df = (Inl e, c)) \<longrightarrow>
          committed (snd r2) = committed c1
          \<and> load fl conn customers_df products_df sales_df = (None, close (snd r3)))
     \<and> (products_df \<noteq> [] \<and> (\<exists>e c. try_load_products (snd r2) products_df = (Inl e, c)) \<longrightarrow>
          committed (snd r3) = committed (snd r2)
          \<and> load fl conn customers_df products_df sales_df = (None, close (snd r3)))
     \<and> (\<forall>orders_df order_items_df.
          transform_sales_to_orders fl sales_df (fst r2) (fst r3) = Inr (orders_df, order_items_df)
          \<and> orders_df \<noteq> [] \<and> (\<exists>e c. try_load_orders (snd r3) orders_df = (Inl e, c)) \<longrightarrow>
            committed (snd (load_orders (snd r3) orders_df)) = committed (snd r3)
            \<and> load fl conn customers_df products_df sales_df =
                (None, close (snd (load_orders (snd r3) orders_df))))
     \<and> (\<forall>c df m. is_connected c \<and> df \<noteq> [] \<and> (\<exists>e c'. try_load_order_items c df m = (Inl e, c')) \<longrightarrow>
          committed (load_order_items c df m) = committed c))"
proof -
  assume conn: "is_connected conn"
  define c1 where "c1 = clear_existing_data conn"
  obtain cm c2 where r2: "load_customers c1 customers_df = (cm, c2)"
    by (cases "load_customers c1 customers_df")
  obtain pm c3 where r3: "load_products c2 products_df = (pm, c3)"
    by (cases "load_products c2 products_df")
  have c1: "is_connected c1" "work c1 = committed c1"
    using conn by (simp_all add: c1_def clear_existing_data_result)
  note o2 = load_customers_outcome [OF c1 r2]
  note o3 = load_products_outcome [OF o2(1,2) r3]
  note L = load_unfold [OF conn r2 [unfolded c1_def] r3, of fl sales_df]
  have A: "committed c2 = committed c1
      \<and> load fl conn customers_df products_df sales_df = (None, close c3)"
    if "customers_df \<noteq> []" "\<exists>e c. try_load_customers c1 customers_df = (Inl e, c)"
  proof -
    from that obtain e c where "try_load_customers c1 customers_df = (Inl e, c)" by blast
    from o2(3) [OF that(1) this] have "cm = Map.empty" "committed c2 = committed c1" by blast+
    then show ?thesis
      unfolding L by (simp add: transform_sales_to_orders_unmapped load_orders_Nil)
  qed
  have B: "committed c3 = committed c2
      \<and> load fl conn customers_df products_df sales_df = (None, close c3)"
    if "products_df \<noteq> []" "\<exists>e c. try_load_products c2 products_df = (Inl e, c)"
  proof -
    from that obtain e c where "try_load_products c2 products_df = (Inl e, c)" by blast
    from o3(3) [OF that(1) this] have "pm = Map.empty" "committed c3 = committed c2" by blast+
    then show ?thesis
      unfolding L by (simp add: transform_sales_to_orders_unmapped load_orders_Nil)
  qed
  have C: "committed (snd (load_orders c3 orders_df)) = committed c3
      \<and> load fl conn customers_df products_df sales_df = (None, close (snd (load_orders c3 orders_df)))"
    if "transform_sales_to_orders fl sales_df cm pm = Inr (orders_df, order_items_df)"
      "orders_df \<noteq> []" "\<exists>e c. try_load_orders c3 orders_df = (Inl e, c)"
    for orders_df order_items_df
  proof -
    from that obtain e c where t: "try_load_orders c3 orders_df = (Inl e, c)" by blast
    note F = load_orders_failed [OF o3(1,2) that(2) t]
    show ?thesis
      unfolding L that(1)
      by (simp add: F rewrite_order_ids_empty load_order_items_Nil)
  qed
  have D: "committed (load_order_items c df m) = committed c"
    if "is_connected c" "df \<noteq> []" "\<exists>e c'. try_load_order_items c df m = (Inl e, c')" for c df m
  proof -
    from that obtain e c' where t: "try_load_order_items c df m = (Inl e, c')" by blast
    from load_order_items_failed [OF t that(2,1)] show ?thesis by simp
  qed
  show ?thesis
    unfolding Let_def c1_def [symmetric] r2 r3 fst_conv snd_conv
    using A B C D by blast
qed

theorem failed_step_does_not_halt_load_witness:
  "is_connected products_fault_connection
   \<and> loaded_products \<noteq> []
   \<and> isl (fst (try_load_products
        (snd (load_customers (clear_existing_data products_fault_connection) loaded_customers))
        loaded_products))
   \<and> load exact_float_ops products_fault_connection loaded_customers loaded_products two_day_sales =
       (None, close (snd (load_products
          (snd (load_customers (clear_existing_data products_fault_connection) loaded_customers))
          loaded_products)))
   \<and> map fst (customers (committed
        (snd (load exact_float_ops products_fault_connection loaded_customers loaded_products two_day_sales))))
       = [1, 2]
   \<and> products (committed
        (snd (load exact_float_ops products_fault_connection loaded_customers loaded_products two_day_sales)))
       = []"
proof -
  have h: "is_connected products_fault_connection" by code_simp
  have f: "loaded_products \<noteq> []"
    "isl (fst (try_load_products
        (snd (load_customers (clear_existing_data products_fault_connection) loaded_customers))
        loaded_products))"
    by code_simp+
  have e: "map fst (customers (committed
        (snd (load exact_float_ops products_fault_connection loaded_customers loaded_products two_day_sales))))
       = [1, 2]
   \<and> products (committed
        (snd (load exact_float_ops products_fault_connection loaded_customers loaded_products two_day_sales)))
       = []"
    by code_simp
  from f(2) have "\<exists>e c. try_load_products
        (snd (load_customers (clear_existing_data products_fault_connection) loaded_customers))
        loaded_products = (Inl e, c)"
    by (metis prod.collapse isl_def)
  with failed_step_does_not_halt_load
    [OF h, of loaded_customers loaded_products exact_float_ops two_day_sales] f(1)
  have "load exact_float_ops products_fault_connection loaded_customers loaded_products two_day_sales =
       (None, close (snd (load_products
          (snd (load_customers (clear_existing_data products_fault_connection) loaded_customers))
          loaded_products)))"
    unfolding Let_def by blast
  with h f e show ?thesis by simp
qed

subsection \<open>C1: the order id under which an order item is persisted\<close>

text \<open>
  C1. \<^verbatim>\<open>load\<close> rewrites \<^verbatim>\<open>order_id\<close> of the order items to the persisted ids, and
  \<^verbatim>\<open>load_order_items\<close> then looks the rewritten id up in the same mapping once more. On a
  store whose \<^verbatim>\<open>orders\<close> counter stands at 2 the two orders get the ids 2 and 3; the item
  of the first order (15 January, persisted id 2) is inserted under order 3 and the item
  of the second order is skipped. Loading the one-day sales a second time persists the
  order and none of its items.
\<close>

theorem load_rewrites_order_ids_twice:
  "orders (committed (snd (load exact_float_ops store_after_first_run loaded_customers loaded_products two_day_sales)))
     = [(2, \<lparr>or_customer_id = 3, or_order_date = ''2024-01-15'', or_total_amount = 10,
             or_status = ''Pending''\<rparr>),
        (3, \<lparr>or_customer_id = 3, or_order_date = ''2024-01-16'', or_total_amount = 40,
             or_status = ''Completed''\<rparr>)]
   \<and> order_items (committed (snd (load exact_float_ops store_after_first_run loaded_customers loaded_products two_day_sales)))
     = [(2, \<lparr>oi_order_id = 3, oi_product_id = 3, oi_quantity = 1, oi_unit_price = Some 10,
             oi_subtotal = Some 10\<rparr>)]
   \<and> map fst (orders (committed (snd (load exact_float_ops store_after_first_run loaded_customers loaded_products one_day_sales))))
     = [2]
   \<and> order_items (committed (snd (load exact_float_ops store_after_first_run loaded_customers loaded_products one_day_sales)))
     = []"
  by code_simp

subsection \<open>Dates written with four, two and two digits\<close>

lemma of_char_digit_char: "n < 10 \<Longrightarrow> (of_char (digit_char n) :: nat) = 48 + n"
  by (simp add: digit_char_def)

lemma digit_char_props:
  assumes "n < 10"
  shows "is_digit (digit_char n)" and "\<not> is_space (digit_char n)"
    and "digit_value (digit_char n) = n"
    and "char_in CHR ''0'' CHR ''1'' (digit_char n) \<longleftrightarrow> n \<le> 1"
    and "char_in CHR ''0'' CHR ''2'' (digit_char n) \<longleftrightarrow> n \<le> 2"
    and "char_in CHR ''1'' CHR ''2'' (digit_char n) \<longleftrightarrow> 1 \<le> n \<and> n \<le> 2"
    and "char_in CHR ''1'' CHR ''9'' (digit_char n) \<longleftrightarrow> 1 \<le> n"
  using assms
  by (auto simp: is_digit_def is_space_def digit_value_def char_in_def of_char_digit_char Let_def)

lemma digit_char_eq:
  assumes "n < 10"
  shows "CHR ''0'' = digit_char n \<longleftrightarrow> n = 0"
    and "CHR ''1'' = digit_char n \<longleftrightarrow> n = 1"
    and "CHR ''3'' = digit_char n \<longleftrightarrow> n = 3"
    and "CHR '' '' = digit_char n \<longleftrightarrow> False"
proof -
  have inj: "c = digit_char n \<longleftrightarrow> (of_char c :: nat) = 48 + n" for c
    using assms of_char_digit_char [OF assms]
    by (metis of_char_eq_iff)
  show "CHR ''0'' = digit_char n \<longleftrightarrow> n = 0" by (simp add: inj)
  show "CHR ''1'' = digit_char n \<longleftrightarrow> n = 1" by (simp add: inj)
  show "CHR ''3'' = digit_char n \<longleftrightarrow> n = 3" by (simp add: inj)
  show "CHR '' '' = digit_char n \<longleftrightarrow> False" by (simp add: inj)
qed

lemma strip_unchanged:
  "s \<noteq> [] \<Longrightarrow> \<not> is_space (hd s) \<Longrightarrow> \<not> is_space (last s) \<Longrightarrow> strip s = s"
proof -
  assume ne: "s \<noteq> []" and h: "\<not> is_space (hd s)" and l: "\<not> is_space (last s)"
  from ne h have a: "dropWhile is_space s = s" by (cases s) auto
  from ne l have "\<not> is_space (hd (rev s))" by (simp add: hd_rev)
  with ne have b: "dropWhile is_space (rev s) = rev s" by (cases "rev s") auto
  show ?thesis by (simp add: strip_def a b)
qed

lemma py_int_zero_pad2: "n < 100 \<Longrightarrow> py_int (zero_pad2 n) = n"
proof -
  assume n: "n < 100"
  have d: "n div 10 mod 10 < 10" "n mod 10 < 10" by simp_all
  have s: "strip (zero_pad2 n) = zero_pad2 n"
    by (rule strip_unchanged) (simp_all add: zero_pad2_def digit_char_props(2))
  from n have "10 * (n div 10 mod 10) + n mod 10 = n" by simp
  then show ?thesis
    unfolding py_int_def s by (simp add: zero_pad2_def digit_char_props(3))
qed

lemma py_int_zero_pad4: "n < 10000 \<Longrightarrow> py_int (zero_pad4 n) = n"
proof -
  assume n: "n < 10000"
  define q1 q2 q3 where "q1 = n div 10" and "q2 = n div 100" and "q3 = n div 1000"
  define d0 d1 d2 d3 where "d0 = n mod 10" and "d1 = n div 10 mod 10"
    and "d2 = n div 100 mod 10" and "d3 = n div 1000 mod 10"
  have s: "strip (zero_pad4 n) = zero_pad4 n"
    by (rule strip_unchanged) (simp_all add: zero_pad4_def digit_char_props(2))
  have a: "n = 10 * q1 + d0" by (simp add: q1_def d0_def)
  have b: "q1 = 10 * q2 + d1"
    using div_mult2_eq [of n 10 10] by (simp add: q1_def q2_def d1_def)
  have c: "q2 = 10 * q3 + d2"
    using div_mult2_eq [of n 100 10] by (simp add: q2_def q3_def d2_def)
  from n have d: "d3 = q3" by (simp add: d3_def q3_def)
  have lt: "d0 < 10" "d1 < 10" "d2 < 10" "d3 < 10"
    by (simp_all add: d0_def d1_def d2_def d3_def)
  have "10 * (10 * (10 * d3 + d2) + d1) + d0 = 10 * (10 * q2 + d1) + d0"
    unfolding d using c by simp
  also have "\<dots> = 10 * q1 + d0" using b by simp
  also have "\<dots> = n" using a by simp
  finally have e: "10 * (10 * (10 * d3 + d2) + d1) + d0 = n" .
  have "zero_pad4 n = [digit_char d3, digit_char d2, digit_char d1, digit_char d0]"
    by (simp add: zero_pad4_def d0_def d1_def d2_def d3_def)
  then show ?thesis
    unfolding py_int_def s using lt e by (simp add: digit_char_props(3))
qed

lemma alternatives_Y: "alternatives Dir_Y (zero_pad4 y @ r) = [(zero_pad4 y, r)]"
  by (simp add: zero_pad4_def digit_char_props(1))

lemma alternatives_Lit: "alternatives (Lit c) (c # r) = [([c], r)]"
  by simp

lemma zero_pad2_digits:
  "zero_pad2 n = [digit_char (n div 10 mod 10), digit_char (n mod 10)]"
  by (simp add: zero_pad2_def)

lemma alternatives_m_digits:
  assumes "a < 10" "b < 10" "(a = 0 \<and> 1 \<le> b) \<or> (a = 1 \<and> b \<le> 2)"
  shows "\<exists>alts. alternatives Dir_m (digit_char a # digit_char b # r) =
           ([digit_char a, digit_char b], r) # alts"
  using assms by (auto simp: digit_char_eq digit_char_props)

lemma alternatives_d_digits:
  assumes "a < 10" "b < 10" "(a = 0 \<and> 1 \<le> b) \<or> a = 1 \<or> a = 2 \<or> (a = 3 \<and> b \<le> 1)"
  shows "\<exists>alts. alternatives Dir_d (digit_char a # digit_char b # r) =
           ([digit_char a, digit_char b], r) # alts"
  using assms by (auto simp: digit_char_eq digit_char_props)

lemma two_digits:
  fixes n :: nat
  shows "n < 10 \<Longrightarrow> n div 10 mod 10 = 0 \<and> n mod 10 = n"
    and "10 \<le> n \<Longrightarrow> n < 20 \<Longrightarrow> n div 10 mod 10 = 1 \<and> n mod 10 = n - 10"
    and "20 \<le> n \<Longrightarrow> n < 30 \<Longrightarrow> n div 10 mod 10 = 2 \<and> n mod 10 = n - 20"
    and "30 \<le> n \<Longrightarrow> n < 40 \<Longrightarrow> n div 10 mod 10 = 3 \<and> n mod 10 = n - 30"
proof -
  show "n < 10 \<Longrightarrow> n div 10 mod 10 = 0 \<and> n mod 10 = n" by simp
  have *: "n div 10 = q \<and> n mod 10 = n - 10 * q" if "10 * q \<le> n" "n < 10 * Suc q" for q
  proof -
    from that have q: "n div 10 = q" by (intro div_nat_eqI) simp_all
    have "n mod 10 = n - 10 * (n div 10)" by (simp add: minus_mult_div_eq_mod)
    with q show ?thesis by simp
  qed
  show "10 \<le> n \<Longrightarrow> n < 20 \<Longrightarrow> n div 10 mod 10 = 1 \<and> n mod 10 = n - 10"
    using * [of 1] by simp
  show "20 \<le> n \<Longrightarrow> n < 30 \<Longrightarrow> n div 10 mod 10 = 2 \<and> n mod 10 = n - 20"
    using * [of 2] by simp
  show "30 \<le> n \<Longrightarrow> n < 40 \<Longrightarrow> n div 10 mod 10 = 3 \<and> n mod 10 = n - 30"
    using * [of 3] by simp
qed

lemma alternatives_m:
  assumes "1 \<le> m" "m \<le> 12"
  shows "\<exists>alts. alternatives Dir_m (zero_pad2 m @ r) = (zero_pad2 m, r) # alts"
proof -
  define a b where "a = m div 10 mod 10" and "b = m mod 10"
  have lt: "a < 10" "b < 10" by (simp_all add: a_def b_def)
  have "(a = 0 \<and> 1 \<le> b) \<or> (a = 1 \<and> b \<le> 2)"
  proof (cases "m < 10")
    case True
    from two_digits(1) [OF True] assms show ?thesis by (simp add: a_def b_def)
  next
    case False
    then have "10 \<le> m" "m < 20" using assms by simp_all
    from two_digits(2) [OF this] assms show ?thesis by (simp add: a_def b_def)
  qed
  from alternatives_m_digits [OF lt this, of r] show ?thesis
    unfolding zero_pad2_digits a_def b_def append_Cons append_Nil .
qed

lemma alternatives_d:
  assumes "1 \<le> d" "d \<le> 31"
  shows "\<exists>alts. alternatives Dir_d (zero_pad2 d @ r) = (zero_pad2 d, r) # alts"
proof -
  define a b where "a = d div 10 mod 10" and "b = d mod 10"
  have lt: "a < 10" "b < 10" by (simp_all add: a_def b_def)
  consider "d < 10" | "10 \<le> d" "d < 20" | "20 \<le> d" "d < 30" | "30 \<le> d" "d < 40"
    using assms by linarith
  then have "(a = 0 \<and> 1 \<le> b) \<or> a = 1 \<or> a = 2 \<or> (a = 3 \<and> b \<le> 1)"
  proof cases
    case 1
    from two_digits(1) [OF 1] assms show ?thesis by (simp add: a_def b_def)
  next
    case 2
    from two_digits(2) [OF 2] show ?thesis by (simp add: a_def)
  next
    case 3
    from two_digits(3) [OF 3] show ?thesis by (simp add: a_def)
  next
    case 4
    from two_digits(4) [OF 4] assms show ?thesis by (simp add: a_def b_def)
  qed
  from alternatives_d_digits [OF lt this, of r] show ?thesis
    unfolding zero_pad2_digits a_def b_def append_Cons append_Nil .
qed

lemma re_match_first:
  assumes "alternatives t s = (txt, rest) # alts"
    and "re_match ts rest (bind_group t txt g) = x # xs"
  shows "\<exists>ys. re_match (t # ts) s g = x # ys"
  using assms by simp

text \<open>The first match of \<^verbatim>\<open>%Y-%m-%d\<close> on a date written with four, two and two digits.\<close>

lemma re_match_iso_date:
  assumes "1 \<le> m" "m \<le> 12" "1 \<le> d" "d \<le> 31"
  shows "\<exists>ys. re_match [Dir_Y, Lit CHR ''-'', Dir_m, Lit CHR ''-'', Dir_d]
             (zero_pad4 y @ ''-'' @ zero_pad2 m @ ''-'' @ zero_pad2 d) g =
           (g\<lparr>grp_Y := zero_pad4 y, grp_m := zero_pad2 m, grp_d := zero_pad2 d\<rparr>, []) # ys"
proof -
  let ?g1 = "g\<lparr>grp_Y := zero_pad4 y\<rparr>"
  let ?g2 = "?g1\<lparr>grp_m := zero_pad2 m\<rparr>"
  let ?g3 = "?g2\<lparr>grp_d := zero_pad2 d\<rparr>"
  from alternatives_d [OF assms(3,4), of "[]"] obtain alts_d where
    ad: "alternatives Dir_d (zero_pad2 d) = (zero_pad2 d, []) # alts_d" by auto
  have s5: "\<exists>ys. re_match [Dir_d] (zero_pad2 d) ?g2 = (?g3, []) # ys"
    by (rule re_match_first [OF ad]) simp
  then obtain y5 where r5: "re_match [Dir_d] (zero_pad2 d) ?g2 = (?g3, []) # y5" by blast
  have s4: "\<exists>ys. re_match [Lit CHR ''-'', Dir_d] (CHR ''-'' # zero_pad2 d) ?g2 = (?g3, []) # ys"
    by (rule re_match_first [OF alternatives_Lit]) (simp only: bind_group.simps r5)
  then obtain y4 where
    r4: "re_match [Lit CHR ''-'', Dir_d] (CHR ''-'' # zero_pad2 d) ?g2 = (?g3, []) # y4" by blast
  from alternatives_m [OF assms(1,2), of "CHR ''-'' # zero_pad2 d"] obtain alts_m where
    am: "alternatives Dir_m (zero_pad2 m @ CHR ''-'' # zero_pad2 d)
           = (zero_pad2 m, CHR ''-'' # zero_pad2 d) # alts_m" by auto
  have s3: "\<exists>ys. re_match [Dir_m, Lit CHR ''-'', Dir_d] (zero_pad2 m @ CHR ''-'' # zero_pad2 d) ?g1
              = (?g3, []) # ys"
    by (rule re_match_first [OF am]) (simp only: bind_group.simps r4)
  then obtain y3 where
    r3: "re_match [Dir_m, Lit CHR ''-'', Dir_d] (zero_pad2 m @ CHR ''-'' # zero_pad2 d) ?g1
           = (?g3, []) # y3" by blast
  have s2: "\<exists>ys. re_match [Lit CHR ''-'', Dir_m, Lit CHR ''-'', Dir_d]
                (CHR ''-'' # zero_pad2 m @ CHR ''-'' # zero_pad2 d) ?g1 = (?g3, []) # ys"
    by (rule re_match_first [OF alternatives_Lit]) (simp only: bind_group.simps r3)
  then obtain y2 where
    r2: "re_match [Lit CHR ''-'', Dir_m, Lit CHR ''-'', Dir_d]
           (CHR ''-'' # zero_pad2 m @ CHR ''-'' # zero_pad2 d) ?g1 = (?g3, []) # y2" by blast
  have s1: "\<exists>ys. re_match [Dir_Y, Lit CHR ''-'', Dir_m, Lit CHR ''-'', Dir_d]
                (zero_pad4 y @ CHR ''-'' # zero_pad2 m @ CHR ''-'' # zero_pad2 d) g = (?g3, []) # ys"
    by (rule re_match_first [OF alternatives_Y]) (simp only: bind_group.simps r2)
  then show ?thesis by simp
qed

lemma days_in_month_le: "days_in_month y m \<le> 31"
  by (simp add: days_in_month_def)

lemma strptime_valid:
  "strptime s fmt = Some (y, m, d) \<Longrightarrow>
     1 \<le> y \<and> y \<le> 9999 \<and> 1 \<le> m \<and> m \<le> 12 \<and> 1 \<le> d \<and> d \<le> days_in_month y m"
  by (auto simp: strptime_def Let_def split: list.splits if_splits)

lemma strptime_iso_date:
  assumes "1 \<le> y" "y \<le> 9999" "1 \<le> m" "m \<le> 12" "1 \<le> d" "d \<le> days_in_month y m"
  shows "strptime (zero_pad4 y @ ''-'' @ zero_pad2 m @ ''-'' @ zero_pad2 d)
           [Dir_Y, Lit CHR ''-'', Dir_m, Lit CHR ''-'', Dir_d] = Some (y, m, d)"
proof -
  from assms(6) days_in_month_le [of y m] have d31: "d \<le> 31" by simp
  from re_match_iso_date [OF assms(3,4,5) d31, of y "\<lparr>grp_Y = [], grp_m = [], grp_d = []\<rparr>"]
  obtain ys where
    "re_match [Dir_Y, Lit CHR ''-'', Dir_m, Lit CHR ''-'', Dir_d]
       (zero_pad4 y @ ''-'' @ zero_pad2 m @ ''-'' @ zero_pad2 d) \<lparr>grp_Y = [], grp_m = [], grp_d = []\<rparr>
     = (\<lparr>grp_Y = zero_pad4 y, grp_m = zero_pad2 m, grp_d = zero_pad2 d\<rparr>, []) # ys"
    by auto
  moreover have "py_int (zero_pad4 y) = y" "py_int (zero_pad2 m) = m" "py_int (zero_pad2 d) = d"
    using assms d31 by (simp_all add: py_int_zero_pad4 py_int_zero_pad2)
  ultimately show ?thesis
    unfolding strptime_def using assms by (simp add: Let_def)
qed

lemma try_formats_Some:
  "try_formats pad_year fmts s = Some out \<Longrightarrow>
     \<exists>fmt date. strptime s fmt = Some date \<and> out = strftime_Ymd pad_year date"
  by (induction fmts) (auto split: option.splits)

lemma dropWhile_same_length: "length (dropWhile P xs) = length xs \<Longrightarrow> dropWhile P xs = xs"
proof (cases xs)
  case Nil
  then show ?thesis by simp
next
  case (Cons x xs')
  assume l: "length (dropWhile P xs) = length xs"
  show ?thesis
  proof (cases "P x")
    case True
    have "length (dropWhile P xs') \<le> length xs'" by (rule length_dropWhile_le)
    with l Cons True show ?thesis by simp
  next
    case False
    with Cons show ?thesis by simp
  qed
qed

text \<open>
  A normalised date is a fixed point of \<^verbatim>\<open>standardize_date\<close> whenever it has its ten
  characters: on a platform that pads the year, and for every year from 1000 on.
\<close>

lemma standardize_date_idempotent_when_padded:
  assumes "standardize_date pad_year x = Some out" and "pad_year \<or> length out = 10"
  shows "standardize_date pad_year (Some out) = Some out"
proof -
  from assms(1) obtain s where "try_formats pad_year date_formats (strip s) = Some out"
    by (auto simp: standardize_date_def split: option.splits if_splits)
  from try_formats_Some [OF this] obtain fmt y m d where
    p: "strptime (strip s) fmt = Some (y, m, d)" and out: "out = strftime_Ymd pad_year (y, m, d)"
    by (metis prod_cases3)
  note v = strptime_valid [OF p]
  have len: "length (zero_pad4 y) = 4" "length (zero_pad2 m) = 2" "length (zero_pad2 d) = 2"
    by (simp_all add: zero_pad4_def zero_pad2_def)
  have Y: "strftime_Y pad_year y = zero_pad4 y"
  proof (cases pad_year)
    case True
    then show ?thesis by (simp add: strftime_Y_def)
  next
    case False
    with assms(2) have "length out = 10" by simp
    with False have "length (dropWhile ((=) CHR ''0'') (zero_pad4 y)) = length (zero_pad4 y)"
      unfolding out by (simp add: strftime_Ymd_def strftime_Y_def len)
    from dropWhile_same_length [OF this] False show ?thesis by (simp add: strftime_Y_def)
  qed
  have iso: "out = zero_pad4 y @ ''-'' @ zero_pad2 m @ ''-'' @ zero_pad2 d"
    unfolding out by (simp add: strftime_Ymd_def Y)
  have ne: "out \<noteq> []" unfolding iso by (simp add: zero_pad4_def)
  have "hd out = digit_char (y div 1000 mod 10)" "last out = digit_char (d mod 10)"
    unfolding iso by (simp_all add: zero_pad4_def zero_pad2_def)
  then have "strip out = out"
    using ne by (intro strip_unchanged) (simp_all add: digit_char_props(2))
  moreover have "strptime out [Dir_Y, Lit CHR ''-'', Dir_m, Lit CHR ''-'', Dir_d] = Some (y, m, d)"
    unfolding iso using v by (intro strptime_iso_date) simp_all
  ultimately show ?thesis
    using ne by (simp add: standardize_date_def date_formats_def out [symmetric])
qed

subsection \<open>The email column after cleansing\<close>

lemma customer_extend_sel:
  "email (customer_raw.extend r (customer.fields i)) = email r"
  by (cases r) (simp add: customer_raw.defs customer.defs)

lemma fill_missing_emails_nth:
  "i < length df \<Longrightarrow>
     email (fill_missing_emails df ! i) =
       (case email (df ! i) of None \<Rightarrow> default_email (df ! i) | Some e \<Rightarrow> Some e)"
proof (cases "length (filter (\<lambda>row. email row = None) df) > 0")
  case True
  assume "i < length df"
  with True show ?thesis
    by (auto simp: fill_missing_emails_def Let_def split: option.splits)
next
  case False
  assume i: "i < length df"
  from False have "\<forall>r\<in>set df. email r \<noteq> None" by (simp add: filter_empty_conv)
  with i have "email (df ! i) \<noteq> None" by simp
  moreover from False have "fill_missing_emails df = df"
    by (simp add: fill_missing_emails_def Let_def)
  ultimately show ?thesis by auto
qed

lemma length_fill_missing_emails: "length (fill_missing_emails df) = length df"
  by (simp add: fill_missing_emails_def Let_def)

text \<open>
  The email after cleansing, row by row of the de-duplicated file: a present email is kept,
  and a missing one is synthesized when both names are present.
\<close>

lemma transform_customers_email:
  assumes "i < length (drop_duplicates customer_id customers_df)"
  shows "email (transform_customers pad_year customers_df ! i) =
     (case email (drop_duplicates customer_id customers_df ! i) of
        Some e \<Rightarrow> Some e
      | None \<Rightarrow>
          (case (first_name (drop_duplicates customer_id customers_df ! i),
                 last_name (drop_duplicates customer_id customers_df ! i)) of
             (Some f, Some l) \<Rightarrow> Some (lower f @ ''.'' @ lower l @ ''@unknown.com'')
           | _ \<Rightarrow> None))"
  using assms
  by (simp add: transform_customers_def Let_def surrogate_keys_def length_fill_missing_emails
      customer_extend_sel fill_missing_emails_nth default_email_def str_add_def
      split: option.splits)

end
